(* ===== verification/Prelude.thy ===== *)
theory Prelude
  imports Main "HOL-Library.Word" "HOL-Library.Monad_Syntax"
begin

text \<open>
  The shared layer of the development: Rust's integer types as words, the arithmetic
  operators whose behaviour depends on the build profile, \<open>Poll\<close>, the convention for
  panics, the part of \<open>Vec\<close> and \<open>BTreeMap\<close> the sources use, and one generic
  locale for invariants of step relations.

  Conventions used by every theory:
  \<^item> a computation that may panic has an \<open>option\<close> type, and \<open>None\<close> is the panic;
    panics propagate with the option monad's \<open>do\<close> notation;
  \<^item> \<open>Result<T, E>\<close> is \<open>E + T\<close>, \<open>Inl\<close> being \<open>Err\<close>;
  \<^item> \<open>usize\<close> lengths are \<open>nat\<close> (a \<open>Vec\<close> never reaches \<open>2^63\<close> bytes), and a
    cast \<open>as u16\<close> or \<open>as u32\<close> is \<open>of_nat\<close>, which truncates as Rust does.
\<close>

unbundle bit_operations_syntax

section \<open>Integer types\<close>

type_synonym u8 = "8 word"
type_synonym u16 = "16 word"
type_synonym u32 = "32 word"
type_synonym u64 = "64 word"
type_synonym bytes = "u8 list"

named_theorems word_nat \<open>reading words as natural numbers\<close>

text \<open>\<open>a.saturating_sub(b)\<close>.\<close>

definition saturating_sub :: "'a::len word \<Rightarrow> 'a word \<Rightarrow> 'a word" where
  "saturating_sub a b = (if a \<le> b then 0 else a - b)"

text \<open>
  The operators \<open>+\<close>, \<open>-\<close> and \<open>*\<close>: with overflow checks an overflow panics, without them
  it wraps. The first argument says whether the build has overflow checks.
\<close>

definition add_ovf :: "bool \<Rightarrow> 'a::len word \<Rightarrow> 'a word \<Rightarrow> 'a word option" where
  "add_ovf chk a b = (if chk \<and> 2 ^ LENGTH('a) \<le> unat a + unat b then None else Some (a + b))"

definition sub_ovf :: "bool \<Rightarrow> 'a::len word \<Rightarrow> 'a word \<Rightarrow> 'a word option" where
  "sub_ovf chk a b = (if chk \<and> a < b then None else Some (a - b))"

definition mul_ovf :: "bool \<Rightarrow> 'a::len word \<Rightarrow> 'a word \<Rightarrow> 'a word option" where
  "mul_ovf chk a b = (if chk \<and> 2 ^ LENGTH('a) \<le> unat a * unat b then None else Some (a * b))"

text \<open>The operator \<open>/\<close>: a zero divisor panics in every build.\<close>

definition div_chk :: "'a::len word \<Rightarrow> 'a word \<Rightarrow> 'a word option" where
  "div_chk a b = (if b = 0 then None else Some (a div b))"

lemma unat_saturating_sub [word_nat]: "unat (saturating_sub a b) = unat a - unat b"
  by (auto simp: saturating_sub_def word_le_nat_alt unat_sub_if')

lemma saturating_sub_eq_0 [simp]: "saturating_sub a b = 0 \<longleftrightarrow> a \<le> b"
  by (auto simp: saturating_sub_def)

lemma add_ovf_in_range [simp]:
  fixes a b :: "'a::len word"
  shows "unat a + unat b < 2 ^ LENGTH('a) \<Longrightarrow> add_ovf chk a b = Some (a + b)"
  by (simp add: add_ovf_def)

lemma mul_ovf_in_range [simp]:
  fixes a b :: "'a::len word"
  shows "unat a * unat b < 2 ^ LENGTH('a) \<Longrightarrow> mul_ovf chk a b = Some (a * b)"
  by (simp add: mul_ovf_def)

lemma add_ovf_unchecked [simp]: "add_ovf False a b = Some (a + b)"
  by (simp add: add_ovf_def)

lemma mul_ovf_unchecked [simp]: "mul_ovf False a b = Some (a * b)"
  by (simp add: mul_ovf_def)

lemma unat_add_in_range [word_nat]:
  fixes a b :: "'a::len word"
  shows "unat a + unat b < 2 ^ LENGTH('a) \<Longrightarrow> unat (a + b) = unat a + unat b"
  by (simp add: unat_word_ariths)

lemma unat_mult_in_range [word_nat]:
  fixes a b :: "'a::len word"
  shows "unat a * unat b < 2 ^ LENGTH('a) \<Longrightarrow> unat (a * b) = unat a * unat b"
  by (simp add: unat_word_ariths)

lemma unat_sub_in_range [word_nat]:
  fixes a b :: "'a::len word"
  shows "b \<le> a \<Longrightarrow> unat (a - b) = unat a - unat b"
  by (simp add: unat_sub)

lemma unat_of_nat_in_range [word_nat]:
  "n < 2 ^ LENGTH('a) \<Longrightarrow> unat (of_nat n :: 'a::len word) = n"
  by (simp add: unat_of_nat take_bit_nat_eq_self)

lemma unat_u16_le: "unat (w :: u16) \<le> 65535"
  using unsigned_less [of w, where ?'a = nat] by simp

lemma unat_u32_less: "unat (w :: u32) < 4294967296"
  using unsigned_less [of w, where ?'a = nat] by simp

lemma unat_gt_0_iff: "0 < unat w \<longleftrightarrow> w \<noteq> 0"
  by (simp add: unat_eq_0 flip: neq0_conv)

section \<open>The build\<close>

text \<open>
  What the sources learn from the build: the target family (Linux stands for linux,
  android and freebsd, MacOS for macos and ios, which share their \<open>cfg\<close> branches),
  \<open>debug_assertions\<close>, and whether arithmetic is overflow-checked.
\<close>

datatype target = Linux | MacOS | Windows

record build =
  target :: target
  debug_assertions :: bool
  overflow_checks :: bool

definition cfg_unix :: "build \<Rightarrow> bool" where
  "cfg_unix b = (target b \<noteq> Windows)"

text \<open>The default \<open>cargo build\<close> on Linux, for evaluation.\<close>

definition sample_build :: build where
  "sample_build = \<lparr>target = Linux, debug_assertions = True, overflow_checks = True\<rparr>"

section \<open>Poll and panics\<close>

datatype 'a poll = Pending | Ready 'a

section \<open>Vec\<close>

text \<open>\<open>Vec::remove(i)\<close> at an index that is in range.\<close>

definition remove_at :: "nat \<Rightarrow> 'a list \<Rightarrow> 'a list" where
  "remove_at i xs = take i xs @ drop (Suc i) xs"

text \<open>\<open>iter().position(f)\<close> for a predicate that may itself panic.\<close>

fun position :: "('a \<Rightarrow> bool option) \<Rightarrow> 'a list \<Rightarrow> nat option option" where
  "position f [] = Some None"
| "position f (x # xs) =
     do { b \<leftarrow> f x;
          if b then Some (Some 0)
          else do { r \<leftarrow> position f xs; Some (map_option Suc r) } }"

lemma position_Some_Some:
  "position f xs = Some (Some i) \<Longrightarrow> i < length xs \<and> f (xs ! i) = Some True"
proof (induction xs arbitrary: i)
  case (Cons x xs)
  then show ?case
    by (auto split: if_splits Option.bind_splits simp: bind_eq_Some_conv)
qed simp

lemma position_Some_None:
  "position f xs = Some None \<Longrightarrow> x \<in> set xs \<Longrightarrow> f x = Some False"
  by (induction xs) (auto split: if_splits simp: bind_eq_Some_conv)

lemma position_total:
  "\<forall>x \<in> set xs. f x \<noteq> None \<Longrightarrow> position f xs \<noteq> None"
  by (induction xs) auto

lemma length_remove_at [simp]: "i < length xs \<Longrightarrow> length (remove_at i xs) = length xs - 1"
  by (simp add: remove_at_def)

lemma set_remove_at_subset: "set (remove_at i xs) \<subseteq> set xs"
  by (auto simp: remove_at_def dest: in_set_takeD in_set_dropD)

section \<open>BTreeMap\<close>

text \<open>
  \<open>BTreeMap<K, V>\<close> as the list of its entries in key order: \<open>insert\<close> replaces the
  value of a key that is present, \<open>remove\<close> takes an entry out, iteration is the list.
\<close>

fun btree_insert :: "'k::linorder \<Rightarrow> 'v \<Rightarrow> ('k \<times> 'v) list \<Rightarrow> ('k \<times> 'v) list" where
  "btree_insert k v [] = [(k, v)]"
| "btree_insert k v ((k', v') # m) =
     (if k < k' then (k, v) # (k', v') # m
      else if k = k' then (k, v) # m
      else (k', v') # btree_insert k v m)"

fun btree_remove :: "'k::linorder \<Rightarrow> ('k \<times> 'v) list \<Rightarrow> ('k \<times> 'v) list" where
  "btree_remove k [] = []"
| "btree_remove k ((k', v') # m) = (if k = k' then m else (k', v') # btree_remove k m)"

definition btree_wf :: "('k::linorder \<times> 'v) list \<Rightarrow> bool" where
  "btree_wf m \<longleftrightarrow> sorted_wrt (<) (map fst m)"

lemma fst_btree_insert: "fst ` set (btree_insert k v m) = insert k (fst ` set m)"
  by (induction k v m rule: btree_insert.induct) auto

lemma fst_btree_remove: "fst ` set (btree_remove k m) \<subseteq> fst ` set m"
  by (induction k m rule: btree_remove.induct) auto

lemma btree_wf_insert: "btree_wf m \<Longrightarrow> btree_wf (btree_insert k v m)"
  unfolding btree_wf_def
proof (induction k v m rule: btree_insert.induct)
  case (2 k v k' v' m)
  have "set (map fst (btree_insert k v m)) = insert k (fst ` set m)"
    by (simp add: fst_btree_insert)
  with 2 show ?case by fastforce
qed simp

lemma btree_wf_remove: "btree_wf m \<Longrightarrow> btree_wf (btree_remove k m)"
  unfolding btree_wf_def
proof (induction k m rule: btree_remove.induct)
  case (2 k k' v' m)
  with fst_btree_remove [of k m] show ?case by fastforce
qed simp

lemma map_of_btree_insert: "btree_wf m \<Longrightarrow> map_of (btree_insert k v m) = (map_of m)(k \<mapsto> v)"
  unfolding btree_wf_def by (induction k v m rule: btree_insert.induct) (auto simp: fun_eq_iff)

lemma map_of_btree_remove: "btree_wf m \<Longrightarrow> map_of (btree_remove k m) = (map_of m)(k := None)"
  unfolding btree_wf_def
proof (induction k m rule: btree_remove.induct)
  case (2 k k' v' m)
  have "map_of m k' = None" if "\<forall>x \<in> fst ` set m. k' < x"
    using that by (metis less_irrefl map_of_eq_None_iff)
  with 2 show ?case by (auto simp: fun_eq_iff)
qed (simp add: fun_eq_iff)

section \<open>Invariants of step relations\<close>

text \<open>The reachable states of a step relation, and the generic invariant rule.\<close>

inductive reachable :: "('s \<Rightarrow> bool) \<Rightarrow> ('s \<Rightarrow> 's \<Rightarrow> bool) \<Rightarrow> 's \<Rightarrow> bool" for init step where
  reach_init: "init s \<Longrightarrow> reachable init step s"
| reach_step: "reachable init step s \<Longrightarrow> step s t \<Longrightarrow> reachable init step t"

lemma reachable_mono:
  "reachable init step s \<Longrightarrow> (\<And>s. init s \<Longrightarrow> init' s) \<Longrightarrow> reachable init' step s"
  by (induction rule: reachable.induct) (auto intro: reachable.intros)

locale invariant =
  fixes init :: "'s \<Rightarrow> bool" and step :: "'s \<Rightarrow> 's \<Rightarrow> bool" and inv :: "'s \<Rightarrow> bool"
  assumes inv_init: "init s \<Longrightarrow> inv s"
    and inv_step: "inv s \<Longrightarrow> step s t \<Longrightarrow> inv t"
begin

lemma inv_reachable: "reachable init step s \<Longrightarrow> inv s"
  by (induction rule: reachable.induct) (auto intro: inv_init inv_step)

end

end
