(* ===== verification/Error.thy ===== *)
theory Error
  imports Prelude
begin

text \<open>
  \<open>src/src/error.rs\<close>: the library's error type and its conversion to
  \<open>std::io::Error\<close>.
\<close>

text \<open>The kinds of \<open>std::io::ErrorKind\<close> the sources use.\<close>

datatype error_kind =
  UnexpectedEof | NotConnected | ConnectionAborted | TimedOut | ConnectionReset | Other | InvalidInput

text \<open>
  \<open>std::io::Error\<close> is an operating system error, a bare kind, or a kind with a custom
  error inside, which here is a message or an \<open>IpStackError\<close>. The values inside
  \<open>ValueTooBigError\<close> and \<open>SendError\<close> come from etherparse and tokio and are never
  read, so their constructors carry no argument.
\<close>

datatype ip_stack_error =
    UnsupportedTransportProtocol
  | InvalidPacket
  | ValueTooBigErrorU16
  | ValueTooBigErrorUsize
  | InvalidTcpPacket
  | IoError io_error
  | AcceptError
  | SendError
and io_error =
    OsError int
  | Simple error_kind
  | CustomMessage error_kind string
  | Custom error_kind ip_stack_error

text \<open>\<open>impl From<IpStackError> for std::io::Error\<close>.\<close>

fun io_error_from :: "ip_stack_error \<Rightarrow> io_error" where
  "io_error_from (IoError e) = e"
| "io_error_from e = Custom Other e"

text \<open>\<open>map_err(IpStackError::from)?\<close> in a function that returns an \<open>io::Error\<close>.\<close>

definition ok_or_io :: "ip_stack_error \<Rightarrow> 'a option \<Rightarrow> io_error + 'a" where
  "ok_or_io e r = (case r of None \<Rightarrow> Inl (io_error_from e) | Some x \<Rightarrow> Inr x)"

lemma io_error_from_inj:
  "io_error_from a = io_error_from b \<Longrightarrow>
   (\<forall>e. a \<noteq> IoError e) \<Longrightarrow> (\<forall>e. b \<noteq> IoError e) \<Longrightarrow> a = b"
  by (cases a; cases b) auto

lemma ok_or_io_simps [simp]:
  "ok_or_io e (Some x) = Inr x" "ok_or_io e None = Inl (io_error_from e)"
  by (simp_all add: ok_or_io_def)

end
