(* ===== verification/Etherparse.thy ===== *)
theory Etherparse
  imports Error
begin

text \<open>
  The interface of the third-party crate etherparse 0.17. Its code is not part of the
  repository, so its functions are the fields of a record \<open>etherparse\<close> that every
  definition using them takes as an argument. The header types hold the fields the
  sources read or write; whatever else a header has is the opaque component of type
  \<open>'x\<close>. What the sources rely on is stated as the predicate \<open>etherparse_ok\<close>: the
  documented lengths, size limits and field values, and nothing about bytes on the wire.

  An IPv4 or IPv6 address is an array \<open>[u8; 4]\<close> or \<open>[u8; 16]\<close>; it is held as its
  big-endian value, so \<open>Ipv4Addr::from\<close> and \<open>octets\<close> are identities here.
\<close>

section \<open>Data\<close>

type_synonym ipv4_octets = "32 word"
type_synonym ipv6_octets = "128 word"
type_synonym ip_number = u8

definition IpNumber_TCP :: ip_number where "IpNumber_TCP = 6"
definition IpNumber_UDP :: ip_number where "IpNumber_UDP = 17"

record 'x ipv4_header =
  ipv4_time_to_live :: u8
  ipv4_protocol :: ip_number
  ipv4_dont_fragment :: bool
  ipv4_source :: ipv4_octets
  ipv4_destination :: ipv4_octets
  ipv4_rest :: 'x

record ipv6_header =
  ipv6_traffic_class :: u8
  ipv6_flow_label :: "20 word"
  ipv6_payload_length :: u16
  ipv6_next_header :: ip_number
  ipv6_hop_limit :: u8
  ipv6_source :: ipv6_octets
  ipv6_destination :: ipv6_octets

record 'x tcp_header =
  tcp_source_port :: u16
  tcp_destination_port :: u16
  tcp_sequence_number :: u32
  tcp_acknowledgment_number :: u32
  tcp_cwr :: bool
  tcp_ece :: bool
  tcp_urg :: bool
  tcp_ack :: bool
  tcp_psh :: bool
  tcp_rst :: bool
  tcp_syn :: bool
  tcp_fin :: bool
  tcp_window_size :: u16
  tcp_checksum :: u16
  tcp_rest :: 'x

record 'x udp_header =
  udp_source_port :: u16
  udp_destination_port :: u16
  udp_rest :: 'x

text \<open>\<open>SlicedPacket\<close> as far as the sources look into it: a slice is its header and payload.\<close>

datatype 'x net_slice =
    NetIpv4 "'x ipv4_header" bytes
  | NetIpv6 ipv6_header bytes
  | NetArp

datatype 'x transport_slice =
    SliceTcp "'x tcp_header" bytes
  | SliceUdp "'x udp_header" bytes
  | SliceOther

record 'x sliced_packet =
  net :: "'x net_slice option"
  transport_slice :: "'x transport_slice option"

section \<open>Operations\<close>

text \<open>
  \<open>None\<close> is the operation's own error: any slicing error for \<open>from_ip\<close>, a
  \<open>ValueTooBigError\<close> for the others.
\<close>

record 'x etherparse =
  from_ip :: "bytes \<Rightarrow> 'x sliced_packet option"
  ipv4_new :: "u16 \<Rightarrow> u8 \<Rightarrow> ip_number \<Rightarrow> ipv4_octets \<Rightarrow> ipv4_octets \<Rightarrow> 'x ipv4_header option"
  ipv4_header_len :: "'x ipv4_header \<Rightarrow> nat"
  ipv4_set_payload_len :: "'x ipv4_header \<Rightarrow> nat \<Rightarrow> 'x ipv4_header option"
  ipv4_write :: "'x ipv4_header \<Rightarrow> io_error + bytes"
  ipv6_header_len :: "ipv6_header \<Rightarrow> nat"
  ipv6_set_payload_length :: "ipv6_header \<Rightarrow> nat \<Rightarrow> ipv6_header option"
  ipv6_write :: "ipv6_header \<Rightarrow> io_error + bytes"
  tcp_new :: "u16 \<Rightarrow> u16 \<Rightarrow> u32 \<Rightarrow> u16 \<Rightarrow> 'x tcp_header"
  tcp_header_len :: "'x tcp_header \<Rightarrow> nat"
  tcp_calc_checksum_ipv4 :: "'x tcp_header \<Rightarrow> 'x ipv4_header \<Rightarrow> bytes \<Rightarrow> u16 option"
  tcp_calc_checksum_ipv6 :: "'x tcp_header \<Rightarrow> ipv6_header \<Rightarrow> bytes \<Rightarrow> u16 option"
  tcp_write :: "'x tcp_header \<Rightarrow> io_error + bytes"
  udp_with_ipv4_checksum :: "u16 \<Rightarrow> u16 \<Rightarrow> 'x ipv4_header \<Rightarrow> bytes \<Rightarrow> 'x udp_header option"
  udp_with_ipv6_checksum :: "u16 \<Rightarrow> u16 \<Rightarrow> ipv6_header \<Rightarrow> bytes \<Rightarrow> 'x udp_header option"
  udp_write :: "'x udp_header \<Rightarrow> io_error + bytes"

section \<open>Documented behaviour\<close>

text \<open>
  \<open>Ipv4Header::new\<close> with payload length 0 gives a header without options (20 bytes) with
  the given fields; \<open>set_payload_len\<close> fails exactly when header and payload pass
  65535 bytes, and changes no field the sources read; \<open>write\<close> writes the header.
\<close>

definition ipv4_laws :: "'x etherparse \<Rightarrow> bool" where
  "ipv4_laws ep \<longleftrightarrow>
     (\<forall>ttl proto src dst. \<exists>h. ipv4_new ep 0 ttl proto src dst = Some h \<and>
        ipv4_time_to_live h = ttl \<and> ipv4_protocol h = proto \<and>
        ipv4_source h = src \<and> ipv4_destination h = dst \<and> ipv4_header_len ep h = 20) \<and>
     (\<forall>h n. (ipv4_header_len ep h + n \<le> 65535 \<longrightarrow>
               (\<exists>r. ipv4_set_payload_len ep h n = Some (h\<lparr>ipv4_rest := r\<rparr>) \<and>
                    ipv4_header_len ep (h\<lparr>ipv4_rest := r\<rparr>) = ipv4_header_len ep h)) \<and>
            (65535 < ipv4_header_len ep h + n \<longrightarrow> ipv4_set_payload_len ep h n = None)) \<and>
     (\<forall>h b. ipv4_header_len ep (h\<lparr>ipv4_dont_fragment := b\<rparr>) = ipv4_header_len ep h) \<and>
     (\<forall>h. \<exists>bs. ipv4_write ep h = Inr bs \<and> length bs = ipv4_header_len ep h)"

text \<open>An IPv6 header has 40 bytes; its payload length is a \<open>u16\<close>.\<close>

definition ipv6_laws :: "'x etherparse \<Rightarrow> bool" where
  "ipv6_laws ep \<longleftrightarrow>
     (\<forall>h. ipv6_header_len ep h = 40) \<and>
     (\<forall>h n. ipv6_set_payload_length ep h n =
        (if n \<le> 65535 then Some (h\<lparr>ipv6_payload_length := of_nat n\<rparr>) else None)) \<and>
     (\<forall>h. \<exists>bs. ipv6_write ep h = Inr bs \<and> length bs = 40)"

text \<open>
  \<open>TcpHeader::new\<close> gives a header without options and with every flag clear; a header
  with the same opaque part has the same length; the checksum of a segment that fits
  exists.
\<close>

definition tcp_laws :: "'x etherparse \<Rightarrow> bool" where
  "tcp_laws ep \<longleftrightarrow>
     (\<forall>sp dp sq w. \<exists>r. tcp_new ep sp dp sq w =
        \<lparr>tcp_source_port = sp, tcp_destination_port = dp, tcp_sequence_number = sq,
         tcp_acknowledgment_number = 0, tcp_cwr = False, tcp_ece = False, tcp_urg = False,
         tcp_ack = False, tcp_psh = False, tcp_rst = False, tcp_syn = False, tcp_fin = False,
         tcp_window_size = w, tcp_checksum = 0, tcp_rest = r\<rparr> \<and>
        (\<forall>h. tcp_rest h = r \<longrightarrow> tcp_header_len ep h = 20)) \<and>
     (\<forall>h ip p. tcp_header_len ep h + length p \<le> 65535 \<longrightarrow>
        tcp_calc_checksum_ipv4 ep h ip p \<noteq> None) \<and>
     (\<forall>h ip p. tcp_header_len ep h + length p \<le> 65535 \<longrightarrow>
        tcp_calc_checksum_ipv6 ep h ip p \<noteq> None) \<and>
     (\<forall>h. \<exists>bs. tcp_write ep h = Inr bs \<and> length bs = tcp_header_len ep h)"

text \<open>A UDP header has 8 bytes, and its length field limits the payload.\<close>

definition udp_laws :: "'x etherparse \<Rightarrow> bool" where
  "udp_laws ep \<longleftrightarrow>
     (\<forall>sp dp ip p. 8 + length p \<le> 65535 \<longrightarrow>
        (\<exists>h. udp_with_ipv4_checksum ep sp dp ip p = Some h \<and>
             udp_source_port h = sp \<and> udp_destination_port h = dp)) \<and>
     (\<forall>sp dp ip p. 8 + length p \<le> 65535 \<longrightarrow>
        (\<exists>h. udp_with_ipv6_checksum ep sp dp ip p = Some h \<and>
             udp_source_port h = sp \<and> udp_destination_port h = dp)) \<and>
     (\<forall>h. \<exists>bs. udp_write ep h = Inr bs \<and> length bs = 8)"

definition etherparse_ok :: "'x etherparse \<Rightarrow> bool" where
  "etherparse_ok ep \<longleftrightarrow> ipv4_laws ep \<and> ipv6_laws ep \<and> tcp_laws ep \<and> udp_laws ep"

section \<open>Consequences in the form the components use\<close>

lemma ipv4_new_ok:
  assumes "etherparse_ok ep"
  obtains h where "ipv4_new ep 0 ttl proto src dst = Some h"
    "ipv4_time_to_live h = ttl" "ipv4_protocol h = proto"
    "ipv4_source h = src" "ipv4_destination h = dst" "ipv4_header_len ep h = 20"
  using assms unfolding etherparse_ok_def ipv4_laws_def by blast

lemma ipv4_set_payload_len_ok:
  assumes "etherparse_ok ep" "ipv4_header_len ep h + n \<le> 65535"
  obtains r where "ipv4_set_payload_len ep h n = Some (h\<lparr>ipv4_rest := r\<rparr>)"
    "ipv4_header_len ep (h\<lparr>ipv4_rest := r\<rparr>) = ipv4_header_len ep h"
  using assms unfolding etherparse_ok_def ipv4_laws_def by blast

lemma ipv4_header_len_dont_fragment:
  "etherparse_ok ep \<Longrightarrow> ipv4_header_len ep (h\<lparr>ipv4_dont_fragment := b\<rparr>) = ipv4_header_len ep h"
  unfolding etherparse_ok_def ipv4_laws_def by blast

lemma ipv6_header_len_ok: "etherparse_ok ep \<Longrightarrow> ipv6_header_len ep h = 40"
  unfolding etherparse_ok_def ipv6_laws_def by blast

lemma ipv6_set_payload_length_ok:
  "etherparse_ok ep \<Longrightarrow> n \<le> 65535 \<Longrightarrow>
   ipv6_set_payload_length ep h n = Some (h\<lparr>ipv6_payload_length := of_nat n\<rparr>)"
  unfolding etherparse_ok_def ipv6_laws_def by simp

lemma tcp_new_ok:
  assumes "etherparse_ok ep"
  obtains r where "tcp_new ep sp dp sq w =
        \<lparr>tcp_source_port = sp, tcp_destination_port = dp, tcp_sequence_number = sq,
         tcp_acknowledgment_number = 0, tcp_cwr = False, tcp_ece = False, tcp_urg = False,
         tcp_ack = False, tcp_psh = False, tcp_rst = False, tcp_syn = False, tcp_fin = False,
         tcp_window_size = w, tcp_checksum = 0, tcp_rest = r\<rparr>"
    "\<And>h. tcp_rest h = r \<Longrightarrow> tcp_header_len ep h = 20"
  using assms unfolding etherparse_ok_def tcp_laws_def by metis

lemma tcp_checksum_ok:
  assumes "etherparse_ok ep" "tcp_header_len ep h + length p \<le> 65535"
  shows "\<exists>c. tcp_calc_checksum_ipv4 ep h ip4 p = Some c"
    and "\<exists>c. tcp_calc_checksum_ipv6 ep h ip6 p = Some c"
  subgoal using assms unfolding etherparse_ok_def tcp_laws_def by blast
  subgoal using assms unfolding etherparse_ok_def tcp_laws_def by blast
  done

lemma udp_with_checksum_ok:
  assumes "etherparse_ok ep" "8 + length p \<le> 65535"
  shows "\<exists>h. udp_with_ipv4_checksum ep sp dp ip4 p = Some h \<and>
             udp_source_port h = sp \<and> udp_destination_port h = dp"
    and "\<exists>h. udp_with_ipv6_checksum ep sp dp ip6 p = Some h \<and>
             udp_source_port h = sp \<and> udp_destination_port h = dp"
  subgoal using assms unfolding etherparse_ok_def udp_laws_def by blast
  subgoal using assms unfolding etherparse_ok_def udp_laws_def by blast
  done

lemma write_ok:
  assumes "etherparse_ok ep"
  shows "\<exists>bs. ipv4_write ep h4 = Inr bs \<and> length bs = ipv4_header_len ep h4"
    and "\<exists>bs. ipv6_write ep h6 = Inr bs \<and> length bs = 40"
    and "\<exists>bs. tcp_write ep ht = Inr bs \<and> length bs = tcp_header_len ep ht"
    and "\<exists>bs. udp_write ep hu = Inr bs \<and> length bs = 8"
  subgoal using assms unfolding etherparse_ok_def ipv4_laws_def by blast
  subgoal using assms unfolding etherparse_ok_def ipv6_laws_def by blast
  subgoal using assms unfolding etherparse_ok_def tcp_laws_def by blast
  subgoal using assms unfolding etherparse_ok_def udp_laws_def by blast
  done

section \<open>A concrete instance for evaluation\<close>

text \<open>
  An instance with option-free headers, used to evaluate the model on concrete inputs and
  to show that \<open>etherparse_ok\<close> can hold. The slicer is an argument.
\<close>

definition sample_etherparse :: "(bytes \<Rightarrow> unit sliced_packet option) \<Rightarrow> unit etherparse" where
  "sample_etherparse slicer =
     \<lparr>from_ip = slicer,
      ipv4_new = (\<lambda>n ttl proto src dst.
        if 20 + unat n \<le> 65535
        then Some \<lparr>ipv4_time_to_live = ttl, ipv4_protocol = proto, ipv4_dont_fragment = True,
                   ipv4_source = src, ipv4_destination = dst, ipv4_rest = ()\<rparr>
        else None),
      ipv4_header_len = (\<lambda>h. 20),
      ipv4_set_payload_len = (\<lambda>h n. if 20 + n \<le> 65535 then Some h else None),
      ipv4_write = (\<lambda>h. Inr (replicate 20 (ipv4_time_to_live h))),
      ipv6_header_len = (\<lambda>h. 40),
      ipv6_set_payload_length = (\<lambda>h n.
        if n \<le> 65535 then Some (h\<lparr>ipv6_payload_length := of_nat n\<rparr>) else None),
      ipv6_write = (\<lambda>h. Inr (replicate 40 (ipv6_hop_limit h))),
      tcp_new = (\<lambda>sp dp sq w.
        \<lparr>tcp_source_port = sp, tcp_destination_port = dp, tcp_sequence_number = sq,
         tcp_acknowledgment_number = 0, tcp_cwr = False, tcp_ece = False, tcp_urg = False,
         tcp_ack = False, tcp_psh = False, tcp_rst = False, tcp_syn = False, tcp_fin = False,
         tcp_window_size = w, tcp_checksum = 0, tcp_rest = ()\<rparr>),
      tcp_header_len = (\<lambda>h. 20),
      tcp_calc_checksum_ipv4 = (\<lambda>h ip p. if 20 + length p \<le> 65535 then Some 0 else None),
      tcp_calc_checksum_ipv6 = (\<lambda>h ip p. if 20 + length p \<le> 65535 then Some 0 else None),
      tcp_write = (\<lambda>h. Inr (replicate 20 0)),
      udp_with_ipv4_checksum = (\<lambda>sp dp ip p. if 8 + length p \<le> 65535
        then Some \<lparr>udp_source_port = sp, udp_destination_port = dp, udp_rest = ()\<rparr> else None),
      udp_with_ipv6_checksum = (\<lambda>sp dp ip p. if 8 + length p \<le> 65535
        then Some \<lparr>udp_source_port = sp, udp_destination_port = dp, udp_rest = ()\<rparr> else None),
      udp_write = (\<lambda>h. Inr (replicate 8 0))\<rparr>"

lemma sample_etherparse_ok: "etherparse_ok (sample_etherparse slicer)"
  by (simp add: etherparse_ok_def ipv4_laws_def ipv6_laws_def tcp_laws_def udp_laws_def
      sample_etherparse_def)

end
