(* ===== verification/Packet.thy ===== *)
theory Packet
  imports Etherparse
begin

text \<open>
  \<open>src/src/packet.rs\<close>: packets, the session key of a packet, parsing and serialising
  over etherparse, and the TCP flag byte. The last section is the interface
  \<open>reply_builder\<close> of the components that build packets going back to the device.
\<close>

section \<open>Addresses and session keys\<close>

text \<open>
  \<open>std::net\<close> addresses. Every \<open>SocketAddr\<close> of the program is made by
  \<open>SocketAddr::new\<close> (or with explicit zeros), so flow info and scope id are 0 and only
  address and port remain.
\<close>

datatype ip_addr = V4 ipv4_octets | V6 ipv6_octets

record socket_addr =
  sa_ip :: ip_addr
  sa_port :: u16

definition is_ipv4 :: "socket_addr \<Rightarrow> bool" where
  "is_ipv4 a = (case sa_ip a of V4 _ \<Rightarrow> True | V6 _ \<Rightarrow> False)"

record network_tuple =
  nt_src :: socket_addr
  nt_dst :: socket_addr
  nt_tcp :: bool

section \<open>The flag byte\<close>

definition CWR :: u8 where "CWR = 128"
definition ECE :: u8 where "ECE = 64"
definition URG :: u8 where "URG = 32"
definition ACK :: u8 where "ACK = 16"
definition PSH :: u8 where "PSH = 8"
definition RST :: u8 where "RST = 4"
definition SYN :: u8 where "SYN = 2"
definition FIN :: u8 where "FIN = 1"
definition NON :: u8 where "NON = 0"

lemmas tcp_flags = CWR_def ECE_def URG_def ACK_def PSH_def RST_def SYN_def FIN_def NON_def

record 'x tcp_header_wrapper =
  tw_header :: "'x tcp_header"

definition inner :: "'x tcp_header_wrapper \<Rightarrow> 'x tcp_header" where
  "inner w = tw_header w"

definition wrapper_from :: "'x tcp_header \<Rightarrow> 'x tcp_header_wrapper" where
  "wrapper_from h = \<lparr>tw_header = h\<rparr>"

definition flags :: "'x tcp_header_wrapper \<Rightarrow> u8" where
  "flags w =
    (let h = inner w;
         f = 0;
         f = (if tcp_cwr h then f OR CWR else f);
         f = (if tcp_ece h then f OR ECE else f);
         f = (if tcp_urg h then f OR URG else f);
         f = (if tcp_ack h then f OR ACK else f);
         f = (if tcp_psh h then f OR PSH else f);
         f = (if tcp_rst h then f OR RST else f);
         f = (if tcp_syn h then f OR SYN else f);
         f = (if tcp_fin h then f OR FIN else f)
     in f)"

text \<open>A header for evaluation: sequence and acknowledgement numbers, flags, window.\<close>

definition sample_tcp :: "u32 \<Rightarrow> u32 \<Rightarrow> u8 \<Rightarrow> u16 \<Rightarrow> unit tcp_header" where
  "sample_tcp sq ak f w =
     \<lparr>tcp_source_port = 1111, tcp_destination_port = 80, tcp_sequence_number = sq,
      tcp_acknowledgment_number = ak, tcp_cwr = False, tcp_ece = False, tcp_urg = False,
      tcp_ack = (f AND ACK \<noteq> 0), tcp_psh = (f AND PSH \<noteq> 0), tcp_rst = (f AND RST \<noteq> 0),
      tcp_syn = (f AND SYN \<noteq> 0), tcp_fin = (f AND FIN \<noteq> 0),
      tcp_window_size = w, tcp_checksum = 0, tcp_rest = ()\<rparr>"

section \<open>Packets\<close>

datatype 'x ip_stack_packet_protocol =
  ProtoTcp "'x tcp_header_wrapper" | ProtoUnknown | ProtoUdp

datatype 'x ip_header = Ipv4 "'x ipv4_header" | Ipv6 ipv6_header

datatype 'x transport_header = Tcp "'x tcp_header" | Udp "'x udp_header" | Unknown

record 'x network_packet =
  np_ip :: "'x ip_header"
  np_transport :: "'x transport_header"
  np_payload :: bytes

text \<open>The second half of \<open>parse\<close>: the transport header and the payload behind it.\<close>

definition parse_transport ::
  "'x ip_header \<Rightarrow> bytes \<Rightarrow> 'x transport_slice option \<Rightarrow> 'x network_packet" where
  "parse_transport ip ip_payload t =
     (case t of
        Some (SliceTcp h payload) \<Rightarrow> \<lparr>np_ip = ip, np_transport = Tcp h, np_payload = payload\<rparr>
      | Some (SliceUdp h payload) \<Rightarrow> \<lparr>np_ip = ip, np_transport = Udp h, np_payload = payload\<rparr>
      | _ \<Rightarrow> \<lparr>np_ip = ip, np_transport = Unknown, np_payload = ip_payload\<rparr>)"

definition parse :: "'x etherparse \<Rightarrow> bytes \<Rightarrow> ip_stack_error + 'x network_packet" where
  "parse ep buf =
     (case from_ip ep buf of
        None \<Rightarrow> Inl InvalidPacket
      | Some p \<Rightarrow>
        (case net p of
           None \<Rightarrow> Inl InvalidPacket
         | Some (NetIpv4 h ip_payload) \<Rightarrow>
             Inr (parse_transport (Ipv4 h) ip_payload (transport_slice p))
         | Some (NetIpv6 h ip_payload) \<Rightarrow>
             Inr (parse_transport (Ipv6 h) ip_payload (transport_slice p))
         | Some NetArp \<Rightarrow> Inl UnsupportedTransportProtocol))"

definition transport_protocol :: "'x network_packet \<Rightarrow> 'x ip_stack_packet_protocol" where
  "transport_protocol p =
     (case np_transport p of
        Udp _ \<Rightarrow> ProtoUdp
      | Tcp h \<Rightarrow> ProtoTcp (wrapper_from h)
      | Unknown \<Rightarrow> ProtoUnknown)"

definition src_addr :: "'x network_packet \<Rightarrow> socket_addr" where
  "src_addr p =
     (let port = (case np_transport p of
                    Udp udp \<Rightarrow> udp_source_port udp
                  | Tcp tcp \<Rightarrow> tcp_source_port tcp
                  | Unknown \<Rightarrow> 0)
      in case np_ip p of
           Ipv4 ip \<Rightarrow> \<lparr>sa_ip = V4 (ipv4_source ip), sa_port = port\<rparr>
         | Ipv6 ip \<Rightarrow> \<lparr>sa_ip = V6 (ipv6_source ip), sa_port = port\<rparr>)"

definition dst_addr :: "'x network_packet \<Rightarrow> socket_addr" where
  "dst_addr p =
     (let port = (case np_transport p of
                    Udp udp \<Rightarrow> udp_destination_port udp
                  | Tcp tcp \<Rightarrow> tcp_destination_port tcp
                  | Unknown \<Rightarrow> 0)
      in case np_ip p of
           Ipv4 ip \<Rightarrow> \<lparr>sa_ip = V4 (ipv4_destination ip), sa_port = port\<rparr>
         | Ipv6 ip \<Rightarrow> \<lparr>sa_ip = V6 (ipv6_destination ip), sa_port = port\<rparr>)"

definition is_tcp :: "'x network_packet \<Rightarrow> bool" where
  "is_tcp p = (case np_transport p of Tcp _ \<Rightarrow> True | _ \<Rightarrow> False)"

definition network_tuple_of :: "'x network_packet \<Rightarrow> network_tuple" where
  "network_tuple_of p = \<lparr>nt_src = src_addr p, nt_dst = dst_addr p, nt_tcp = is_tcp p\<rparr>"

definition reverse_network_tuple :: "'x network_packet \<Rightarrow> network_tuple" where
  "reverse_network_tuple p = \<lparr>nt_src = dst_addr p, nt_dst = src_addr p, nt_tcp = is_tcp p\<rparr>"

text \<open>\<open>to_bytes\<close>: the two \<open>write\<close> calls append to the buffer, an I/O error ends it.\<close>

definition to_bytes :: "'x etherparse \<Rightarrow> 'x network_packet \<Rightarrow> ip_stack_error + bytes" where
  "to_bytes ep p =
     (case (case np_ip p of Ipv4 ip \<Rightarrow> ipv4_write ep ip | Ipv6 ip \<Rightarrow> ipv6_write ep ip) of
        Inl e \<Rightarrow> Inl (IoError e)
      | Inr buf1 \<Rightarrow>
        (case (case np_transport p of
                 Tcp h \<Rightarrow> tcp_write ep h | Udp h \<Rightarrow> udp_write ep h | Unknown \<Rightarrow> Inr []) of
           Inl e \<Rightarrow> Inl (IoError e)
         | Inr buf2 \<Rightarrow> Inr (buf1 @ buf2 @ np_payload p)))"

definition ttl :: "'x network_packet \<Rightarrow> u8" where
  "ttl p = (case np_ip p of Ipv4 ip \<Rightarrow> ipv4_time_to_live ip | Ipv6 ip \<Rightarrow> ipv6_hop_limit ip)"

section \<open>Facts about packets\<close>

text \<open>Mirroring a session key: what \<open>reverse_network_tuple\<close> does to \<open>network_tuple\<close>.\<close>

definition mirror :: "network_tuple \<Rightarrow> network_tuple" where
  "mirror t = t\<lparr>nt_src := nt_dst t, nt_dst := nt_src t\<rparr>"

lemma reverse_network_tuple_mirror: "reverse_network_tuple p = mirror (network_tuple_of p)"
  by (simp add: reverse_network_tuple_def network_tuple_of_def mirror_def)

lemma mirror_mirror [simp]: "mirror (mirror t) = t"
  by (simp add: mirror_def)

text \<open>Addresses of one packet are of one family.\<close>

definition same_family :: "ip_addr \<Rightarrow> ip_addr \<Rightarrow> bool" where
  "same_family a b =
     (case (a, b) of (V4 _, V4 _) \<Rightarrow> True | (V6 _, V6 _) \<Rightarrow> True | _ \<Rightarrow> False)"

lemma same_family_sym: "same_family a b = same_family b a"
  by (auto simp: same_family_def split: ip_addr.splits)

lemma same_family_packet: "same_family (sa_ip (src_addr p)) (sa_ip (dst_addr p))"
  by (simp add: same_family_def src_addr_def dst_addr_def Let_def split: ip_header.splits)

text \<open>The flag byte, bit by bit.\<close>

lemma tcp_flags_exp:
  "CWR = 2 ^ 7" "ECE = 2 ^ 6" "URG = 2 ^ 5" "ACK = 2 ^ 4" "PSH = 2 ^ 3" "RST = 2 ^ 2"
  "SYN = 2 ^ 1" "FIN = 2 ^ 0" "NON = 0"
  by (simp_all add: tcp_flags)

lemma or_if_mask: "(if c then f OR m else f) = f OR (if c then m else (0::u8))"
  by simp

lemma bit_if_mask: "bit (if c then 2 ^ m else (0::u8)) n \<longleftrightarrow> c \<and> m = n \<and> n < 8"
  by (auto simp: bit_exp_iff)

text \<open>Every conditional \<open>|=\<close> as a mask first, so that unfolding the lets stays linear.\<close>

lemmas flags_masks = flags_def [unfolded or_if_mask, unfolded Let_def]

lemma flags_bit:
  "bit (flags w) n \<longleftrightarrow>
     (let h = inner w in
       n = 7 \<and> tcp_cwr h \<or> n = 6 \<and> tcp_ece h \<or> n = 5 \<and> tcp_urg h \<or> n = 4 \<and> tcp_ack h \<or>
       n = 3 \<and> tcp_psh h \<or> n = 2 \<and> tcp_rst h \<or> n = 1 \<and> tcp_syn h \<or> n = 0 \<and> tcp_fin h)"
  unfolding flags_masks tcp_flags_exp bit_or_iff bit_if_mask Let_def bit_0_eq
  by (cases "n < 8") (simp_all, blast?)

lemma word_and_exp_ne_0: "(x :: u8) AND 2 ^ k \<noteq> 0 \<longleftrightarrow> bit x k"
  by (simp add: and_exp_eq_0_iff_not_bit)

text \<open>
  The flag byte determines the eight flag fields of a header and nothing else: two
  headers have the same \<open>flags()\<close> exactly when all eight fields agree. The comparisons
  \<open>flags() == ACK\<close>, \<open>== (FIN | ACK)\<close> and \<open>== (PSH | ACK)\<close> of the state machine
  therefore test the complete flag set.
\<close>

lemma flags_eq_iff:
  "flags v = flags w \<longleftrightarrow>
     (let g = inner v; h = inner w in
       tcp_cwr g = tcp_cwr h \<and> tcp_ece g = tcp_ece h \<and> tcp_urg g = tcp_urg h \<and>
       tcp_ack g = tcp_ack h \<and> tcp_psh g = tcp_psh h \<and> tcp_rst g = tcp_rst h \<and>
       tcp_syn g = tcp_syn h \<and> tcp_fin g = tcp_fin h)"
proof
  assume "flags v = flags w"
  then have "bit (flags v) n = bit (flags w) n" for n by simp
  from this [of 7] this [of 6] this [of 5] this [of 4]
    this [of 3] this [of 2] this [of 1] this [of 0]
  show "let g = inner v; h = inner w in
       tcp_cwr g = tcp_cwr h \<and> tcp_ece g = tcp_ece h \<and> tcp_urg g = tcp_urg h \<and>
       tcp_ack g = tcp_ack h \<and> tcp_psh g = tcp_psh h \<and> tcp_rst g = tcp_rst h \<and>
       tcp_syn g = tcp_syn h \<and> tcp_fin g = tcp_fin h"
    by (simp add: flags_bit Let_def)
qed (simp add: flags_masks Let_def)

lemma flags_rst: "flags w AND RST \<noteq> 0 \<longleftrightarrow> tcp_rst (inner w)"
  unfolding tcp_flags_exp word_and_exp_ne_0 by (simp add: flags_bit Let_def)

section \<open>Sizes on the wire\<close>

definition ip_len :: "'x etherparse \<Rightarrow> 'x ip_header \<Rightarrow> nat" where
  "ip_len ep ip = (case ip of Ipv4 h \<Rightarrow> ipv4_header_len ep h | Ipv6 h \<Rightarrow> ipv6_header_len ep h)"

definition transport_len :: "'x etherparse \<Rightarrow> 'x transport_header \<Rightarrow> nat" where
  "transport_len ep t = (case t of Tcp h \<Rightarrow> tcp_header_len ep h | Udp h \<Rightarrow> 8 | Unknown \<Rightarrow> 0)"

definition wire_len :: "'x etherparse \<Rightarrow> 'x network_packet \<Rightarrow> nat" where
  "wire_len ep p = ip_len ep (np_ip p) + transport_len ep (np_transport p) + length (np_payload p)"

lemma to_bytes_split:
  assumes "etherparse_ok ep"
  obtains a b where "to_bytes ep p = Inr (a @ b @ np_payload p)"
    "length a = ip_len ep (np_ip p)" "length b = transport_len ep (np_transport p)"
proof -
  obtain a where a: "(case np_ip p of Ipv4 ip \<Rightarrow> ipv4_write ep ip | Ipv6 ip \<Rightarrow> ipv6_write ep ip) = Inr a"
      "length a = ip_len ep (np_ip p)"
    using write_ok(1,2) [OF assms] ipv6_header_len_ok [OF assms]
    by (cases "np_ip p") (fastforce simp: ip_len_def)+
  obtain b where b: "(case np_transport p of
           Tcp h \<Rightarrow> tcp_write ep h | Udp h \<Rightarrow> udp_write ep h | Unknown \<Rightarrow> Inr []) = Inr b"
      "length b = transport_len ep (np_transport p)"
    using write_ok(3,4) [OF assms]
    by (cases "np_transport p") (fastforce simp: transport_len_def)+
  from a b show ?thesis by (intro that [of a b]) (simp_all add: to_bytes_def)
qed

section \<open>The interface of the reply builders\<close>

text \<open>
  TCP streams, UDP streams and unknown-transport handles each have a
  \<open>create_rev_packet\<close> that makes a packet going back to the device. What the rest of
  the stack relies on: for addresses of one family it neither panics nor fails, the packet
  carries the two addresses swapped, and it fits the MTU as far as the headers allow.
\<close>

locale reply_builder =
  fixes build :: "'x etherparse \<Rightarrow> 's \<Rightarrow> 'a \<Rightarrow> (io_error + 'x network_packet) option"
    and local :: "'s \<Rightarrow> socket_addr"
    and remote :: "'s \<Rightarrow> socket_addr"
    and tcp :: bool
    and limit :: "'s \<Rightarrow> nat"
  assumes build_ok:
    "etherparse_ok ep \<Longrightarrow> same_family (sa_ip (remote s)) (sa_ip (local s)) \<Longrightarrow>
       \<exists>p. build ep s a = Some (Inr p) \<and>
           src_addr p = remote s \<and> dst_addr p = local s \<and> is_tcp p = tcp \<and>
           wire_len ep p \<le> limit s"
begin

lemma reply_total:
  assumes "etherparse_ok ep" "same_family (sa_ip (remote s)) (sa_ip (local s))"
  obtains p where "build ep s a = Some (Inr p)"
  using build_ok [OF assms] by blast

lemma reply_key:
  assumes "etherparse_ok ep" "same_family (sa_ip (remote s)) (sa_ip (local s))"
    "build ep s a = Some (Inr p)"
  shows "reverse_network_tuple p = \<lparr>nt_src = local s, nt_dst = remote s, nt_tcp = tcp\<rparr>"
  using build_ok [OF assms(1,2), of a] assms(3) by (auto simp: reverse_network_tuple_def)

lemma reply_fits:
  assumes "etherparse_ok ep" "same_family (sa_ip (remote s)) (sa_ip (local s))"
    "build ep s a = Some (Inr p)"
  shows "\<exists>bs. to_bytes ep p = Inr bs \<and> length bs \<le> limit s"
proof -
  obtain x y where "to_bytes ep p = Inr (x @ y @ np_payload p)"
    "length x = ip_len ep (np_ip p)" "length y = transport_len ep (np_transport p)"
    using assms(1) by (rule to_bytes_split)
  moreover from build_ok [OF assms(1,2), of a] assms(3) have "wire_len ep p \<le> limit s" by auto
  ultimately show ?thesis by (auto simp: wire_len_def)
qed

end

end
