(* ===== verification/Tcb.thy ===== *)
theory Tcb
  imports Packet
begin

text \<open>
  \<open>src/src/stream/tcb.rs\<close>: the TCP control block. Time is a natural number:
  \<open>Instant::now()\<close> is an argument, a \<open>Sleep\<close> is its deadline.
\<close>

definition MAX_UNACK :: u32 where "MAX_UNACK = 1024 * 16"
definition READ_BUFFER_SIZE :: nat where "READ_BUFFER_SIZE = 1024 * 16"

datatype tcp_state =
    SynReceived bool
  | Established
  | FinWait1 bool
  | FinWait2 bool
  | Closed

datatype packet_status =
  WindowUpdate | Invalid | RetransmissionRequest | NewPacket | Ack | KeepAlive

record inflight_packet =
  if_seq :: u32
  if_payload :: bytes

record unordered_packet =
  un_payload :: bytes

record tcb =
  tcb_seq :: u32
  tcb_retransmission :: "u32 option"
  tcb_ack :: u32
  tcb_last_ack :: u32
  tcb_timeout :: nat
  tcb_tcp_timeout :: nat
  tcb_recv_window :: u16
  tcb_send_window :: u16
  tcb_state :: tcp_state
  tcb_avg_send_window :: "u64 \<times> u64"
  tcb_inflight_packets :: "inflight_packet list"
  tcb_unordered_packets :: "(u32 \<times> unordered_packet) list"

section \<open>Operations\<close>

text \<open>\<open>rnd\<close> is what \<open>rand::random\<close> returns, \<open>now\<close> the current instant.\<close>

definition tcb_new :: "build \<Rightarrow> u32 \<Rightarrow> nat \<Rightarrow> u32 \<Rightarrow> nat \<Rightarrow> tcb" where
  "tcb_new b rnd now ack tcp_timeout =
     (let seq = (if debug_assertions b then 100 else rnd);
          deadline = now + tcp_timeout
      in \<lparr>tcb_seq = seq, tcb_retransmission = None, tcb_ack = ack, tcb_last_ack = seq,
          tcb_timeout = deadline, tcb_tcp_timeout = tcp_timeout,
          tcb_recv_window = 0, tcb_send_window = 65535,
          tcb_state = SynReceived False, tcb_avg_send_window = (1, 1),
          tcb_inflight_packets = [], tcb_unordered_packets = []\<rparr>)"

definition inflight_new :: "u32 \<Rightarrow> bytes \<Rightarrow> inflight_packet" where
  "inflight_new seq payload = \<lparr>if_seq = seq, if_payload = payload\<rparr>"

definition unordered_new :: "bytes \<Rightarrow> unordered_packet" where
  "unordered_new payload = \<lparr>un_payload = payload\<rparr>"

text \<open>\<open>InflightPacket::contains\<close>; the sum is the plain operator \<open>+\<close>.\<close>

definition contains :: "build \<Rightarrow> inflight_packet \<Rightarrow> u32 \<Rightarrow> bool option" where
  "contains b p seq =
     (if if_seq p < seq
      then do { last \<leftarrow> add_ovf (overflow_checks b) (if_seq p) (of_nat (length (if_payload p)));
                Some (seq \<le> last) }
      else Some False)"

definition add_inflight_packet :: "tcb \<Rightarrow> u32 \<Rightarrow> bytes \<Rightarrow> tcb" where
  "add_inflight_packet t seq buf =
     t\<lparr>tcb_inflight_packets := tcb_inflight_packets t @ [inflight_new seq buf],
       tcb_seq := tcb_seq t + of_nat (length buf)\<rparr>"

definition add_unordered_packet :: "tcb \<Rightarrow> u32 \<Rightarrow> bytes \<Rightarrow> tcb" where
  "add_unordered_packet t seq buf =
     (if seq < tcb_ack t then t
      else t\<lparr>tcb_unordered_packets :=
               btree_insert seq (unordered_new buf) (tcb_unordered_packets t)\<rparr>)"

definition get_available_read_buffer_size :: "tcb \<Rightarrow> nat" where
  "get_available_read_buffer_size t =
     READ_BUFFER_SIZE - foldl (\<lambda>acc (_, p). acc + length (un_payload p)) 0 (tcb_unordered_packets t)"

definition get_unordered_packets :: "tcb \<Rightarrow> bytes option \<times> tcb" where
  "get_unordered_packets t =
     (map_option un_payload (map_of (tcb_unordered_packets t) (tcb_ack t)),
      t\<lparr>tcb_unordered_packets := btree_remove (tcb_ack t) (tcb_unordered_packets t)\<rparr>)"

definition add_seq_one :: "tcb \<Rightarrow> tcb" where
  "add_seq_one t = t\<lparr>tcb_seq := tcb_seq t + 1\<rparr>"

definition get_seq :: "tcb \<Rightarrow> u32" where "get_seq t = tcb_seq t"

definition add_ack :: "tcb \<Rightarrow> u32 \<Rightarrow> tcb" where
  "add_ack t add = t\<lparr>tcb_ack := tcb_ack t + add\<rparr>"

definition get_ack :: "tcb \<Rightarrow> u32" where "get_ack t = tcb_ack t"

definition get_last_ack :: "tcb \<Rightarrow> u32" where "get_last_ack t = tcb_last_ack t"

definition change_state :: "tcb \<Rightarrow> tcp_state \<Rightarrow> tcb" where
  "change_state t st = t\<lparr>tcb_state := st\<rparr>"

definition get_state :: "tcb \<Rightarrow> tcp_state" where "get_state t = tcb_state t"

definition change_send_window :: "build \<Rightarrow> tcb \<Rightarrow> u16 \<Rightarrow> tcb option" where
  "change_send_window b t window =
     do { let (avg, count) = tcb_avg_send_window t;
          prod \<leftarrow> mul_ovf (overflow_checks b) avg count;
          total \<leftarrow> add_ovf (overflow_checks b) prod (ucast window);
          count' \<leftarrow> add_ovf (overflow_checks b) count 1;
          avg' \<leftarrow> div_chk total count';
          Some (t\<lparr>tcb_avg_send_window := (avg', count'), tcb_send_window := window\<rparr>) }"

definition get_send_window :: "tcb \<Rightarrow> u16" where "get_send_window t = tcb_send_window t"

definition get_avg_send_window :: "tcb \<Rightarrow> u64" where
  "get_avg_send_window t = fst (tcb_avg_send_window t)"

definition change_recv_window :: "tcb \<Rightarrow> u16 \<Rightarrow> tcb" where
  "change_recv_window t window = t\<lparr>tcb_recv_window := window\<rparr>"

definition get_recv_window :: "tcb \<Rightarrow> u16" where "get_recv_window t = tcb_recv_window t"

definition check_pkt_type :: "tcb \<Rightarrow> 'x tcp_header_wrapper \<Rightarrow> bytes \<Rightarrow> packet_status" where
  "check_pkt_type t header p =
     (let h = inner header;
          received_ack_distance = tcb_seq t - tcp_acknowledgment_number h;
          current_ack_distance = tcb_seq t - tcb_last_ack t
      in if received_ack_distance > current_ack_distance
            \<or> (tcp_acknowledgment_number h \<noteq> tcb_seq t
               \<and> saturating_sub (tcb_seq t) (tcp_acknowledgment_number h) = 0)
         then Invalid
         else if tcb_last_ack t = tcp_acknowledgment_number h then
           (if p \<noteq> [] then NewPacket
            else if tcb_send_window t = tcp_window_size h \<and> tcb_seq t \<noteq> tcb_last_ack t
            then RetransmissionRequest
            else if tcb_ack t - 1 = tcp_sequence_number h then KeepAlive
            else WindowUpdate)
         else if tcb_last_ack t < tcp_acknowledgment_number h then
           (if p \<noteq> [] then NewPacket else Ack)
         else Invalid)"

text \<open>
  \<open>change_last_ack\<close>, in its two steps on the in-flight list: the packet that contains
  the acknowledgement is taken out and its unacknowledged rest pushed back, then every
  packet that ends at or before the acknowledgement is dropped.
\<close>

definition split_inflight :: "build \<Rightarrow> inflight_packet list \<Rightarrow> u32 \<Rightarrow> inflight_packet list option" where
  "split_inflight b ps ack =
     do { i \<leftarrow> position (\<lambda>p. contains b p ack) ps;
          Some (case i of
            None \<Rightarrow> ps
          | Some i \<Rightarrow>
              (let p = ps ! i;
                   rest = remove_at i ps;
                   distance = unat (ack - if_seq p)
               in if distance < length (if_payload p)
                  then rest @ [p\<lparr>if_payload := drop distance (if_payload p), if_seq := ack\<rparr>]
                  else rest)) }"

definition retain_unacked :: "u32 \<Rightarrow> inflight_packet list \<Rightarrow> inflight_packet list" where
  "retain_unacked last_ack ps =
     filter (\<lambda>p. saturating_sub (if_seq p + of_nat (length (if_payload p))) last_ack > 0) ps"

definition change_last_ack :: "build \<Rightarrow> tcb \<Rightarrow> u32 \<Rightarrow> tcb option" where
  "change_last_ack b t ack =
     (let distance = ack - tcb_last_ack t;
          t = t\<lparr>tcb_last_ack := tcb_last_ack t + distance\<rparr>
      in if tcb_state t = Established
         then do { ps \<leftarrow> split_inflight b (tcb_inflight_packets t) ack;
                   Some (t\<lparr>tcb_inflight_packets := retain_unacked (tcb_last_ack t) ps\<rparr>) }
         else Some t)"

definition is_send_buffer_full :: "tcb \<Rightarrow> bool" where
  "is_send_buffer_full t = (tcb_seq t - tcb_last_ack t \<ge> MAX_UNACK)"

definition reset_timeout :: "nat \<Rightarrow> tcb \<Rightarrow> tcb" where
  "reset_timeout now t = t\<lparr>tcb_timeout := now + tcb_tcp_timeout t\<rparr>"

lemmas tcb_getters = get_seq_def get_ack_def get_last_ack_def get_state_def get_send_window_def
  get_avg_send_window_def get_recv_window_def

lemmas tcb_setters = add_seq_one_def add_ack_def change_state_def change_recv_window_def
  reset_timeout_def

section \<open>Classifying packets\<close>

text \<open>While the send sequence has not wrapped past the last acknowledgement.\<close>

definition seq_unwrapped :: "tcb \<Rightarrow> bool" where
  "seq_unwrapped t \<longleftrightarrow> tcb_last_ack t \<le> tcb_seq t"

lemma ack_window_unwrapped:
  fixes s l a :: u32
  assumes "l \<le> s"
  shows "(s - a > s - l \<or> (a \<noteq> s \<and> saturating_sub s a = 0)) \<longleftrightarrow> \<not> (l \<le> a \<and> a \<le> s)"
  using assms
  by (auto simp: word_le_nat_alt word_less_nat_alt unat_sub_if' word_unat_eq_iff
      unat_saturating_sub split: if_splits)

lemma ack_window_wrapped:
  fixes s l a :: u32
  assumes "s < l"
  shows "(s - a > s - l \<or> (a \<noteq> s \<and> saturating_sub s a = 0)) \<or> (l \<noteq> a \<and> \<not> l < a)"
  using assms
  by (auto simp: word_le_nat_alt word_less_nat_alt unat_sub_if' word_unat_eq_iff
      unat_saturating_sub split: if_splits)

text \<open>The specification \<open>check_pkt_type\<close> is meant to compute.\<close>

definition classify :: "tcb \<Rightarrow> 'x tcp_header \<Rightarrow> bytes \<Rightarrow> packet_status" where
  "classify t h p =
     (let a = unat (tcp_acknowledgment_number h);
          lo = unat (tcb_last_ack t);
          hi = unat (tcb_seq t)
      in if a < lo \<or> hi < a then Invalid
         else if p \<noteq> [] then NewPacket
         else if lo < a then Ack
         else if tcb_send_window t = tcp_window_size h \<and> lo < hi then RetransmissionRequest
         else if tcb_ack t - 1 = tcp_sequence_number h then KeepAlive
         else WindowUpdate)"

text \<open>
  C12: as long as the send sequence number has not wrapped past the last acknowledged one,
  \<open>check_pkt_type\<close>, which works with wrapping distances and saturating differences,
  computes the intended classification: a packet is invalid exactly when it acknowledges
  bytes outside the range from the last acknowledgement to the next sequence number; in
  range it is data, an advancing acknowledgement, a duplicate that asks for
  retransmission, a keep-alive or a window update, in this order.
\<close>

theorem check_pkt_type_classifies:
  assumes "seq_unwrapped t"
  shows "check_pkt_type t header p = classify t (inner header) p"
proof -
  let ?a = "tcp_acknowledgment_number (inner header)"
  let ?l = "tcb_last_ack t" and ?s = "tcb_seq t"
  from assms have unwrapped: "?l \<le> ?s" by (simp add: seq_unwrapped_def)
  note spec = check_pkt_type_def classify_def Let_def ack_window_unwrapped [OF unwrapped]
  consider "?a < ?l \<or> ?s < ?a" | "?a = ?l" "?l \<le> ?s" | "?l < ?a" "?a \<le> ?s"
    using unwrapped by fastforce
  then show ?thesis
  proof cases
    case 1
    then show ?thesis unfolding spec by (simp add: not_le word_less_nat_alt)
  next
    case 2
    then have "?s = ?l \<longleftrightarrow> \<not> unat ?l < unat ?s" "\<not> unat ?s < unat ?l"
      by (auto simp: word_le_nat_alt word_unat_eq_iff)
    with 2 show ?thesis unfolding spec by simp
  next
    case 3
    then have "?l \<noteq> ?a" "unat ?l < unat ?a" "unat ?a \<le> unat ?s"
      by (auto simp: word_less_nat_alt word_le_nat_alt)
    with 3 show ?thesis unfolding spec by simp
  qed
qed

theorem check_pkt_type_classifies_witness:
  "check_pkt_type (tcb_new sample_build 0 0 7 60) (wrapper_from (sample_tcp 7 101 ACK 512)) [] = Invalid"
proof -
  have h: "seq_unwrapped (tcb_new sample_build 0 0 7 60)"
    by (simp add: seq_unwrapped_def tcb_new_def)
  show ?thesis
    unfolding check_pkt_type_classifies [OF h]
    by (simp add: classify_def tcb_new_def inner_def wrapper_from_def sample_tcp_def sample_build_def)
qed

text \<open>
  C35: once the send sequence number has wrapped around while the last acknowledged one has
  not, every packet is classified as invalid, whatever it acknowledges and carries: the
  plain comparisons in \<open>check_pkt_type\<close> do not survive the wrap-around.
\<close>

theorem check_pkt_type_wrapped_invalid:
  assumes "tcb_seq t < tcb_last_ack t"
  shows "check_pkt_type t header p = Invalid"
  unfolding check_pkt_type_def Let_def
  using ack_window_wrapped [OF assms, of "tcp_acknowledgment_number (inner header)"]
  by (elim disjE [of "_ \<or> _"]) simp_all

theorem check_pkt_type_wrapped_invalid_witness:
  "check_pkt_type ((tcb_new sample_build 0 0 7 60)\<lparr>tcb_seq := 3, tcb_last_ack := 4294967290\<rparr>)
     (wrapper_from (sample_tcp 7 3 ACK 512)) [] = Invalid"
proof -
  let ?t = "(tcb_new sample_build 0 0 7 60)\<lparr>tcb_seq := 3, tcb_last_ack := 4294967290\<rparr>"
  have h: "tcb_seq ?t < tcb_last_ack ?t" by simp
  show ?thesis by (rule check_pkt_type_wrapped_invalid [OF h])
qed

section \<open>The send window and its running average\<close>

definition avg_wf :: "tcb \<Rightarrow> bool" where
  "avg_wf t \<longleftrightarrow> (let (avg, count) = tcb_avg_send_window t in
     unat avg \<le> 65535 \<and> 0 < count \<and> unat count < 2 ^ 47)"

lemma mean_between:
  fixes a c w :: nat
  assumes "0 < c"
  shows "min a w \<le> (a * c + w) div (c + 1)" "(a * c + w) div (c + 1) \<le> max a w"
proof -
  have "min a w * (c + 1) \<le> a * c + w"
    by (simp add: add_mono algebra_simps)
  then show "min a w \<le> (a * c + w) div (c + 1)"
    by (simp add: less_eq_div_iff_mult_less_eq)
  have "a * c + w \<le> max a w * (c + 1)"
    by (simp add: add_mono algebra_simps)
  then show "(a * c + w) div (c + 1) \<le> max a w"
    by (metis add_gr_0 div_le_mono nonzero_mult_div_cancel_right not_gr_zero zero_less_one)
qed

lemma change_send_window_eq:
  fixes w :: u16
  assumes avg: "tcb_avg_send_window t = (avg, count)" and wf: "avg_wf t"
  shows "change_send_window b t w =
    Some (t\<lparr>tcb_avg_send_window := ((avg * count + ucast w) div (count + 1), count + 1),
            tcb_send_window := w\<rparr>)"
    and "unat ((avg * count + ucast w) div (count + 1)) =
      (unat avg * unat count + unat w) div (unat count + 1)"
    and "unat (count + 1) = unat count + 1"
proof -
  from wf avg have a: "unat avg \<le> 65535" and c: "unat count < 2 ^ 47"
    by (simp_all add: avg_wf_def)
  have w: "unat (ucast w :: u64) = unat w" "unat w \<le> 65535"
    using unat_u16_le [of w] by (simp_all add: unsigned_ucast_eq take_bit_nat_eq_self)
  have prod: "unat avg * unat count \<le> 65535 * 2 ^ 47"
    using a c by (intro mult_mono) simp_all
  have p: "unat (avg * count) = unat avg * unat count"
    by (rule unat_mult_in_range) (use prod in simp)
  have s: "unat (avg * count + ucast w) = unat avg * unat count + unat w"
    using prod w by (subst unat_add_in_range) (simp_all add: p)
  show n: "unat (count + 1) = unat count + 1"
    using c by (subst unat_add_in_range) simp_all
  then have nz: "count + 1 \<noteq> 0" by (metis add_eq_0_iff_both_eq_0 one_neq_zero unat_0)
  show "change_send_window b t w =
    Some (t\<lparr>tcb_avg_send_window := ((avg * count + ucast w) div (count + 1), count + 1),
            tcb_send_window := w\<rparr>)"
    using prod w c nz by (simp add: change_send_window_def avg div_chk_def p)
  show "unat ((avg * count + ucast w) div (count + 1)) =
      (unat avg * unat count + unat w) div (unat count + 1)"
    by (simp add: unat_div s n)
qed

text \<open>
  C40: recording a peer window never overflows or divides by zero in the 64-bit average
  (for up to \<open>2^47\<close> updates), in any build; the new average is the rounded-down mean of
  the windows seen, weighted by their number, and lies between the old average and the new
  window, so it stays a 16-bit value.
\<close>

theorem change_send_window_mean:
  assumes "avg_wf t" "tcb_avg_send_window t = (avg, count)"
  shows "\<exists>t' avg'. change_send_window b t w = Some t' \<and> get_send_window t' = w \<and>
           tcb_avg_send_window t' = (avg', count + 1) \<and>
           unat avg' = (unat avg * unat count + unat w) div (unat count + 1) \<and>
           min (unat avg) (unat w) \<le> unat avg' \<and> unat avg' \<le> max (unat avg) (unat w) \<and>
           unat avg' \<le> 65535"
proof -
  from assms have a: "unat avg \<le> 65535" and c: "0 < unat count"
    by (auto simp: avg_wf_def unat_gt_0_iff)
  have w: "unat w \<le> 65535" by (rule unat_u16_le)
  note eq = change_send_window_eq [OF assms(2,1)]
  note mean = mean_between [OF c, of "unat avg" "unat w"]
  from mean(2) a w have "unat ((avg * count + ucast w) div (count + 1)) \<le> 65535"
    unfolding eq(2) by simp
  with mean show ?thesis by (auto simp: eq(1,2) get_send_window_def)
qed

theorem change_send_window_mean_witness:
  "\<exists>t'. change_send_window sample_build (tcb_new sample_build 0 0 7 60) 511 = Some t' \<and>
        unat (get_avg_send_window t') = 256"
proof -
  have h: "avg_wf (tcb_new sample_build 0 0 7 60)"
      "tcb_avg_send_window (tcb_new sample_build 0 0 7 60) = (1, 1)"
    by (simp_all add: avg_wf_def tcb_new_def)
  show ?thesis
    using change_send_window_mean [OF h, of sample_build 511]
    by (auto simp: get_avg_send_window_def numeral_2_eq_2 [symmetric])
qed

lemma change_send_window_frame:
  "change_send_window b t w = Some t' \<Longrightarrow>
     \<exists>a. t' = t\<lparr>tcb_avg_send_window := a, tcb_send_window := w\<rparr>"
  by (auto simp: change_send_window_def bind_eq_Some_conv split: prod.splits)

section \<open>The receive window\<close>

lemma foldl_un_payload:
  "foldl (\<lambda>acc (_, p). acc + length (un_payload p)) n m =
   n + sum_list (map (\<lambda>(_, p). length (un_payload p)) m)"
  by (induction m arbitrary: n) auto

lemma get_available_read_buffer_size_eq:
  "get_available_read_buffer_size t =
   16384 - sum_list (map (\<lambda>(_, p). length (un_payload p)) (tcb_unordered_packets t))"
  by (simp add: get_available_read_buffer_size_def READ_BUFFER_SIZE_def foldl_un_payload)

text \<open>The cast \<open>as u16\<close> in \<open>poll_read\<close> loses nothing.\<close>

lemma recv_window_exact:
  "unat (of_nat (get_available_read_buffer_size t) :: u16) = get_available_read_buffer_size t"
  by (rule unat_of_nat_in_range) (simp add: get_available_read_buffer_size_eq)

end
