(* ===== verification/Runtime.thy ===== *)
theory Runtime
  imports Packet
begin

text \<open>
  What the streams see of tokio and of the constants of \<open>src/src/lib.rs\<close>. Tokio's code
  is not part of the repository: during one call, what it answers is data the call
  receives. A context \<open>cx\<close> holds the waker, the current instant, whether polling a
  \<open>Sleep\<close> with a given deadline reports that it elapsed, and whether the \<open>n\<close>-th send
  on the channel to the stack's task succeeds; what successive \<open>poll_recv\<close> calls return
  is a list. Nothing is assumed about these answers unless a theorem says so.
\<close>

definition DROP_TTL :: u8 where "DROP_TTL = 0"

definition TTL :: "build \<Rightarrow> u8" where
  "TTL b = (if cfg_unix b then 64 else 128)"

lemma TTL_pos: "TTL b \<noteq> 0"
  by (simp add: TTL_def)

type_synonym waker = nat

record cx =
  cx_waker :: waker
  cx_now :: nat
  cx_sleep_ready :: "nat \<Rightarrow> bool"
  cx_send_ok :: "nat \<Rightarrow> bool"

text \<open>
  \<open>UnboundedSender::send\<close>: \<open>sent\<close> is what has been sent on this handle so far;
  \<open>None\<close> is \<open>Err\<close> (the receiver is gone), and then nothing is added.
\<close>

definition mpsc_send :: "cx \<Rightarrow> 'p list \<Rightarrow> 'p \<Rightarrow> 'p list option" where
  "mpsc_send cx sent p = (if cx_send_ok cx (length sent) then Some (sent @ [p]) else None)"

text \<open>
  A sender of a channel made by \<open>mpsc::unbounded_channel()\<close> is the channel's number; a
  clone of it is the same number. The number of a new channel is an argument of the
  function that makes it.
\<close>

type_synonym sender = nat

text \<open>\<open>ReadBuf::put_slice\<close> panics when the slice is longer than what is left of the buffer.\<close>

definition put_slice :: "nat \<Rightarrow> bytes \<Rightarrow> bytes option" where
  "put_slice remaining b = (if length b \<le> remaining then Some b else None)"

text \<open>The \<open>?\<close> operator in a function that returns \<open>io::Result\<close> and may panic.\<close>

definition try_then :: "(io_error + 'a) option \<Rightarrow> ('a \<Rightarrow> (io_error + 'b) option) \<Rightarrow> (io_error + 'b) option" where
  "try_then r k = (case r of
     None \<Rightarrow> None
   | Some (Inl e) \<Rightarrow> Some (Inl e)
   | Some (Inr x) \<Rightarrow> k x)"

lemma try_then_simps [simp]:
  "try_then None k = None" "try_then (Some (Inl e)) k = Some (Inl e)" "try_then (Some (Inr x)) k = k x"
  by (simp_all add: try_then_def)

text \<open>A quiet context for evaluation: nothing has elapsed, the channel is open.\<close>

definition sample_cx :: cx where
  "sample_cx = \<lparr>cx_waker = 1, cx_now = 0, cx_sleep_ready = (\<lambda>_. False), cx_send_ok = (\<lambda>_. True)\<rparr>"

end
