(* ===== verification/Tcp.thy ===== *)
theory Tcp
  imports Tcb Runtime
begin

text \<open>
  \<open>src/src/stream/tcp.rs\<close>: the TCP stream over the control block. The large
  \<open>poll_read\<close> is divided as its body is: the steps before a packet is received, one
  definition each, and the handling of one packet, one definition per connection state;
  \<open>poll_read_loop\<close> is the loop around them.
\<close>

section \<open>State\<close>

datatype shutdown = ShutdownReady | ShutdownPending waker | ShutdownNone

text \<open>
  \<open>ts_sent\<close> is what the stream has sent on its \<open>packet_sender\<close>, \<open>ts_wakes\<close> the
  wakers it has woken, both oldest first. The receiver end \<open>stream_receiver\<close> is an
  argument of \<open>poll_read\<close>.
\<close>

record 'x tcp_stream =
  ts_src_addr :: socket_addr
  ts_dst_addr :: socket_addr
  ts_sent :: "'x network_packet list"
  ts_packet_to_send :: "'x network_packet option"
  ts_tcb :: tcb
  ts_mtu :: u16
  ts_shutdown :: shutdown
  ts_write_notify :: "waker option"
  ts_wakes :: "waker list"

text \<open>\<open>Shutdown::pending\<close> and \<open>Shutdown::ready\<close>.\<close>

definition shutdown_pending :: "waker \<Rightarrow> 'x tcp_stream \<Rightarrow> 'x tcp_stream" where
  "shutdown_pending w s = s\<lparr>ts_shutdown := ShutdownPending w\<rparr>"

definition shutdown_ready :: "'x tcp_stream \<Rightarrow> 'x tcp_stream" where
  "shutdown_ready s =
     (case ts_shutdown s of
        ShutdownPending w \<Rightarrow> s\<lparr>ts_wakes := ts_wakes s @ [w], ts_shutdown := ShutdownReady\<rparr>
      | _ \<Rightarrow> s\<lparr>ts_shutdown := ShutdownReady\<rparr>)"

definition upd_tcb :: "(tcb \<Rightarrow> tcb) \<Rightarrow> 'x tcp_stream \<Rightarrow> 'x tcp_stream" where
  "upd_tcb f s = s\<lparr>ts_tcb := f (ts_tcb s)\<rparr>"

definition upd_tcb_opt :: "(tcb \<Rightarrow> tcb option) \<Rightarrow> 'x tcp_stream \<Rightarrow> 'x tcp_stream option" where
  "upd_tcb_opt f s = map_option (\<lambda>t. s\<lparr>ts_tcb := t\<rparr>) (f (ts_tcb s))"

section \<open>Building packets\<close>

definition calculate_payload_len :: "build \<Rightarrow> 'x tcp_stream \<Rightarrow> u16 \<Rightarrow> u16 \<Rightarrow> u16 option" where
  "calculate_payload_len b s ip_header_size tcp_header_size =
     do { headers \<leftarrow> add_ovf (overflow_checks b) ip_header_size tcp_header_size;
          Some (min (get_send_window (ts_tcb s)) (saturating_sub (ts_mtu s) headers)) }"

definition rev_tcp_header :: "'x etherparse \<Rightarrow> 'x tcp_stream \<Rightarrow> u8 \<Rightarrow> u32 option \<Rightarrow> 'x tcp_header" where
  "rev_tcp_header ep s fl seq =
     (tcp_new ep (sa_port (ts_dst_addr s)) (sa_port (ts_src_addr s))
        (case seq of Some q \<Rightarrow> q | None \<Rightarrow> get_seq (ts_tcb s)) (get_recv_window (ts_tcb s)))
     \<lparr>tcp_acknowledgment_number := get_ack (ts_tcb s),
      tcp_syn := (fl AND SYN \<noteq> 0),
      tcp_ack := (fl AND ACK \<noteq> 0),
      tcp_rst := (fl AND RST \<noteq> 0),
      tcp_fin := (fl AND FIN \<noteq> 0),
      tcp_psh := (fl AND PSH \<noteq> 0)\<rparr>"

definition tcp_create_rev_packet ::
  "build \<Rightarrow> 'x etherparse \<Rightarrow> 'x tcp_stream \<Rightarrow> u8 \<Rightarrow> u8 \<Rightarrow> u32 option \<Rightarrow> bytes \<Rightarrow>
   (io_error + 'x network_packet) option" where
  "tcp_create_rev_packet b ep s fl tt seq payload =
     (let tcp_header = rev_tcp_header ep s fl seq in
      case (sa_ip (ts_dst_addr s), sa_ip (ts_src_addr s)) of
        (V4 dst, V4 src) \<Rightarrow>
          try_then (Some (ok_or_io ValueTooBigErrorU16 (ipv4_new ep 0 tt IpNumber_TCP dst src)))
            (\<lambda>ip_h. do {
               payload_len \<leftarrow> calculate_payload_len b s
                 (of_nat (ipv4_header_len ep ip_h)) (of_nat (tcp_header_len ep tcp_header));
               let payload = take (unat payload_len) payload;
               try_then (Some (ok_or_io ValueTooBigErrorUsize
                   (ipv4_set_payload_len ep ip_h (length payload + tcp_header_len ep tcp_header))))
                 (\<lambda>ip_h. let ip_h = ip_h\<lparr>ipv4_dont_fragment := True\<rparr> in
                   case tcp_calc_checksum_ipv4 ep tcp_header ip_h payload of
                     None \<Rightarrow> Some (Inl (Simple InvalidInput))
                   | Some c \<Rightarrow> Some (Inr \<lparr>np_ip = Ipv4 ip_h,
                                         np_transport = Tcp (tcp_header\<lparr>tcp_checksum := c\<rparr>),
                                         np_payload = payload\<rparr>)) })
      | (V6 dst, V6 src) \<Rightarrow>
          (let ip_h = \<lparr>ipv6_traffic_class = 0, ipv6_flow_label = 0, ipv6_payload_length = 0,
                       ipv6_next_header = IpNumber_TCP, ipv6_hop_limit = tt,
                       ipv6_source = dst, ipv6_destination = src\<rparr>
           in do {
             payload_len \<leftarrow> calculate_payload_len b s
               (of_nat (ipv6_header_len ep ip_h)) (of_nat (tcp_header_len ep tcp_header));
             let payload = take (unat payload_len) payload;
             let len = length payload + tcp_header_len ep tcp_header;
             try_then (Some (ok_or_io ValueTooBigErrorUsize (ipv6_set_payload_length ep ip_h len)))
               (\<lambda>ip_h.
                 case tcp_calc_checksum_ipv6 ep tcp_header ip_h payload of
                   None \<Rightarrow> Some (Inl (Simple InvalidInput))
                 | Some c \<Rightarrow> Some (Inr \<lparr>np_ip = Ipv6 ip_h,
                                       np_transport = Tcp (tcp_header\<lparr>tcp_checksum := c\<rparr>),
                                       np_payload = payload\<rparr>)) })
      | _ \<Rightarrow> None)"

section \<open>Creation and destruction\<close>

text \<open>\<open>impl Drop\<close>: the handle sends a packet with TTL 0, which ends its session.\<close>

definition tcp_drop :: "build \<Rightarrow> 'x etherparse \<Rightarrow> cx \<Rightarrow> 'x tcp_stream \<Rightarrow> 'x tcp_stream option" where
  "tcp_drop b ep cx s =
     (case tcp_create_rev_packet b ep s NON DROP_TTL None [] of
        None \<Rightarrow> None
      | Some (Inl _) \<Rightarrow> Some s
      | Some (Inr p) \<Rightarrow>
          (case mpsc_send cx (ts_sent s) p of
             None \<Rightarrow> Some s
           | Some sent \<Rightarrow> Some (s\<lparr>ts_sent := sent\<rparr>)))"

text \<open>
  \<open>IpStackTcpStream::new\<close>. The result is what was sent on \<open>packet_sender\<close> and the
  stream or the error; on every error path the half-built stream is dropped.
\<close>

definition tcp_stream_new ::
  "build \<Rightarrow> 'x etherparse \<Rightarrow> cx \<Rightarrow> u32 \<Rightarrow> socket_addr \<Rightarrow> socket_addr \<Rightarrow> 'x tcp_header_wrapper \<Rightarrow>
   u16 \<Rightarrow> nat \<Rightarrow> ('x network_packet list \<times> (ip_stack_error + 'x tcp_stream)) option" where
  "tcp_stream_new b ep cx rnd src dst tcp mtu tcp_timeout =
     do {
       ack \<leftarrow> add_ovf (overflow_checks b) (tcp_sequence_number (inner tcp)) 1;
       let stream = \<lparr>ts_src_addr = src, ts_dst_addr = dst, ts_sent = [], ts_packet_to_send = None,
                     ts_tcb = tcb_new b rnd (cx_now cx) ack tcp_timeout, ts_mtu = mtu,
                     ts_shutdown = ShutdownNone, ts_write_notify = None, ts_wakes = []\<rparr>;
       if tcp_syn (inner tcp) then Some ([], Inr stream)
       else if \<not> tcp_rst (inner tcp) then
         do {
           pkt \<leftarrow> tcp_create_rev_packet b ep stream (RST OR ACK) (TTL b) None [];
           case pkt of
             Inl e \<Rightarrow> do { stream \<leftarrow> tcp_drop b ep cx stream; Some (ts_sent stream, Inl (IoError e)) }
           | Inr pkt \<Rightarrow>
               (let stream = (case mpsc_send cx (ts_sent stream) pkt of
                                None \<Rightarrow> stream
                              | Some sent \<Rightarrow> stream\<lparr>ts_sent := sent\<rparr>)
                in do { stream \<leftarrow> tcp_drop b ep cx stream;
                        Some (ts_sent stream, Inl InvalidTcpPacket) })
         }
       else do { stream \<leftarrow> tcp_drop b ep cx stream; Some (ts_sent stream, Inl InvalidTcpPacket) } }"

section \<open>poll\_flush and poll\_write\<close>

definition poll_flush ::
  "build \<Rightarrow> 'x etherparse \<Rightarrow> cx \<Rightarrow> 'x tcp_stream \<Rightarrow> ('x tcp_stream \<times> (io_error + unit) poll) option" where
  "poll_flush b ep cx s =
     (if get_state (ts_tcb s) \<noteq> Established then Some (s, Ready (Inl (Simple NotConnected)))
      else case tcb_retransmission (ts_tcb s) of
        None \<Rightarrow> Some (s, Ready (Inr ()))
      | Some q \<Rightarrow>
          (let s = upd_tcb (\<lambda>t. t\<lparr>tcb_retransmission := None\<rparr>) s in
           case find (\<lambda>p. if_seq p = q) (tcb_inflight_packets (ts_tcb s)) of
             Some packet \<Rightarrow>
               (case tcp_create_rev_packet b ep s (PSH OR ACK) (TTL b) (Some (if_seq packet)) (if_payload packet) of
                  None \<Rightarrow> None
                | Some (Inl e) \<Rightarrow> Some (s, Ready (Inl e))
                | Some (Inr rev_packet) \<Rightarrow>
                    (case mpsc_send cx (ts_sent s) rev_packet of
                       None \<Rightarrow> Some (s, Ready (Inl (Simple UnexpectedEof)))
                     | Some sent \<Rightarrow> Some (s\<lparr>ts_sent := sent\<rparr>, Ready (Inr ()))))
           | None \<Rightarrow> None))"

text \<open>The last part of \<open>poll_write\<close>, from building the packet on.\<close>

definition write_packet ::
  "build \<Rightarrow> 'x etherparse \<Rightarrow> cx \<Rightarrow> 'x tcp_stream \<Rightarrow> bytes \<Rightarrow> ('x tcp_stream \<times> (io_error + nat) poll) option" where
  "write_packet b ep cx s buf =
     (case tcp_create_rev_packet b ep s (PSH OR ACK) (TTL b) None buf of
        None \<Rightarrow> None
      | Some (Inl e) \<Rightarrow> Some (s, Ready (Inl e))
      | Some (Inr packet) \<Rightarrow>
          (let seq = get_seq (ts_tcb s);
               payload_len = length (np_payload packet);
               payload = np_payload packet
           in case mpsc_send cx (ts_sent s) packet of
                None \<Rightarrow> Some (s, Ready (Inl (Simple UnexpectedEof)))
              | Some sent \<Rightarrow>
                  Some (upd_tcb (\<lambda>t. add_inflight_packet t seq payload) (s\<lparr>ts_sent := sent\<rparr>),
                        Ready (Inr payload_len))))"

definition poll_write ::
  "build \<Rightarrow> 'x etherparse \<Rightarrow> cx \<Rightarrow> 'x tcp_stream \<Rightarrow> bytes \<Rightarrow> ('x tcp_stream \<times> (io_error + nat) poll) option" where
  "poll_write b ep cx s buf =
     (if get_state (ts_tcb s) \<noteq> Established then Some (s, Ready (Inl (Simple NotConnected)))
      else
        let s = upd_tcb (reset_timeout (cx_now cx)) s in
        if ucast (get_send_window (ts_tcb s)) < get_avg_send_window (ts_tcb s) div 2
           \<or> is_send_buffer_full (ts_tcb s)
        then Some (s\<lparr>ts_write_notify := Some (cx_waker cx)\<rparr>, Pending)
        else if tcb_retransmission (ts_tcb s) \<noteq> None then
          do { (s, r) \<leftarrow> poll_flush b ep cx (s\<lparr>ts_write_notify := Some (cx_waker cx)\<rparr>);
               case r of Pending \<Rightarrow> Some (s, Pending) | Ready _ \<Rightarrow> write_packet b ep cx s buf }
        else write_packet b ep cx s buf)"

section \<open>poll\_read: the steps before receiving\<close>

text \<open>
  One pass through the loop body either goes on to the next step, continues with the next
  iteration, or returns: the bytes put into the caller's buffer and the poll result.
\<close>

datatype 'x flow =
    Proceed "'x tcp_stream"
  | Continue "'x tcp_stream"
  | Return "'x tcp_stream" bytes "(io_error + unit) poll"

definition then_do :: "'x flow option \<Rightarrow> ('x tcp_stream \<Rightarrow> 'x flow option) \<Rightarrow> 'x flow option" where
  "then_do m k = (case m of Some (Proceed s) \<Rightarrow> k s | _ \<Rightarrow> m)"

text \<open>\<open>create_rev_packet(..)?\<close> and \<open>packet_sender.send(..).or(Err(UnexpectedEof))?\<close>;
  \<open>out\<close> is what has been put into the buffer before.\<close>

definition with_packet ::
  "(io_error + 'x network_packet) option \<Rightarrow> 'x tcp_stream \<Rightarrow> bytes \<Rightarrow> ('x network_packet \<Rightarrow> 'x flow option) \<Rightarrow>
   'x flow option" where
  "with_packet r s out k = (case r of
     None \<Rightarrow> None
   | Some (Inl e) \<Rightarrow> Some (Return s out (Ready (Inl e)))
   | Some (Inr p) \<Rightarrow> k p)"

definition send_or_eof ::
  "cx \<Rightarrow> 'x tcp_stream \<Rightarrow> bytes \<Rightarrow> 'x network_packet \<Rightarrow> ('x tcp_stream \<Rightarrow> 'x flow option) \<Rightarrow> 'x flow option" where
  "send_or_eof cx s out p k = (case mpsc_send cx (ts_sent s) p of
     None \<Rightarrow> Some (Return s out (Ready (Inl (Simple UnexpectedEof))))
   | Some sent \<Rightarrow> k (s\<lparr>ts_sent := sent\<rparr>))"

abbreviation set_state :: "tcp_state \<Rightarrow> 'x tcp_stream \<Rightarrow> 'x tcp_stream" where
  "set_state st s \<equiv> upd_tcb (\<lambda>t. change_state t st) s"

abbreviation st_of :: "'x tcp_stream \<Rightarrow> tcp_state" where
  "st_of s \<equiv> get_state (ts_tcb s)"

definition read_retransmission :: "build \<Rightarrow> 'x etherparse \<Rightarrow> cx \<Rightarrow> 'x tcp_stream \<Rightarrow> 'x flow option" where
  "read_retransmission b ep cx s =
     (if tcb_retransmission (ts_tcb s) \<noteq> None
      then do { (s, r) \<leftarrow> poll_flush b ep cx (s\<lparr>ts_write_notify := Some (cx_waker cx)\<rparr>);
                case r of Pending \<Rightarrow> Some (Return s [] Pending) | Ready _ \<Rightarrow> Some (Proceed s) }
      else Some (Proceed s))"

definition read_send_pending :: "cx \<Rightarrow> 'x tcp_stream \<Rightarrow> 'x flow option" where
  "read_send_pending cx s =
     (case ts_packet_to_send s of
        None \<Rightarrow> Some (Proceed s)
      | Some packet \<Rightarrow>
          send_or_eof cx (s\<lparr>ts_packet_to_send := None\<rparr>) [] packet (\<lambda>s. Some (Proceed s)))"

definition read_closed :: "build \<Rightarrow> 'x etherparse \<Rightarrow> 'x tcp_stream \<Rightarrow> 'x flow option" where
  "read_closed b ep s =
     (if st_of s = Closed then Some (Return (shutdown_ready s) [] (Ready (Inr ())))
      else if st_of s = FinWait2 False then
        with_packet (tcp_create_rev_packet b ep s NON DROP_TTL None []) s [] (\<lambda>p.
          Some (Return (shutdown_ready (set_state Closed (s\<lparr>ts_packet_to_send := Some p\<rparr>))) []
                  (Ready (Inl (Simple ConnectionAborted)))))
      else Some (Proceed s))"

definition read_timeout :: "build \<Rightarrow> 'x etherparse \<Rightarrow> cx \<Rightarrow> 'x tcp_stream \<Rightarrow> 'x flow option" where
  "read_timeout b ep cx s =
     (let s = upd_tcb (\<lambda>t. change_recv_window t (of_nat (get_available_read_buffer_size t))) s in
      if cx_sleep_ready cx (tcb_timeout (ts_tcb s)) then
        with_packet (tcp_create_rev_packet b ep s (RST OR ACK) (TTL b) None []) s [] (\<lambda>p.
          send_or_eof cx s [] p (\<lambda>s.
            Some (Return (shutdown_ready (set_state Closed s)) [] (Ready (Inl (Simple TimedOut))))))
      else Some (Proceed (upd_tcb (reset_timeout (cx_now cx)) s)))"

definition read_syn :: "build \<Rightarrow> 'x etherparse \<Rightarrow> 'x tcp_stream \<Rightarrow> 'x flow option" where
  "read_syn b ep s =
     (if st_of s = SynReceived False then
        with_packet (tcp_create_rev_packet b ep s (SYN OR ACK) (TTL b) None []) s [] (\<lambda>p.
          Some (Continue (set_state (SynReceived True)
                  (upd_tcb add_seq_one (s\<lparr>ts_packet_to_send := Some p\<rparr>)))))
      else Some (Proceed s))"

text \<open>
  \<open>get_unordered_packets\<close> takes the packet out of the map before the filter on
  \<open>shutdown\<close> is applied, so during a shutdown it is lost.
\<close>

definition read_deliver :: "build \<Rightarrow> 'x etherparse \<Rightarrow> cx \<Rightarrow> nat \<Rightarrow> 'x tcp_stream \<Rightarrow> 'x flow option" where
  "read_deliver b ep cx cap s =
     (let (d, t) = get_unordered_packets (ts_tcb s);
          s = s\<lparr>ts_tcb := t\<rparr>
      in case (if ts_shutdown s = ShutdownNone then d else None) of
           None \<Rightarrow> Some (Proceed s)
         | Some d \<Rightarrow>
             (let s = upd_tcb (\<lambda>t. add_ack t (of_nat (length d))) s in
              do { out \<leftarrow> put_slice cap d;
                   with_packet (tcp_create_rev_packet b ep s ACK (TTL b) None []) s out (\<lambda>p.
                     send_or_eof cx s out p (\<lambda>s. Some (Return s out (Ready (Inr ()))))) }))"

definition shutdown_is_pending :: "shutdown \<Rightarrow> bool" where
  "shutdown_is_pending sh = (case sh of ShutdownPending _ \<Rightarrow> True | _ \<Rightarrow> False)"

definition read_fin :: "build \<Rightarrow> 'x etherparse \<Rightarrow> 'x tcp_stream \<Rightarrow> 'x flow option" where
  "read_fin b ep s =
     (if st_of s = FinWait1 True then
        with_packet (tcp_create_rev_packet b ep s (FIN OR ACK) (TTL b) None []) s [] (\<lambda>p.
          Some (Continue (set_state (FinWait2 True)
                  (upd_tcb (\<lambda>t. add_ack (add_seq_one t) 1) (s\<lparr>ts_packet_to_send := Some p\<rparr>)))))
      else if shutdown_is_pending (ts_shutdown s) \<and> st_of s = Established
              \<and> get_last_ack (ts_tcb s) = get_seq (ts_tcb s) then
        with_packet (tcp_create_rev_packet b ep s (FIN OR ACK) (TTL b) None []) s [] (\<lambda>p.
          Some (Continue (set_state (FinWait1 False)
                  (upd_tcb add_seq_one (s\<lparr>ts_packet_to_send := Some p\<rparr>)))))
      else Some (Proceed s))"

definition before_recv :: "build \<Rightarrow> 'x etherparse \<Rightarrow> cx \<Rightarrow> nat \<Rightarrow> 'x tcp_stream \<Rightarrow> 'x flow option" where
  "before_recv b ep cx cap s =
     then_do (read_retransmission b ep cx s) (\<lambda>s.
     then_do (read_send_pending cx s) (\<lambda>s.
     then_do (read_closed b ep s) (\<lambda>s.
     then_do (read_timeout b ep cx s) (\<lambda>s.
     then_do (read_syn b ep s) (\<lambda>s.
     then_do (read_deliver b ep cx cap s) (\<lambda>s.
     read_fin b ep s))))))"

section \<open>poll\_read: one received packet\<close>

text \<open>\<open>if let Some(ref n) = self.write_notify { n.wake_by_ref(); self.write_notify = None }\<close>\<close>

definition notify_writer :: "'x tcp_stream \<Rightarrow> 'x tcp_stream" where
  "notify_writer s =
     (case ts_write_notify s of
        None \<Rightarrow> s
      | Some w \<Rightarrow> s\<lparr>ts_wakes := ts_wakes s @ [w], ts_write_notify := None\<rparr>)"

definition recv_syn_received :: "build \<Rightarrow> 'x tcp_header_wrapper \<Rightarrow> 'x tcp_stream \<Rightarrow> 'x flow option" where
  "recv_syn_received b t s =
     (if flags t = ACK then
        do { s \<leftarrow> upd_tcb_opt (\<lambda>tcb. change_last_ack b tcb (tcp_acknowledgment_number (inner t))) s;
             s \<leftarrow> upd_tcb_opt (\<lambda>tcb. change_send_window b tcb (tcp_window_size (inner t))) s;
             Some (Continue (set_state Established s)) }
      else Some (Continue s))"

text \<open>The established state, packets whose flags are exactly \<open>ACK\<close>.\<close>

definition recv_established_ack ::
  "build \<Rightarrow> 'x etherparse \<Rightarrow> cx \<Rightarrow> 'x tcp_header_wrapper \<Rightarrow> bytes \<Rightarrow> 'x tcp_stream \<Rightarrow> 'x flow option" where
  "recv_established_ack b ep cx t payload s =
     (let ackn = tcp_acknowledgment_number (inner t);
          window = tcp_window_size (inner t)
      in case check_pkt_type (ts_tcb s) t payload of
        WindowUpdate \<Rightarrow>
          do { s \<leftarrow> upd_tcb_opt (\<lambda>tcb. change_send_window b tcb window) s;
               Some (Continue (notify_writer s)) }
      | Invalid \<Rightarrow> Some (Continue s)
      | KeepAlive \<Rightarrow>
          do { s \<leftarrow> upd_tcb_opt (\<lambda>tcb. change_last_ack b tcb ackn) s;
               s \<leftarrow> upd_tcb_opt (\<lambda>tcb. change_send_window b tcb window) s;
               with_packet (tcp_create_rev_packet b ep s ACK (TTL b) None []) s [] (\<lambda>p.
                 Some (Continue (s\<lparr>ts_packet_to_send := Some p\<rparr>))) }
      | RetransmissionRequest \<Rightarrow>
          do { s \<leftarrow> upd_tcb_opt (\<lambda>tcb. change_send_window b tcb window) s;
               (s, r) \<leftarrow> poll_flush b ep cx (upd_tcb (\<lambda>tcb. tcb\<lparr>tcb_retransmission := Some ackn\<rparr>) s);
               case r of Pending \<Rightarrow> Some (Return s [] Pending) | Ready _ \<Rightarrow> Some (Continue s) }
      | NewPacket \<Rightarrow>
          do { s \<leftarrow> upd_tcb_opt (\<lambda>tcb. change_last_ack b tcb ackn) s;
               let s = upd_tcb (\<lambda>tcb. add_unordered_packet tcb (tcp_sequence_number (inner t)) payload) s;
               s \<leftarrow> upd_tcb_opt (\<lambda>tcb. change_send_window b tcb window) s;
               Some (Continue (notify_writer s)) }
      | Ack \<Rightarrow>
          do { s \<leftarrow> upd_tcb_opt (\<lambda>tcb. change_last_ack b tcb ackn) s;
               s \<leftarrow> upd_tcb_opt (\<lambda>tcb. change_send_window b tcb window) s;
               Some (Continue (notify_writer s)) })"

definition recv_established ::
  "build \<Rightarrow> 'x etherparse \<Rightarrow> cx \<Rightarrow> 'x tcp_header_wrapper \<Rightarrow> bytes \<Rightarrow> 'x tcp_stream \<Rightarrow> 'x flow option" where
  "recv_established b ep cx t payload s =
     (if flags t = ACK then recv_established_ack b ep cx t payload s
      else if flags t = (FIN OR ACK) then
        (let s = upd_tcb (\<lambda>tcb. add_ack tcb 1) s in
         with_packet (tcp_create_rev_packet b ep s ACK (TTL b) None []) s [] (\<lambda>p.
           Some (Continue (set_state (FinWait1 True) (s\<lparr>ts_packet_to_send := Some p\<rparr>)))))
      else if flags t = (PSH OR ACK) then
        (if check_pkt_type (ts_tcb s) t payload \<noteq> NewPacket then Some (Continue s)
         else do {
           s \<leftarrow> upd_tcb_opt (\<lambda>tcb. change_last_ack b tcb (tcp_acknowledgment_number (inner t))) s;
           if payload = [] \<or> get_ack (ts_tcb s) \<noteq> tcp_sequence_number (inner t)
           then Some (Continue s)
           else do {
             s \<leftarrow> upd_tcb_opt (\<lambda>tcb. change_send_window b tcb (tcp_window_size (inner t))) s;
             Some (Continue (upd_tcb (\<lambda>tcb.
               add_unordered_packet tcb (tcp_sequence_number (inner t)) payload) s)) } })
      else Some (Continue s))"

definition recv_fin_wait1 ::
  "build \<Rightarrow> 'x etherparse \<Rightarrow> 'x tcp_header_wrapper \<Rightarrow> 'x tcp_stream \<Rightarrow> 'x flow option" where
  "recv_fin_wait1 b ep t s =
     (if flags t = ACK then
        do { s \<leftarrow> upd_tcb_opt (\<lambda>tcb. change_last_ack b tcb (tcp_acknowledgment_number (inner t))) s;
             Some (Continue (set_state (FinWait2 True) (upd_tcb (\<lambda>tcb. add_ack tcb 1) s))) }
      else if flags t = (FIN OR ACK) then
        (let s = upd_tcb (\<lambda>tcb. add_ack tcb 1) s in
         with_packet (tcp_create_rev_packet b ep s ACK (TTL b) None []) s [] (\<lambda>p.
           do { s \<leftarrow> upd_tcb_opt (\<lambda>tcb. change_send_window b tcb (tcp_window_size (inner t)))
                        (s\<lparr>ts_packet_to_send := Some p\<rparr>);
                Some (Continue (set_state (FinWait2 True) s)) }))
      else Some (Continue s))"

definition recv_fin_wait2 ::
  "build \<Rightarrow> 'x etherparse \<Rightarrow> 'x tcp_header_wrapper \<Rightarrow> 'x tcp_stream \<Rightarrow> 'x flow option" where
  "recv_fin_wait2 b ep t s =
     (if flags t = ACK then Some (Continue (set_state (FinWait2 False) s))
      else if flags t = (FIN OR ACK) then
        with_packet (tcp_create_rev_packet b ep s ACK (TTL b) None []) s [] (\<lambda>p.
          Some (Continue (set_state (FinWait2 False) (s\<lparr>ts_packet_to_send := Some p\<rparr>))))
      else Some (Continue s))"

definition recv_packet ::
  "build \<Rightarrow> 'x etherparse \<Rightarrow> cx \<Rightarrow> 'x network_packet \<Rightarrow> 'x tcp_stream \<Rightarrow> 'x flow option" where
  "recv_packet b ep cx p s =
     (case transport_protocol p of
        ProtoTcp t \<Rightarrow>
          (if flags t AND RST \<noteq> 0 then
             with_packet (tcp_create_rev_packet b ep s NON DROP_TTL None []) s [] (\<lambda>q.
               Some (Return (shutdown_ready (set_state Closed (s\<lparr>ts_packet_to_send := Some q\<rparr>))) []
                       (Ready (Inl (Simple ConnectionReset)))))
           else if check_pkt_type (ts_tcb s) t (np_payload p) = Invalid then Some (Continue s)
           else if st_of s = SynReceived True then recv_syn_received b t s
           else if st_of s = Established then recv_established b ep cx t (np_payload p) s
           else if st_of s = FinWait1 False then recv_fin_wait1 b ep t s
           else if st_of s = FinWait2 True then recv_fin_wait2 b ep t s
           else Some (Continue s))
      | _ \<Rightarrow> None)"

section \<open>poll\_read: the loop\<close>

lemma upd_tcb_simps [simp]:
  "ts_tcb (upd_tcb f s) = f (ts_tcb s)" "ts_src_addr (upd_tcb f s) = ts_src_addr s"
  "ts_dst_addr (upd_tcb f s) = ts_dst_addr s" "ts_sent (upd_tcb f s) = ts_sent s"
  "ts_packet_to_send (upd_tcb f s) = ts_packet_to_send s" "ts_mtu (upd_tcb f s) = ts_mtu s"
  "ts_shutdown (upd_tcb f s) = ts_shutdown s" "ts_write_notify (upd_tcb f s) = ts_write_notify s"
  "ts_wakes (upd_tcb f s) = ts_wakes s"
  by (simp_all add: upd_tcb_def)

lemma shutdown_ready_simps [simp]:
  "ts_tcb (shutdown_ready s) = ts_tcb s" "ts_src_addr (shutdown_ready s) = ts_src_addr s"
  "ts_dst_addr (shutdown_ready s) = ts_dst_addr s" "ts_sent (shutdown_ready s) = ts_sent s"
  "ts_packet_to_send (shutdown_ready s) = ts_packet_to_send s" "ts_mtu (shutdown_ready s) = ts_mtu s"
  "ts_shutdown (shutdown_ready s) = ShutdownReady"
  "ts_write_notify (shutdown_ready s) = ts_write_notify s"
  by (simp_all add: shutdown_ready_def split: shutdown.splits)

lemma notify_writer_simps [simp]:
  "ts_tcb (notify_writer s) = ts_tcb s" "ts_src_addr (notify_writer s) = ts_src_addr s"
  "ts_dst_addr (notify_writer s) = ts_dst_addr s" "ts_sent (notify_writer s) = ts_sent s"
  "ts_packet_to_send (notify_writer s) = ts_packet_to_send s" "ts_mtu (notify_writer s) = ts_mtu s"
  "ts_shutdown (notify_writer s) = ts_shutdown s" "ts_write_notify (notify_writer s) = None"
  by (simp_all add: notify_writer_def split: option.splits)

lemma upd_tcb_opt_Some: "upd_tcb_opt f s = Some s' \<longleftrightarrow> (\<exists>t. f (ts_tcb s) = Some t \<and> s' = s\<lparr>ts_tcb := t\<rparr>)"
  by (auto simp: upd_tcb_opt_def)

text \<open>How each step can end, as elimination rules for the proofs by cases.\<close>

lemma then_do_Some:
  "then_do m k = Some r \<longleftrightarrow> (\<exists>s. m = Some (Proceed s) \<and> k s = Some r) \<or> (m = Some r \<and> (\<forall>s. r \<noteq> Proceed s))"
  by (auto simp: then_do_def split: option.splits flow.splits)

lemma with_packet_Some:
  "with_packet r s out k = Some f \<longleftrightarrow>
     (\<exists>e. r = Some (Inl e) \<and> f = Return s out (Ready (Inl e))) \<or> (\<exists>p. r = Some (Inr p) \<and> k p = Some f)"
  by (auto simp: with_packet_def split: option.splits sum.splits)

lemma send_or_eof_Some:
  "send_or_eof cx s out p k = Some f \<longleftrightarrow>
     (\<not> cx_send_ok cx (length (ts_sent s)) \<and> f = Return s out (Ready (Inl (Simple UnexpectedEof)))) \<or>
     (cx_send_ok cx (length (ts_sent s)) \<and> k (s\<lparr>ts_sent := ts_sent s @ [p]\<rparr>) = Some f)"
  by (auto simp: send_or_eof_def mpsc_send_def)

lemmas flow_Some = then_do_Some with_packet_Some send_or_eof_Some bind_eq_Some_conv

text \<open>
  A pass that continues without receiving a packet has moved the connection state forward:
  the SYN/ACK or the FIN has been prepared.
\<close>

definition pending_step :: "tcp_state \<Rightarrow> nat" where
  "pending_step st = (case st of
     SynReceived False \<Rightarrow> 1 | Established \<Rightarrow> 1 | FinWait1 True \<Rightarrow> 1 | _ \<Rightarrow> 0)"

definition flushed :: "'x network_packet list \<Rightarrow> 'x tcp_stream \<Rightarrow> 'x tcp_stream" where
  "flushed ps s = (upd_tcb (\<lambda>t. t\<lparr>tcb_retransmission := None\<rparr>) s)\<lparr>ts_sent := ts_sent s @ ps\<rparr>"

lemma poll_flush_outcome:
  assumes "poll_flush b ep cx s = Some (s', r)"
  shows "(\<exists>x. r = Ready x) \<and>
    (s' = s \<and> (st_of s = Established \<longrightarrow> tcb_retransmission (ts_tcb s) = None) \<or>
     (\<exists>ps. st_of s = Established \<and> s' = flushed ps s))"
proof (cases "st_of s = Established \<and> tcb_retransmission (ts_tcb s) \<noteq> None")
  case False
  with assms show ?thesis by (auto simp: poll_flush_def split: if_splits option.splits)
next
  case True
  have none: "\<exists>ps. upd_tcb (\<lambda>t. t\<lparr>tcb_retransmission := None\<rparr>) s = flushed ps s"
    by (rule exI [of _ "[]"]) (simp add: flushed_def upd_tcb_def)
  have one: "\<exists>ps. (upd_tcb (\<lambda>t. t\<lparr>tcb_retransmission := None\<rparr>) s)\<lparr>ts_sent := ts_sent s @ [p]\<rparr> =
      flushed ps s" for p
    by (rule exI [of _ "[p]"]) (simp add: flushed_def)
  show ?thesis
    using True assms
    by (auto simp: poll_flush_def Let_def mpsc_send_def none one
        split: option.splits sum.splits if_splits)
qed

lemma read_retransmission_outcome:
  "read_retransmission b ep cx s = Some f \<Longrightarrow>
   f = Proceed s \<and> tcb_retransmission (ts_tcb s) = None \<or>
   f = Proceed (s\<lparr>ts_write_notify := Some (cx_waker cx)\<rparr>) \<and> st_of s \<noteq> Established \<or>
   (\<exists>ps. f = Proceed (flushed ps (s\<lparr>ts_write_notify := Some (cx_waker cx)\<rparr>)) \<and> st_of s = Established)"
  by (auto simp: read_retransmission_def bind_eq_Some_conv dest!: poll_flush_outcome split: if_splits)

lemma read_retransmission_Proceed:
  "read_retransmission b ep cx s = Some (Proceed s') \<Longrightarrow> st_of s' = st_of s"
  by (auto dest!: read_retransmission_outcome simp: flushed_def get_state_def)

lemma read_send_pending_Proceed:
  "read_send_pending cx s = Some (Proceed s') \<Longrightarrow> st_of s' = st_of s"
  by (auto simp: read_send_pending_def send_or_eof_Some split: option.splits)

lemma read_closed_Proceed: "read_closed b ep s = Some (Proceed s') \<Longrightarrow> s' = s"
  by (auto simp: read_closed_def with_packet_Some split: if_splits)

lemma read_timeout_Proceed:
  "read_timeout b ep cx s = Some (Proceed s') \<Longrightarrow> st_of s' = st_of s"
  by (auto simp: read_timeout_def flow_Some Let_def get_state_def reset_timeout_def change_recv_window_def
      split: if_splits)

lemma read_deliver_Proceed:
  "read_deliver b ep cx cap s = Some (Proceed s') \<Longrightarrow> st_of s' = st_of s"
  by (auto simp: read_deliver_def flow_Some Let_def get_state_def get_unordered_packets_def
      split: if_splits option.splits)

lemma read_no_Continue:
  "read_retransmission b ep cx s \<noteq> Some (Continue s')" "read_send_pending cx s \<noteq> Some (Continue s')"
  "read_closed b ep s \<noteq> Some (Continue s')" "read_timeout b ep cx s \<noteq> Some (Continue s')"
  "read_deliver b ep cx cap s \<noteq> Some (Continue s')"
  by (auto simp: read_send_pending_def read_closed_def read_timeout_def
      read_deliver_def flow_Some Let_def dest: read_retransmission_outcome
      split: if_splits option.splits prod.splits)

lemma before_recv_Continue:
  assumes "before_recv b ep cx cap s = Some (Continue s')"
  shows "pending_step (st_of s') < pending_step (st_of s)"
proof -
  from assms consider
      s1 where "read_syn b ep s1 = Some (Continue s')" "st_of s1 = st_of s"
    | s1 where "read_fin b ep s1 = Some (Continue s')" "st_of s1 = st_of s"
    unfolding before_recv_def then_do_Some
    by (auto simp: read_no_Continue dest!: read_retransmission_Proceed read_send_pending_Proceed
        read_closed_Proceed read_timeout_Proceed read_deliver_Proceed)
       (auto simp: read_syn_def with_packet_Some split: if_splits)
  then show ?thesis
    by cases (auto simp: read_syn_def read_fin_def with_packet_Some pending_step_def get_state_def
        change_state_def split: if_splits)
qed

text \<open>
  The loop. \<open>rs\<close> is what successive calls of \<open>stream_receiver.poll_recv\<close> return: a
  packet, \<open>None\<close> for a closed channel, and \<open>Pending\<close> once the list is used up.
  Every iteration either takes a packet or moves the connection state forward, so the loop
  ends.
\<close>

function poll_read_loop ::
  "build \<Rightarrow> 'x etherparse \<Rightarrow> cx \<Rightarrow> nat \<Rightarrow> 'x network_packet option list \<Rightarrow> 'x tcp_stream \<Rightarrow>
   ('x tcp_stream \<times> bytes \<times> (io_error + unit) poll) option" where
  "poll_read_loop b ep cx cap rs s =
     (case before_recv b ep cx cap s of
        None \<Rightarrow> None
      | Some (Return s' out r) \<Rightarrow> Some (s', out, r)
      | Some (Continue s') \<Rightarrow> poll_read_loop b ep cx cap rs s'
      | Some (Proceed s') \<Rightarrow>
          (case rs of
             [] \<Rightarrow> Some (s', [], Pending)
           | None # _ \<Rightarrow> Some (s', [], Ready (Inr ()))
           | Some p # rs' \<Rightarrow>
               (case recv_packet b ep cx p s' of
                  None \<Rightarrow> None
                | Some (Return s'' out r) \<Rightarrow> Some (s'', out, r)
                | Some (Continue s'') \<Rightarrow> poll_read_loop b ep cx cap rs' s''
                | Some (Proceed s'') \<Rightarrow> poll_read_loop b ep cx cap rs' s'')))"
  by pat_completeness auto
termination
  by (relation "measures [\<lambda>(b, ep, cx, cap, rs, s). length rs,
                          \<lambda>(b, ep, cx, cap, rs, s). pending_step (st_of s)]")
     (auto dest: before_recv_Continue)

declare poll_read_loop.simps [simp del]

definition poll_read ::
  "build \<Rightarrow> 'x etherparse \<Rightarrow> cx \<Rightarrow> nat \<Rightarrow> 'x network_packet option list \<Rightarrow> 'x tcp_stream \<Rightarrow>
   ('x tcp_stream \<times> bytes \<times> (io_error + unit) poll) option" where
  "poll_read b ep cx cap rs s = poll_read_loop b ep cx cap rs s"

text \<open>\<open>poll_shutdown\<close>; its read buffer has one byte.\<close>

definition poll_shutdown ::
  "build \<Rightarrow> 'x etherparse \<Rightarrow> cx \<Rightarrow> 'x network_packet option list \<Rightarrow> 'x tcp_stream \<Rightarrow>
   ('x tcp_stream \<times> (io_error + unit) poll) option" where
  "poll_shutdown b ep cx rs s =
     (if ts_shutdown s = ShutdownReady then Some (s, Ready (Inr ()))
      else
        let s = (if ts_shutdown s = ShutdownNone then shutdown_pending (cx_waker cx) s else s)
        in map_option (\<lambda>(s, _, r). (s, r)) (poll_read b ep cx 1 rs s))"

end
