(* ===== verification/Tcp_Reply.thy ===== *)
theory Tcp_Reply
  imports Tcp
begin

text \<open>
  The packets a TCP stream builds: the contract of \<open>create_rev_packet\<close>, and the TCP
  stream as a provider of the interface \<open>reply_builder\<close>.
\<close>

section \<open>Sizes\<close>

definition family_ok :: "'x tcp_stream \<Rightarrow> bool" where
  "family_ok s \<longleftrightarrow> same_family (sa_ip (ts_dst_addr s)) (sa_ip (ts_src_addr s))"

definition tcp_headers_len :: "'x tcp_stream \<Rightarrow> nat" where
  "tcp_headers_len s = (case sa_ip (ts_dst_addr s) of V4 _ \<Rightarrow> 40 | V6 _ \<Rightarrow> 60)"

text \<open>The payload a packet can carry: the peer's window, and the MTU less the headers.\<close>

definition payload_room :: "'x tcp_stream \<Rightarrow> nat" where
  "payload_room s = min (unat (get_send_window (ts_tcb s))) (unat (ts_mtu s) - tcp_headers_len s)"

lemma unat_min_u16: "unat (min (a :: u16) c) = min (unat a) (unat c)"
  by (simp add: min_def word_le_nat_alt)

lemma calculate_payload_len_ok:
  "calculate_payload_len b s 20 20 =
     Some (min (get_send_window (ts_tcb s)) (saturating_sub (ts_mtu s) 40))"
  "calculate_payload_len b s 40 20 =
     Some (min (get_send_window (ts_tcb s)) (saturating_sub (ts_mtu s) 60))"
  by (simp_all add: calculate_payload_len_def)

lemma rev_tcp_header_fields:
  assumes "etherparse_ok ep"
  shows "tcp_source_port (rev_tcp_header ep s fl sq) = sa_port (ts_dst_addr s)"
    "tcp_destination_port (rev_tcp_header ep s fl sq) = sa_port (ts_src_addr s)"
    "tcp_sequence_number (rev_tcp_header ep s fl sq) =
       (case sq of Some q \<Rightarrow> q | None \<Rightarrow> get_seq (ts_tcb s))"
    "tcp_acknowledgment_number (rev_tcp_header ep s fl sq) = get_ack (ts_tcb s)"
    "tcp_window_size (rev_tcp_header ep s fl sq) = get_recv_window (ts_tcb s)"
    "tcp_cwr (rev_tcp_header ep s fl sq) = False" "tcp_ece (rev_tcp_header ep s fl sq) = False"
    "tcp_urg (rev_tcp_header ep s fl sq) = False"
    "tcp_syn (rev_tcp_header ep s fl sq) = bit fl 1" "tcp_ack (rev_tcp_header ep s fl sq) = bit fl 4"
    "tcp_rst (rev_tcp_header ep s fl sq) = bit fl 2" "tcp_fin (rev_tcp_header ep s fl sq) = bit fl 0"
    "tcp_psh (rev_tcp_header ep s fl sq) = bit fl 3"
    "tcp_header_len ep (rev_tcp_header ep s fl sq) = 20"
    "tcp_header_len ep ((rev_tcp_header ep s fl sq)\<lparr>tcp_checksum := c\<rparr>) = 20"
proof -
  let ?sq = "case sq of Some q \<Rightarrow> q | None \<Rightarrow> get_seq (ts_tcb s)"
  obtain r where new: "tcp_new ep (sa_port (ts_dst_addr s)) (sa_port (ts_src_addr s)) ?sq
        (get_recv_window (ts_tcb s)) =
        \<lparr>tcp_source_port = sa_port (ts_dst_addr s), tcp_destination_port = sa_port (ts_src_addr s),
         tcp_sequence_number = ?sq, tcp_acknowledgment_number = 0, tcp_cwr = False, tcp_ece = False,
         tcp_urg = False, tcp_ack = False, tcp_psh = False, tcp_rst = False, tcp_syn = False,
         tcp_fin = False, tcp_window_size = get_recv_window (ts_tcb s), tcp_checksum = 0, tcp_rest = r\<rparr>"
    and len: "\<And>h. tcp_rest h = r \<Longrightarrow> tcp_header_len ep h = 20"
    using tcp_new_ok [OF assms] by metis
  show "tcp_source_port (rev_tcp_header ep s fl sq) = sa_port (ts_dst_addr s)"
    "tcp_destination_port (rev_tcp_header ep s fl sq) = sa_port (ts_src_addr s)"
    "tcp_sequence_number (rev_tcp_header ep s fl sq) = ?sq"
    "tcp_acknowledgment_number (rev_tcp_header ep s fl sq) = get_ack (ts_tcb s)"
    "tcp_window_size (rev_tcp_header ep s fl sq) = get_recv_window (ts_tcb s)"
    "tcp_cwr (rev_tcp_header ep s fl sq) = False" "tcp_ece (rev_tcp_header ep s fl sq) = False"
    "tcp_urg (rev_tcp_header ep s fl sq) = False"
    "tcp_syn (rev_tcp_header ep s fl sq) = bit fl 1" "tcp_ack (rev_tcp_header ep s fl sq) = bit fl 4"
    "tcp_rst (rev_tcp_header ep s fl sq) = bit fl 2" "tcp_fin (rev_tcp_header ep s fl sq) = bit fl 0"
    "tcp_psh (rev_tcp_header ep s fl sq) = bit fl 3"
    "tcp_header_len ep (rev_tcp_header ep s fl sq) = 20"
    "tcp_header_len ep ((rev_tcp_header ep s fl sq)\<lparr>tcp_checksum := c\<rparr>) = 20"
    unfolding rev_tcp_header_def tcp_flags_exp word_and_exp_ne_0 new by (simp_all add: len)
qed

text \<open>What a reply looks like, apart from the opaque parts of its headers.\<close>

definition is_reply ::
  "'x etherparse \<Rightarrow> 'x tcp_stream \<Rightarrow> u8 \<Rightarrow> u8 \<Rightarrow> u32 option \<Rightarrow> bytes \<Rightarrow> 'x network_packet \<Rightarrow> bool" where
  "is_reply ep s fl tt sq payload p \<longleftrightarrow>
     src_addr p = ts_dst_addr s \<and> dst_addr p = ts_src_addr s \<and> ttl p = tt \<and>
     np_payload p = take (payload_room s) payload \<and>
     wire_len ep p = tcp_headers_len s + length (np_payload p) \<and>
     (\<exists>h. np_transport p = Tcp h \<and>
          tcp_sequence_number h = (case sq of Some q \<Rightarrow> q | None \<Rightarrow> get_seq (ts_tcb s)) \<and>
          tcp_acknowledgment_number h = get_ack (ts_tcb s) \<and>
          tcp_window_size h = get_recv_window (ts_tcb s) \<and>
          tcp_cwr h = False \<and> tcp_ece h = False \<and> tcp_urg h = False \<and> tcp_syn h = bit fl 1 \<and>
          tcp_ack h = bit fl 4 \<and> tcp_rst h = bit fl 2 \<and> tcp_fin h = bit fl 0 \<and> tcp_psh h = bit fl 3)"

lemma tcp_create_rev_packet_V4:
  assumes ok: "etherparse_ok ep"
    and dst: "ts_dst_addr s = \<lparr>sa_ip = V4 d, sa_port = dp\<rparr>"
    and src: "ts_src_addr s = \<lparr>sa_ip = V4 r, sa_port = sp\<rparr>"
  shows "\<exists>p. tcp_create_rev_packet b ep s fl tt sq payload = Some (Inr p) \<and> is_reply ep s fl tt sq payload p"
proof -
  let ?h = "rev_tcp_header ep s fl sq"
  let ?pl = "take (payload_room s) payload"
  note h = rev_tcp_header_fields [OF ok, where s = s and fl = fl and sq = sq]
  obtain i where i: "ipv4_new ep 0 tt IpNumber_TCP d r = Some i" "ipv4_time_to_live i = tt"
      "ipv4_source i = d" "ipv4_destination i = r" "ipv4_header_len ep i = 20"
    using ipv4_new_ok [OF ok] by metis
  have room: "payload_room s =
      unat (min (get_send_window (ts_tcb s)) (saturating_sub (ts_mtu s) 40))"
    by (simp add: payload_room_def tcp_headers_len_def dst unat_min_u16 unat_saturating_sub)
  have fit: "length ?pl + 40 \<le> 65535"
    using unat_u16_le [of "ts_mtu s"] by (auto simp: payload_room_def tcp_headers_len_def dst)
  from fit obtain x where x: "ipv4_set_payload_len ep i (length ?pl + 20) = Some (i\<lparr>ipv4_rest := x\<rparr>)"
      "ipv4_header_len ep (i\<lparr>ipv4_rest := x\<rparr>) = 20"
    using ipv4_set_payload_len_ok [OF ok, of i "length ?pl + 20"] i(5) by auto
  let ?i = "i\<lparr>ipv4_rest := x, ipv4_dont_fragment := True\<rparr>"
  have "tcp_header_len ep ?h + length ?pl \<le> 65535" using fit h(14) by simp
  from tcp_checksum_ok(1) [OF ok this] obtain c where c: "tcp_calc_checksum_ipv4 ep ?h ?i ?pl = Some c"
    by blast
  have "ipv4_header_len ep ?i = 20"
    using x(2) ipv4_header_len_dont_fragment [OF ok, where h = "i\<lparr>ipv4_rest := x\<rparr>"] by simp
  moreover have "tcp_create_rev_packet b ep s fl tt sq payload =
      Some (Inr \<lparr>np_ip = Ipv4 ?i, np_transport = Tcp (?h\<lparr>tcp_checksum := c\<rparr>), np_payload = ?pl\<rparr>)"
    using i x(1) c h(14) unfolding room
    by (simp add: tcp_create_rev_packet_def Let_def dst src calculate_payload_len_ok)
  ultimately show ?thesis
    using i h dst src
    by (simp add: is_reply_def src_addr_def dst_addr_def ttl_def wire_len_def ip_len_def transport_len_def
        tcp_headers_len_def)
qed

lemma tcp_create_rev_packet_V6:
  assumes ok: "etherparse_ok ep"
    and dst: "ts_dst_addr s = \<lparr>sa_ip = V6 d, sa_port = dp\<rparr>"
    and src: "ts_src_addr s = \<lparr>sa_ip = V6 r, sa_port = sp\<rparr>"
  shows "\<exists>p. tcp_create_rev_packet b ep s fl tt sq payload = Some (Inr p) \<and> is_reply ep s fl tt sq payload p"
proof -
  let ?h = "rev_tcp_header ep s fl sq"
  let ?pl = "take (payload_room s) payload"
  note h = rev_tcp_header_fields [OF ok, where s = s and fl = fl and sq = sq]
  let ?i = "\<lparr>ipv6_traffic_class = 0, ipv6_flow_label = 0, ipv6_payload_length = of_nat (length ?pl + 20),
              ipv6_next_header = IpNumber_TCP, ipv6_hop_limit = tt,
              ipv6_source = d, ipv6_destination = r\<rparr>"
  have room: "payload_room s =
      unat (min (get_send_window (ts_tcb s)) (saturating_sub (ts_mtu s) 60))"
    by (simp add: payload_room_def tcp_headers_len_def dst unat_min_u16 unat_saturating_sub)
  have fit: "length ?pl + 20 \<le> 65535"
    using unat_u16_le [of "ts_mtu s"] by (auto simp: payload_room_def tcp_headers_len_def dst)
  then have "tcp_header_len ep ?h + length ?pl \<le> 65535" using h(14) by simp
  from tcp_checksum_ok(2) [OF ok this] obtain c where c: "tcp_calc_checksum_ipv6 ep ?h ?i ?pl = Some c"
    by blast
  have "tcp_create_rev_packet b ep s fl tt sq payload =
      Some (Inr \<lparr>np_ip = Ipv6 ?i, np_transport = Tcp (?h\<lparr>tcp_checksum := c\<rparr>), np_payload = ?pl\<rparr>)"
    using c h(14) fit unfolding room
    by (simp add: tcp_create_rev_packet_def Let_def dst src calculate_payload_len_ok
        ipv6_header_len_ok [OF ok] ipv6_set_payload_length_ok [OF ok])
  then show ?thesis
    using h dst src
    by (simp add: is_reply_def src_addr_def dst_addr_def ttl_def wire_len_def ip_len_def transport_len_def
        tcp_headers_len_def ipv6_header_len_ok [OF ok])
qed

lemma tcp_create_rev_packet_ok:
  assumes "etherparse_ok ep" "family_ok s"
  obtains p where "tcp_create_rev_packet b ep s fl tt sq payload = Some (Inr p)"
    "is_reply ep s fl tt sq payload p"
proof -
  obtain da dp where d: "ts_dst_addr s = \<lparr>sa_ip = da, sa_port = dp\<rparr>" by (cases "ts_dst_addr s")
  obtain ra sp where r: "ts_src_addr s = \<lparr>sa_ip = ra, sa_port = sp\<rparr>" by (cases "ts_src_addr s")
  from assms(2) d r consider (4) x y where "da = V4 x" "ra = V4 y" | (6) x y where "da = V6 x" "ra = V6 y"
    by (auto simp: family_ok_def same_family_def split: ip_addr.splits)
  then show thesis
  proof cases
    case 4
    from tcp_create_rev_packet_V4 [OF assms(1) d [unfolded 4(1)] r [unfolded 4(2)]] that
    show thesis by blast
  next
    case 6
    from tcp_create_rev_packet_V6 [OF assms(1) d [unfolded 6(1)] r [unfolded 6(2)]] that
    show thesis by blast
  qed
qed

lemma is_reply_limit: "is_reply ep s fl tt sq payload p \<Longrightarrow> wire_len ep p \<le> max (unat (ts_mtu s)) (tcp_headers_len s)"
  by (auto simp: is_reply_def payload_room_def min_def)

lemma is_reply_flags:
  assumes "is_reply ep s fl tt sq payload p" "np_transport p = Tcp h"
  shows "flags (wrapper_from h) = fl AND 31"
proof (rule bit_eqI)
  fix n assume "possible_bit TYPE(u8) n"
  then have "n < 8" by simp
  have mask: "(31 :: u8) = mask 5" by (simp add: mask_eq_exp_minus_1)
  have h: "inner (wrapper_from h) = h" by (simp add: inner_def wrapper_from_def)
  from assms have "\<not> tcp_cwr h" "\<not> tcp_ece h" "\<not> tcp_urg h" "tcp_syn h = bit fl 1" "tcp_ack h = bit fl 4"
    "tcp_rst h = bit fl 2" "tcp_fin h = bit fl 0" "tcp_psh h = bit fl 3"
    by (auto simp: is_reply_def)
  then have "bit (flags (wrapper_from h)) n \<longleftrightarrow>
      n = 4 \<and> bit fl 4 \<or> n = 3 \<and> bit fl 3 \<or> n = 2 \<and> bit fl 2 \<or> n = 1 \<and> bit fl 1 \<or> n = 0 \<and> bit fl 0"
    unfolding flags_bit Let_def h by simp
  also have "\<dots> \<longleftrightarrow> n < 5 \<and> bit fl n" by (auto simp: less_Suc_eq numeral_eq_Suc)
  finally show "bit (flags (wrapper_from h)) n = bit (fl AND 31) n"
    unfolding mask by (auto simp: bit_and_iff bit_mask_iff)
qed

section \<open>TCP streams build replies\<close>

interpretation tcp_reply: reply_builder
  "\<lambda>(ep :: 'x etherparse) s (b, fl, tt, sq, payload). tcp_create_rev_packet b ep s fl tt sq payload"
  ts_src_addr ts_dst_addr True "\<lambda>s. max (unat (ts_mtu s)) (tcp_headers_len s)"
proof unfold_locales
  fix ep :: "'x etherparse" and s :: "'x tcp_stream" and a :: "build \<times> u8 \<times> u8 \<times> u32 option \<times> bytes"
  assume ok: "etherparse_ok ep" and fam: "same_family (sa_ip (ts_dst_addr s)) (sa_ip (ts_src_addr s))"
  obtain b fl tt sq payload where a: "a = (b, fl, tt, sq, payload)" by (cases a)
  obtain p where p: "tcp_create_rev_packet b ep s fl tt sq payload = Some (Inr p)"
      "is_reply ep s fl tt sq payload p"
    using tcp_create_rev_packet_ok [OF ok fam [folded family_ok_def]] .
  then have "is_tcp p" by (auto simp: is_reply_def is_tcp_def)
  with p is_reply_limit [OF p(2)] a
  show "\<exists>p. (case a of (b, fl, tt, sq, payload) \<Rightarrow> tcp_create_rev_packet b ep s fl tt sq payload) = Some (Inr p) \<and>
     src_addr p = ts_dst_addr s \<and> dst_addr p = ts_src_addr s \<and> is_tcp p = True \<and>
     wire_len ep p \<le> max (unat (ts_mtu s)) (tcp_headers_len s)"
    by (auto simp: is_reply_def)
qed

text \<open>A stream for evaluation: 10.0.0.1:1111 connecting to 1.2.3.4:80, in a given state.\<close>

definition sample_stream :: "tcp_state \<Rightarrow> unit tcp_stream" where
  "sample_stream st =
     \<lparr>ts_src_addr = \<lparr>sa_ip = V4 0x0A000001, sa_port = 1111\<rparr>,
      ts_dst_addr = \<lparr>sa_ip = V4 0x01020304, sa_port = 80\<rparr>,
      ts_sent = [], ts_packet_to_send = None,
      ts_tcb = change_state (tcb_new sample_build 0 0 8 60) st,
      ts_mtu = 1500, ts_shutdown = ShutdownNone, ts_write_notify = None, ts_wakes = []\<rparr>"

abbreviation sample_ep :: "unit etherparse" where
  "sample_ep \<equiv> sample_etherparse (\<lambda>_. None)"

lemma sample_family_ok: "family_ok (sample_stream st)"
  by (simp add: family_ok_def sample_stream_def same_family_def)

text \<open>
  C26: \<open>create_rev_packet\<close> of a TCP stream, whose addresses are of one family, neither
  panics nor fails, in any build. The packet goes from the stream's destination to its
  source (so \<open>reverse_network_tuple\<close> is the stream's session key), has the given TTL and
  exactly the requested flags among FIN, SYN, RST, PSH and ACK, acknowledges everything
  delivered so far, carries the given sequence number (the next one by default), the
  advertised window, and as much of the payload as the peer's window and the MTU allow;
  serialised, it is no longer than the MTU or, if the MTU is smaller, the bare headers.
\<close>

theorem tcp_create_rev_packet_contract:
  assumes "etherparse_ok ep" "family_ok s"
  shows "\<exists>p h bs. tcp_create_rev_packet b ep s fl tt sq payload = Some (Inr p) \<and>
     np_transport p = Tcp h \<and> flags (wrapper_from h) = fl AND 31 \<and> ttl p = tt \<and>
     reverse_network_tuple p = \<lparr>nt_src = ts_src_addr s, nt_dst = ts_dst_addr s, nt_tcp = True\<rparr> \<and>
     tcp_sequence_number h = (case sq of Some q \<Rightarrow> q | None \<Rightarrow> get_seq (ts_tcb s)) \<and>
     tcp_acknowledgment_number h = get_ack (ts_tcb s) \<and>
     tcp_window_size h = get_recv_window (ts_tcb s) \<and>
     np_payload p = take (min (unat (get_send_window (ts_tcb s)))
                              (unat (ts_mtu s) - tcp_headers_len s)) payload \<and>
     to_bytes ep p = Inr bs \<and> length bs \<le> max (unat (ts_mtu s)) (tcp_headers_len s)"
proof -
  note fam = assms(2) [unfolded family_ok_def]
  obtain p where p: "tcp_create_rev_packet b ep s fl tt sq payload = Some (Inr p)"
      "is_reply ep s fl tt sq payload p"
    using tcp_create_rev_packet_ok [OF assms] .
  then obtain h where h: "np_transport p = Tcp h"
    "tcp_sequence_number h = (case sq of Some q \<Rightarrow> q | None \<Rightarrow> get_seq (ts_tcb s))"
    "tcp_acknowledgment_number h = get_ack (ts_tcb s)" "tcp_window_size h = get_recv_window (ts_tcb s)"
    by (auto simp: is_reply_def)
  have mk: "(case (b, fl, tt, sq, payload) of (b, fl, tt, sq, payload) \<Rightarrow>
      tcp_create_rev_packet b ep s fl tt sq payload) = Some (Inr p)" using p(1) by simp
  note key = tcp_reply.reply_key [OF assms(1) fam mk]
  from tcp_reply.reply_fits [OF assms(1) fam mk] obtain bs
    where bs: "to_bytes ep p = Inr bs" "length bs \<le> max (unat (ts_mtu s)) (tcp_headers_len s)" by blast
  have "ttl p = tt" "np_payload p = take (payload_room s) payload"
    using p(2) by (simp_all add: is_reply_def)
  with p(1) h key bs is_reply_flags [OF p(2) h(1)] show ?thesis
    unfolding payload_room_def by blast
qed

theorem tcp_create_rev_packet_contract_witness:
  "\<exists>p h. tcp_create_rev_packet sample_build sample_ep (sample_stream Established)
           (PSH OR ACK) 64 None [1, 2, 3] = Some (Inr p) \<and>
         np_transport p = Tcp h \<and> flags (wrapper_from h) = 24 \<and> np_payload p = [1, 2, 3]"
proof -
  have h: "etherparse_ok sample_ep" "family_ok (sample_stream Established)"
    by (rule sample_etherparse_ok, rule sample_family_ok)
  show ?thesis
    using tcp_create_rev_packet_contract [OF h, of sample_build "PSH OR ACK" 64 None "[1, 2, 3]"]
    by (auto simp: sample_stream_def tcp_headers_len_def tcb_new_def get_send_window_def
        change_state_def sample_build_def tcp_flags)
qed

end
