(* ===== verification/Send_Buffer.thy ===== *)
theory Send_Buffer
  imports Tcb "HOL-Library.Multiset" "HOL-Library.Sublist"
begin

text \<open>
  The sending side of the control block: \<open>inflight_packets\<close>, \<open>seq\<close> and
  \<open>last_ack\<close> implement a queue of unacknowledged bytes. The abstract state is the byte
  list between \<open>last_ack\<close> and \<open>seq\<close>; writing appends to it, an acknowledgement drops
  a prefix, a retransmission sends a prefix. The refinement holds while sequence numbers
  do not wrap around.
\<close>

section \<open>Packets that tile a sequence range\<close>

definition if_end :: "inflight_packet \<Rightarrow> nat" where
  "if_end p = unat (if_seq p) + length (if_payload p)"

fun chain :: "nat \<Rightarrow> inflight_packet list \<Rightarrow> nat \<Rightarrow> bool" where
  "chain lo [] hi \<longleftrightarrow> lo = hi"
| "chain lo (p # ps) hi \<longleftrightarrow> unat (if_seq p) = lo \<and> chain (if_end p) ps hi"

definition data_of :: "inflight_packet list \<Rightarrow> bytes" where
  "data_of ps = concat (map if_payload ps)"

lemma data_of_simps [simp]:
  "data_of [] = []" "data_of (p # ps) = if_payload p @ data_of ps"
  "data_of (ps @ qs) = data_of ps @ data_of qs"
  by (simp_all add: data_of_def)

lemma chain_length: "chain lo ps hi \<Longrightarrow> lo + length (data_of ps) = hi"
proof (induction ps arbitrary: lo)
  case (Cons p ps)
  from Cons.IH [of "if_end p"] Cons.prems show ?case by (auto simp: if_end_def)
qed simp

lemma chain_bounds: "chain lo ps hi \<Longrightarrow> p \<in> set ps \<Longrightarrow> lo \<le> unat (if_seq p) \<and> if_end p \<le> hi"
proof (induction ps arbitrary: lo)
  case (Cons q ps)
  from Cons.prems(1) have "if_end q \<le> hi" by (auto dest: chain_length)
  with Cons show ?case by (fastforce simp: if_end_def)
qed simp

lemma chain_snoc: "chain lo ps mid \<Longrightarrow> unat (if_seq p) = mid \<Longrightarrow> chain lo (ps @ [p]) (if_end p)"
  by (induction ps arbitrary: lo) auto

text \<open>At most one packet of a tiling reaches past a position that lies beyond its start.\<close>

definition straddles :: "nat \<Rightarrow> inflight_packet \<Rightarrow> bool" where
  "straddles a p \<longleftrightarrow> unat (if_seq p) < a \<and> a \<le> if_end p"

lemma chain_straddles_unique: "chain lo ps hi \<Longrightarrow> length (filter (straddles a) ps) \<le> 1"
proof (induction ps arbitrary: lo)
  case (Cons p ps)
  then have tail: "chain (if_end p) ps hi" by simp
  show ?case
  proof (cases "straddles a p")
    case True
    then have "\<not> straddles a q" if "q \<in> set ps" for q
      using chain_bounds [OF tail that] by (simp add: straddles_def)
    then show ?thesis by (simp add: filter_False)
  next
    case False
    with Cons.IH [OF tail] show ?thesis by simp
  qed
qed simp

section \<open>Acknowledging, abstractly\<close>

definition cut_at :: "u32 \<Rightarrow> inflight_packet \<Rightarrow> inflight_packet" where
  "cut_at a p = (if if_seq p < a
     then p\<lparr>if_payload := drop (unat (a - if_seq p)) (if_payload p), if_seq := a\<rparr> else p)"

definition trim :: "u32 \<Rightarrow> inflight_packet list \<Rightarrow> inflight_packet list" where
  "trim a ps = map (cut_at a) (filter (\<lambda>p. unat a < if_end p) ps)"

lemma trim_simps [simp]:
  "trim a [] = []"
  "trim a (p # ps) = (if unat a < if_end p then cut_at a p # trim a ps else trim a ps)"
  by (simp_all add: trim_def)

lemma cut_at_id: "a \<le> if_seq p \<Longrightarrow> cut_at a p = p"
  by (simp add: cut_at_def)

lemma trim_id: "chain lo ps hi \<Longrightarrow> unat a < lo \<Longrightarrow> trim a ps = ps"
proof (induction ps arbitrary: lo)
  case (Cons p ps)
  then have "unat a < if_end p" "cut_at a p = p"
    by (auto simp: if_end_def cut_at_id word_le_nat_alt)
  with Cons.IH [of "if_end p"] Cons.prems show ?case by simp
qed simp

lemma unat_sub_seq: "if_seq p < a \<Longrightarrow> unat (a - if_seq p) = unat a - unat (if_seq p)"
  by (simp add: unat_sub_in_range)

lemma chain_trim:
  "chain lo ps hi \<Longrightarrow> lo \<le> unat a \<Longrightarrow> unat a \<le> hi \<Longrightarrow>
     chain (unat a) (trim a ps) hi \<and> data_of (trim a ps) = drop (unat a - lo) (data_of ps)"
proof (induction ps arbitrary: lo)
  case (Cons p ps)
  then have lo: "unat (if_seq p) = lo" and tail: "chain (if_end p) ps hi" by simp_all
  show ?case
  proof (cases "unat a < if_end p")
    case False
    with Cons.IH [OF tail] Cons.prems(3) lo show ?thesis by (simp add: if_end_def)
  next
    case True
    then have rest: "trim a ps = ps" using tail by (rule trim_id [rotated])
    show ?thesis
    proof (cases "if_seq p < a")
      case False
      with Cons.prems lo have "lo = unat a" by (simp add: word_less_nat_alt)
      with False True rest Cons.prems lo show ?thesis by (simp add: cut_at_def)
    next
      case cut: True
      with True lo have "if_end (cut_at a p) = if_end p"
        by (simp add: cut_at_def if_end_def unat_sub_seq word_less_nat_alt)
      then have "chain (unat a) (cut_at a p # ps) hi" using cut tail by (simp add: cut_at_def)
      moreover have "data_of (cut_at a p # ps) = drop (unat a - lo) (data_of (p # ps))"
        using cut True lo by (simp add: cut_at_def unat_sub_seq if_end_def)
      ultimately show ?thesis using True rest by simp
    qed
  qed
qed simp

section \<open>Acknowledging, as the code does it\<close>

text \<open>A list that is, up to order, a tiling of a range that ends below \<open>2^32\<close>.\<close>

definition tiles :: "nat \<Rightarrow> inflight_packet list \<Rightarrow> nat \<Rightarrow> bytes \<Rightarrow> bool" where
  "tiles lo ps hi ds \<longleftrightarrow> (\<exists>qs. mset qs = mset ps \<and> chain lo qs hi \<and> data_of qs = ds)"

lemma tiles_bounds:
  assumes "tiles lo ps hi ds" "p \<in> set ps"
  shows "lo \<le> unat (if_seq p)" "if_end p \<le> hi"
  using assms chain_bounds unfolding tiles_def by (metis mset_eq_setD)+

lemma tiles_straddles:
  assumes "tiles lo ps hi ds"
  shows "length (filter (straddles a) ps) \<le> 1"
  using assms chain_straddles_unique unfolding tiles_def by (metis mset_filter size_mset)

lemma tiles_trim:
  assumes "tiles lo ps hi ds" "lo \<le> unat a" "unat a \<le> hi" "mset rs = mset (trim a ps)"
  shows "tiles (unat a) rs hi (drop (unat a - lo) ds)"
proof -
  from assms(1) obtain qs where qs: "mset qs = mset ps" "chain lo qs hi" "data_of qs = ds"
    unfolding tiles_def by blast
  from qs(1) have "mset (trim a qs) = mset rs"
    by (simp add: assms(4) trim_def mset_filter)
  with chain_trim [OF qs(2) assms(2,3)] qs(3) show ?thesis
    unfolding tiles_def by blast
qed

lemma contains_in_range:
  assumes "if_end p < 2 ^ 32"
  shows "contains b p a = Some (straddles (unat a) p)"
proof -
  from assms have len: "unat (of_nat (length (if_payload p)) :: u32) = length (if_payload p)"
    by (intro unat_of_nat_in_range) (simp add: if_end_def)
  with assms have last: "unat (if_seq p + of_nat (length (if_payload p))) = if_end p"
    by (subst unat_add_in_range) (simp_all add: if_end_def)
  show ?thesis
    using assms len last
    by (simp add: contains_def straddles_def word_less_nat_alt word_le_nat_alt if_end_def)
qed

lemma retain_unacked_in_range:
  assumes "\<forall>p \<in> set ps. if_end p < 2 ^ 32"
  shows "retain_unacked a ps = filter (\<lambda>p. unat a < if_end p) ps"
  unfolding retain_unacked_def
proof (rule filter_cong [OF refl])
  fix p assume "p \<in> set ps"
  with assms have b: "if_end p < 2 ^ 32" by blast
  then have "unat (if_seq p + of_nat (length (if_payload p))) = if_end p"
    by (subst unat_add_in_range) (simp_all add: unat_of_nat_in_range if_end_def)
  then show "(0 < saturating_sub (if_seq p + of_nat (length (if_payload p))) a) = (unat a < if_end p)"
    by (simp add: word_less_nat_alt unat_saturating_sub)
qed

lemma retain_unacked_append: "retain_unacked a (ps @ qs) = retain_unacked a ps @ retain_unacked a qs"
  by (simp add: retain_unacked_def)

lemma straddles_only_at:
  assumes "length (filter (straddles a) ps) \<le> 1" "i < length ps" "straddles a (ps ! i)"
    "q \<in> set (remove_at i ps)"
  shows "\<not> straddles a q"
proof
  assume "straddles a q"
  have "ps = take i ps @ ps ! i # drop (Suc i) ps" using assms(2) by (simp add: id_take_nth_drop)
  then have "filter (straddles a) ps =
      filter (straddles a) (take i ps) @ ps ! i # filter (straddles a) (drop (Suc i) ps)"
    using assms(3) by (metis filter.simps(2) filter_append)
  with assms(1) have "filter (straddles a) (take i ps) = []" "filter (straddles a) (drop (Suc i) ps) = []"
    by auto
  with assms(4) \<open>straddles a q\<close> show False
    by (auto simp: remove_at_def filter_empty_conv)
qed

lemma mset_remove_at: "i < length ps \<Longrightarrow> mset ps = add_mset (ps ! i) (mset (remove_at i ps))"
  by (metis id_take_nth_drop mset.simps(2) mset_append remove_at_def union_mset_add_mset_right)

lemma trim_no_straddle:
  "\<forall>q \<in> set ps. \<not> straddles (unat a) q \<Longrightarrow> trim a ps = filter (\<lambda>p. unat a < if_end p) ps"
  unfolding trim_def
  by (rule map_idI) (auto simp: straddles_def cut_at_def word_less_nat_alt)

lemma mset_trim_remove_at:
  assumes "i < length ps"
  shows "mset (trim a ps) = mset (trim a (ps ! i # remove_at i ps))"
  using mset_remove_at [OF assms] by (simp add: trim_def mset_filter)

lemma cut_at_straddled:
  assumes "straddles (unat a) p" "if_end p < 2 ^ 32"
  shows "cut_at a p = p\<lparr>if_payload := drop (unat (a - if_seq p)) (if_payload p), if_seq := a\<rparr>"
    and "unat (a - if_seq p) < length (if_payload p) \<longleftrightarrow> unat a < if_end p"
    and "unat a < if_end p \<Longrightarrow> retain_unacked a [cut_at a p] = [cut_at a p]"
proof -
  have lt: "if_seq p < a" using assms(1) by (simp add: straddles_def word_less_nat_alt)
  have dist: "unat (a - if_seq p) = unat a - unat (if_seq p)" using lt by (rule unat_sub_seq)
  show cut: "cut_at a p = p\<lparr>if_payload := drop (unat (a - if_seq p)) (if_payload p), if_seq := a\<rparr>"
    using lt by (simp add: cut_at_def)
  show "unat (a - if_seq p) < length (if_payload p) \<longleftrightarrow> unat a < if_end p"
    using assms(1) by (auto simp: dist straddles_def if_end_def)
  have "if_end (cut_at a p) = if_end p"
    using assms(1) by (simp add: cut if_end_def dist straddles_def)
  then show "unat a < if_end p \<Longrightarrow> retain_unacked a [cut_at a p] = [cut_at a p]"
    using assms(2) by (simp add: retain_unacked_in_range)
qed

lemma ack_inflight:
  assumes "tiles lo ps hi ds" "hi < 2 ^ 32"
  obtains qs where "split_inflight b ps a = Some qs" "mset (retain_unacked a qs) = mset (trim a ps)"
proof -
  have ends: "if_end p < 2 ^ 32" if "p \<in> set ps" for p
    using tiles_bounds(2) [OF assms(1) that] assms(2) by simp
  have cont: "contains b p a = Some (straddles (unat a) p)" if "p \<in> set ps" for p
    using ends [OF that] by (rule contains_in_range)
  then have "position (\<lambda>p. contains b p a) ps \<noteq> None" by (intro position_total) simp
  then obtain pos where pos: "position (\<lambda>p. contains b p a) ps = Some pos" by blast
  show thesis
  proof (cases pos)
    case None
    then have "\<forall>p \<in> set ps. \<not> straddles (unat a) p"
      using pos position_Some_None [of _ ps] cont by fastforce
    then have "trim a ps = retain_unacked a ps"
      using ends by (simp add: trim_no_straddle retain_unacked_in_range)
    with pos None show thesis by (intro that [of ps]) (simp_all add: split_inflight_def)
  next
    case (Some i)
    define p where "p = ps ! i"
    define rest where "rest = remove_at i ps"
    from pos Some have i: "i < length ps" and "contains b p a = Some True"
      unfolding p_def using position_Some_Some by fastforce+
    moreover from i have p_in: "p \<in> set ps" by (simp add: p_def)
    ultimately have p: "straddles (unat a) p" using cont by simp
    note cut = cut_at_straddled [OF p ends [OF p_in]]
    have only: "\<forall>q \<in> set rest. \<not> straddles (unat a) q"
      using straddles_only_at [OF tiles_straddles [OF assms(1)] i] p unfolding p_def rest_def by blast
    have rest_ends: "\<forall>q \<in> set rest. if_end q < 2 ^ 32"
      using ends set_remove_at_subset unfolding rest_def by fast
    have "mset (trim a ps) =
        (if unat a < if_end p then {# cut_at a p #} else {#}) + mset (retain_unacked a rest)"
      using mset_trim_remove_at [OF i, of a] only rest_ends
      by (simp add: trim_no_straddle retain_unacked_in_range flip: p_def rest_def)
    with cut(3) have "mset (retain_unacked a (if unat a < if_end p then rest @ [cut_at a p] else rest)) =
        mset (trim a ps)"
      by (simp add: retain_unacked_append)
    moreover have "split_inflight b ps a =
        Some (if unat a < if_end p then rest @ [cut_at a p] else rest)"
      using pos Some by (simp add: split_inflight_def Let_def cut(1) flip: p_def rest_def cut(2))
    ultimately show thesis by (intro that)
  qed
qed

section \<open>The interface: a queue of unacknowledged bytes\<close>

text \<open>
  What the TCP stream relies on. \<open>rel t ds\<close> relates a control block to the bytes it has
  sent and not seen acknowledged; \<open>room\<close> is the number of bytes that may still be sent
  before the sequence number wraps.
\<close>

locale send_buffer =
  fixes rel :: "'t \<Rightarrow> bytes \<Rightarrow> bool"
    and room :: "'t \<Rightarrow> nat"
    and push :: "'t \<Rightarrow> bytes \<Rightarrow> 't"
    and ack :: "'t \<Rightarrow> nat \<Rightarrow> 't option"
    and resend :: "'t \<Rightarrow> bytes option"
  assumes push_rel: "rel t ds \<Longrightarrow> length d < room t \<Longrightarrow> rel (push t d) (ds @ d)"
    and push_room: "length d < room t \<Longrightarrow> room (push t d) = room t - length d"
    and ack_rel: "rel t ds \<Longrightarrow> n \<le> length ds \<Longrightarrow>
      \<exists>t'. ack t n = Some t' \<and> rel t' (drop n ds) \<and> room t' = room t"
    and resend_rel: "rel t ds \<Longrightarrow> ds \<noteq> [] \<Longrightarrow> \<exists>r. resend t = Some r \<and> prefix r ds"

datatype send_op = Push bytes | AckBytes nat

fun spec_run :: "bytes \<Rightarrow> send_op list \<Rightarrow> bytes option" where
  "spec_run ds [] = Some ds"
| "spec_run ds (Push d # ops) = spec_run (ds @ d) ops"
| "spec_run ds (AckBytes n # ops) = (if n \<le> length ds then spec_run (drop n ds) ops else None)"

fun pushed :: "send_op list \<Rightarrow> nat" where
  "pushed [] = 0"
| "pushed (Push d # ops) = length d + pushed ops"
| "pushed (AckBytes n # ops) = pushed ops"

fun op_run :: "('t \<Rightarrow> bytes \<Rightarrow> 't) \<Rightarrow> ('t \<Rightarrow> nat \<Rightarrow> 't option) \<Rightarrow> 't \<Rightarrow> send_op list \<Rightarrow> 't option" where
  "op_run psh ak t [] = Some t"
| "op_run psh ak t (Push d # ops) = op_run psh ak (psh t d) ops"
| "op_run psh ak t (AckBytes n # ops) = do { t' \<leftarrow> ak t n; op_run psh ak t' ops }"

context send_buffer
begin

lemma run_refines:
  assumes "rel t ds" "pushed ops < room t" "spec_run ds ops = Some ds'"
  shows "\<exists>t'. op_run push ack t ops = Some t' \<and> rel t' ds'"
  using assms
proof (induction ops arbitrary: t ds)
  case (Cons op ops)
  show ?case
  proof (cases op)
    case (Push d)
    with Cons.prems have "rel (push t d) (ds @ d)" "pushed ops < room (push t d)"
      by (auto intro: push_rel simp: push_room)
    with Push Cons.prems(3) show ?thesis by (auto intro: Cons.IH)
  next
    case (AckBytes n)
    with Cons.prems obtain t' where "ack t n = Some t'" "rel t' (drop n ds)" "room t' = room t"
      using ack_rel by (fastforce split: if_splits)
    with AckBytes Cons.prems(2,3) show ?thesis
      by (auto intro: Cons.IH split: if_splits)
  qed
qed simp

lemma run_resend:
  assumes "rel t ds" "pushed ops < room t" "spec_run ds ops = Some ds'" "ds' \<noteq> []"
  shows "\<exists>t' r. op_run push ack t ops = Some t' \<and> resend t' = Some r \<and> prefix r ds'"
  using run_refines [OF assms(1-3)] resend_rel [OF _ assms(4)] by blast

end

section \<open>The control block provides it\<close>

definition sender_rel :: "tcb \<Rightarrow> bytes \<Rightarrow> bool" where
  "sender_rel t ds \<longleftrightarrow> tcb_state t = Established \<and>
     tiles (unat (tcb_last_ack t)) (tcb_inflight_packets t) (unat (tcb_seq t)) ds"

definition send_room :: "tcb \<Rightarrow> nat" where
  "send_room t = 2 ^ 32 - unat (tcb_seq t)"

text \<open>The operations as \<open>poll_write\<close>, an incoming packet and \<open>poll_flush\<close> use them.\<close>

definition push_bytes :: "tcb \<Rightarrow> bytes \<Rightarrow> tcb" where
  "push_bytes t d = add_inflight_packet t (get_seq t) d"

definition ack_bytes :: "build \<Rightarrow> tcb \<Rightarrow> nat \<Rightarrow> tcb option" where
  "ack_bytes b t n = change_last_ack b t (get_last_ack t + of_nat n)"

definition resend_bytes :: "tcb \<Rightarrow> bytes option" where
  "resend_bytes t =
     map_option if_payload (find (\<lambda>p. if_seq p = get_last_ack t) (tcb_inflight_packets t))"

lemma sender_rel_length:
  "sender_rel t ds \<Longrightarrow> unat (tcb_last_ack t) + length ds = unat (tcb_seq t)"
  unfolding sender_rel_def tiles_def using chain_length by blast

lemma sender_rel_push:
  assumes "sender_rel t ds" "length d < send_room t"
  shows "sender_rel (push_bytes t d) (ds @ d)" "send_room (push_bytes t d) = send_room t - length d"
proof -
  let ?p = "inflight_new (tcb_seq t) d"
  from assms(2) have seq: "unat (tcb_seq t + of_nat (length d)) = if_end ?p"
    by (subst unat_add_in_range) (simp_all add: unat_of_nat_in_range send_room_def if_end_def inflight_new_def)
  from assms(1) obtain qs where "mset qs = mset (tcb_inflight_packets t)"
      "chain (unat (tcb_last_ack t)) qs (unat (tcb_seq t))" "data_of qs = ds"
    unfolding sender_rel_def tiles_def by blast
  then have "mset (qs @ [?p]) = mset (tcb_inflight_packets t @ [?p])"
      "chain (unat (tcb_last_ack t)) (qs @ [?p]) (if_end ?p)" "data_of (qs @ [?p]) = ds @ d"
    by (auto intro: chain_snoc simp: inflight_new_def)
  then have "tiles (unat (tcb_last_ack t)) (tcb_inflight_packets t @ [?p]) (if_end ?p) (ds @ d)"
    unfolding tiles_def by blast
  then show "sender_rel (push_bytes t d) (ds @ d)"
    using assms(1) seq
    by (simp add: sender_rel_def push_bytes_def add_inflight_packet_def get_seq_def)
  show "send_room (push_bytes t d) = send_room t - length d"
    using seq by (simp add: send_room_def push_bytes_def add_inflight_packet_def get_seq_def
        if_end_def inflight_new_def)
qed

lemma change_last_ack_refines:
  assumes "sender_rel t ds" "unat (tcb_last_ack t) \<le> unat a" "unat a \<le> unat (tcb_seq t)"
  shows "\<exists>ps. change_last_ack b t a = Some (t\<lparr>tcb_last_ack := a, tcb_inflight_packets := ps\<rparr>) \<and>
           sender_rel (t\<lparr>tcb_last_ack := a, tcb_inflight_packets := ps\<rparr>)
             (drop (unat a - unat (tcb_last_ack t)) ds)"
proof -
  from assms(1) have tiles: "tiles (unat (tcb_last_ack t)) (tcb_inflight_packets t) (unat (tcb_seq t)) ds"
    and st: "tcb_state t = Established" by (simp_all add: sender_rel_def)
  obtain qs where qs: "split_inflight b (tcb_inflight_packets t) a = Some qs"
    "mset (retain_unacked a qs) = mset (trim a (tcb_inflight_packets t))"
    using ack_inflight [OF tiles] unat_u32_less by auto
  have "tiles (unat a) (retain_unacked a qs) (unat (tcb_seq t)) (drop (unat a - unat (tcb_last_ack t)) ds)"
    using tiles_trim [OF tiles assms(2,3) qs(2)] .
  with qs(1) st show ?thesis
    by (auto simp: change_last_ack_def Let_def sender_rel_def)
qed

lemma ack_bytes_refines:
  assumes "sender_rel t ds" "n \<le> length ds"
  shows "\<exists>t'. ack_bytes b t n = Some t' \<and> sender_rel t' (drop n ds) \<and> send_room t' = send_room t"
proof -
  have len: "unat (tcb_last_ack t) + length ds = unat (tcb_seq t)"
    using assms(1) by (rule sender_rel_length)
  then have "unat (tcb_last_ack t) + n < 2 ^ 32"
    using assms(2) unat_u32_less [of "tcb_seq t"] by simp
  then have a: "unat (tcb_last_ack t + of_nat n) = unat (tcb_last_ack t) + n"
    by (subst unat_add_in_range) (simp_all add: unat_of_nat_in_range)
  show ?thesis
    using change_last_ack_refines [OF assms(1), of "tcb_last_ack t + of_nat n" b] a assms(2) len
    by (auto simp: ack_bytes_def get_last_ack_def send_room_def)
qed

lemma chain_first:
  "chain lo qs hi \<Longrightarrow> p \<in> set qs \<Longrightarrow> unat (if_seq p) = lo \<Longrightarrow> prefix (if_payload p) (data_of qs)"
proof (induction qs arbitrary: lo)
  case (Cons q qs)
  show ?case
  proof (cases "p = q")
    case False
    with Cons.prems have "if_end q \<le> lo" "p \<in> set qs"
      using chain_bounds [of "if_end q" qs hi p] by auto
    with Cons.prems have "if_payload q = []" "if_end q = lo" by (auto simp: if_end_def)
    with Cons.IH [of lo] Cons.prems \<open>p \<in> set qs\<close> show ?thesis by simp
  qed simp
qed simp

lemma resend_bytes_refines:
  assumes "sender_rel t ds" "ds \<noteq> []"
  shows "\<exists>r. resend_bytes t = Some r \<and> prefix r ds"
proof -
  from assms(1) obtain qs where qs: "mset qs = mset (tcb_inflight_packets t)"
      "chain (unat (tcb_last_ack t)) qs (unat (tcb_seq t))" "data_of qs = ds"
    unfolding sender_rel_def tiles_def by blast
  then obtain q qs' where "qs = q # qs'" using assms(2) by (cases qs) auto
  with mset_eq_setD [OF qs(1)] qs(2)
  have "q \<in> set (tcb_inflight_packets t)" "if_seq q = tcb_last_ack t"
    by (auto simp: word_unat_eq_iff)
  then obtain p where p: "find (\<lambda>p. if_seq p = tcb_last_ack t) (tcb_inflight_packets t) = Some p"
    by (metis (mono_tags, lifting) find_None_iff2 not_Some_eq)
  then have "p \<in> set qs" "if_seq p = tcb_last_ack t"
    using mset_eq_setD [OF qs(1)] by (auto simp: find_Some_iff)
  then have "prefix (if_payload p) ds" using chain_first [OF qs(2)] qs(3) by simp
  with p show ?thesis by (simp add: resend_bytes_def get_last_ack_def)
qed

interpretation tcb_send: send_buffer sender_rel send_room push_bytes "ack_bytes b" resend_bytes for b
proof unfold_locales
  fix t ds and d :: bytes assume "sender_rel t ds" "length d < send_room t"
  then show "sender_rel (push_bytes t d) (ds @ d)" by (rule sender_rel_push)
next
  fix d :: bytes and t assume "length d < send_room t"
  then show "send_room (push_bytes t d) = send_room t - length d"
    by (simp add: send_room_def push_bytes_def add_inflight_packet_def get_seq_def
        unat_add_in_range unat_of_nat_in_range)
next
  fix t ds n assume "sender_rel t ds" "n \<le> length ds"
  then show "\<exists>t'. ack_bytes b t n = Some t' \<and> sender_rel t' (drop n ds) \<and> send_room t' = send_room t"
    by (rule ack_bytes_refines)
next
  fix t ds assume "sender_rel t ds" "ds \<noteq> []"
  then show "\<exists>r. resend_bytes t = Some r \<and> prefix r ds" by (rule resend_bytes_refines)
qed

text \<open>
  C8: an established control block is a faithful queue of unacknowledged bytes. Starting
  from any state that holds the bytes \<open>ds\<close>, run any sequence of writes and of
  acknowledgements (each of at most the bytes outstanding, also in the middle of a
  packet), with no sequence-number wrap-around: no step panics in any build, the control
  block holds exactly the bytes written and not acknowledged, in order, and while there is
  one, the packet looked up for a retransmission exists and carries a prefix of them.
\<close>

theorem send_buffer_refines:
  assumes "sender_rel t ds" "pushed ops < send_room t" "spec_run ds ops = Some ds'"
  shows "\<exists>t'. op_run push_bytes (ack_bytes b) t ops = Some t' \<and> sender_rel t' ds' \<and>
           (ds' = [] \<or> (\<exists>r. resend_bytes t' = Some r \<and> prefix r ds'))"
  using tcb_send.run_refines [OF assms] tcb_send.resend_rel by blast

theorem send_buffer_refines_witness:
  "\<exists>t'. op_run push_bytes (ack_bytes sample_build)
          ((tcb_new sample_build 0 0 7 60)\<lparr>tcb_state := Established\<rparr>)
          [Push [1, 2, 3], Push [4], AckBytes 2] = Some t' \<and> sender_rel t' [3, 4] \<and>
        (\<exists>r. resend_bytes t' = Some r \<and> prefix r [3, 4])"
proof -
  let ?t = "(tcb_new sample_build 0 0 7 60)\<lparr>tcb_state := Established\<rparr>"
  let ?ops = "[Push [1, 2, 3], Push [4], AckBytes 2]"
  have h: "sender_rel ?t []" "pushed ?ops < send_room ?t" "spec_run [] ?ops = Some [3, 4]"
    by (simp_all add: sender_rel_def tiles_def tcb_new_def sample_build_def send_room_def)
  show ?thesis using send_buffer_refines [OF h] by simp
qed

end
