(* ===== verification/Reassembly.thy ===== *)
theory Reassembly
  imports Tcb "HOL-Library.Multiset"
begin

text \<open>
  The receiving side of the control block: \<open>ack\<close> and \<open>unordered_packets\<close> implement a
  reassembly buffer. The abstract state is a position in the peer's byte stream (how much
  has been delivered) and a partial map from stream offsets to the segments held. The
  refinement holds while sequence numbers do not wrap around.
\<close>

section \<open>The interface\<close>

datatype reasm_op = Store nat bytes | Deliver

fun reasm_run ::
  "('t \<Rightarrow> nat \<Rightarrow> bytes \<Rightarrow> 't) \<Rightarrow> ('t \<Rightarrow> (bytes \<times> 't) option) \<Rightarrow> 't \<Rightarrow> reasm_op list \<Rightarrow> bytes \<times> 't" where
  "reasm_run st dl t [] = ([], t)"
| "reasm_run st dl t (Store off d # ops) = reasm_run st dl (st t off d) ops"
| "reasm_run st dl t (Deliver # ops) =
     (case dl t of
        None \<Rightarrow> reasm_run st dl t ops
      | Some (d, t') \<Rightarrow> (let (out, t'') = reasm_run st dl t' ops in (d @ out, t'')))"

text \<open>A segment of the peer's stream \<open>s\<close> at an offset.\<close>

definition fragment :: "bytes \<Rightarrow> nat \<Rightarrow> bytes \<Rightarrow> bool" where
  "fragment s off d \<longleftrightarrow> off + length d \<le> length s \<and> d = take (length d) (drop off s)"

text \<open>The operations of a run that store genuine segments of \<open>s\<close>.\<close>

definition genuine :: "bytes \<Rightarrow> reasm_op list \<Rightarrow> bool" where
  "genuine s ops \<longleftrightarrow> (\<forall>op \<in> set ops. case op of Store off d \<Rightarrow> fragment s off d | Deliver \<Rightarrow> True)"

text \<open>The segments of a stream cut into pieces, with their offsets.\<close>

fun offsets :: "nat \<Rightarrow> bytes list \<Rightarrow> (nat \<times> bytes) list" where
  "offsets n [] = []"
| "offsets n (d # ds) = (n, d) # offsets (n + length d) ds"

lemma offsets_range:
  "(off, d) \<in> set (offsets n segs) \<Longrightarrow> [] \<notin> set segs \<Longrightarrow> n \<le> off \<and> off < n + length (concat segs)"
proof (induction n segs rule: offsets.induct)
  case (2 n e segs)
  then show ?case by (cases "(off, d) \<in> set (offsets (n + length e) segs)") auto
qed simp

lemma offsets_distinct: "[] \<notin> set segs \<Longrightarrow> distinct (map fst (offsets n segs))"
proof (induction n segs rule: offsets.induct)
  case (2 n e segs)
  then have "0 < length e" "[] \<notin> set segs" by auto
  then have "n \<notin> fst ` set (offsets (n + length e) segs)" by (auto dest!: offsets_range)
  with 2 show ?case by auto
qed simp

locale reassembly =
  fixes inv :: "'t \<Rightarrow> bool"
    and pos :: "'t \<Rightarrow> nat"
    and held :: "'t \<Rightarrow> nat \<Rightarrow> bytes option"
    and limit :: nat
    and store :: "'t \<Rightarrow> nat \<Rightarrow> bytes \<Rightarrow> 't"
    and deliver :: "'t \<Rightarrow> (bytes \<times> 't) option"
  assumes store_ok: "inv t \<Longrightarrow> off < limit \<Longrightarrow>
      inv (store t off d) \<and> pos (store t off d) = pos t \<and>
      held (store t off d) = (if off < pos t then held t else (held t)(off \<mapsto> d))"
    and deliver_none: "inv t \<Longrightarrow> pos t < limit \<Longrightarrow> held t (pos t) = None \<Longrightarrow> deliver t = None"
    and deliver_some: "inv t \<Longrightarrow> pos t + length d < limit \<Longrightarrow> held t (pos t) = Some d \<Longrightarrow>
      \<exists>t'. deliver t = Some (d, t') \<and> inv t' \<and> pos t' = pos t + length d \<and>
           held t' = (held t)(pos t := None)"
begin

lemma run_prefix:
  assumes "inv t" "pos t \<le> length s" "length s < limit" "genuine s ops"
    "\<And>off d. held t off = Some d \<Longrightarrow> fragment s off d"
    "reasm_run store deliver t ops = (out, t')"
  shows "pos t' = pos t + length out \<and> pos t' \<le> length s \<and> take (pos t') s = take (pos t) s @ out"
  using assms
proof (induction ops arbitrary: t out)
  case (Cons op ops)
  have rest: "genuine s ops" using Cons.prems(4) by (simp add: genuine_def)
  show ?case
  proof (cases op)
    case (Store off d)
    then have frag: "fragment s off d" using Cons.prems(4) by (simp add: genuine_def)
    then have "off < limit" using Cons.prems(3) by (simp add: fragment_def)
    note st = store_ok [OF Cons.prems(1) this, of d]
    then have "pos (store t off d) \<le> length s" "reasm_run store deliver (store t off d) ops = (out, t')"
      using Cons.prems(2,6) Store by simp_all
    moreover have "\<And>o' d'. held (store t off d) o' = Some d' \<Longrightarrow> fragment s o' d'"
      using Cons.prems(5) frag st by (auto split: if_splits)
    ultimately show ?thesis using Cons.IH [of "store t off d" out] Cons.prems(3) rest st by auto
  next
    case Deliver
    show ?thesis
    proof (cases "held t (pos t)")
      case None
      then have "deliver t = None" using deliver_none Cons.prems(1-3) by simp
      with Deliver Cons.IH [OF Cons.prems(1-3) rest Cons.prems(5)] Cons.prems(6) show ?thesis by auto
    next
      case (Some d)
      then have frag: "fragment s (pos t) d" by (rule Cons.prems(5))
      with Cons.prems(3) obtain t1 where t1: "deliver t = Some (d, t1)" "inv t1"
          "pos t1 = pos t + length d" "held t1 = (held t)(pos t := None)"
        using deliver_some [OF Cons.prems(1) _ Some] by (auto simp: fragment_def)
      obtain out1 where out1: "reasm_run store deliver t1 ops = (out1, t')" "out = d @ out1"
        using Cons.prems(6) Deliver t1(1) by (auto split: prod.splits)
      have "pos t1 \<le> length s" "take (pos t1) s = take (pos t) s @ d"
        using frag t1(3) by (simp_all add: fragment_def take_add)
      moreover have "\<And>o' d'. held t1 o' = Some d' \<Longrightarrow> fragment s o' d'"
        using Cons.prems(5) t1(4) by (auto split: if_splits)
      ultimately show ?thesis using Cons.IH [OF t1(2) _ Cons.prems(3) rest _ out1(1)] out1(2) t1(3) by auto
    qed
  qed
qed simp

lemma stores_held:
  assumes "inv t" "pos t = 0" "\<forall>(off, d) \<in> set arr. off < limit" "distinct (map fst arr)"
  shows "inv (foldl (\<lambda>t (off, d). store t off d) t arr) \<and>
         pos (foldl (\<lambda>t (off, d). store t off d) t arr) = 0 \<and>
         held (foldl (\<lambda>t (off, d). store t off d) t arr) = held t ++ map_of arr"
  using assms
proof (induction arr arbitrary: t)
  case (Cons x arr)
  obtain off d where x: "x = (off, d)" by (cases x)
  then have st: "inv (store t off d)" "pos (store t off d) = 0" "held (store t off d) = (held t)(off \<mapsto> d)"
    using store_ok [of t off d] Cons.prems(1-3) by auto
  have "map_of arr off = None" using Cons.prems(4) x by (simp add: map_of_eq_None_iff)
  then have "(held t)(off \<mapsto> d) ++ map_of arr = held t ++ map_of (x # arr)"
    by (auto simp: x map_add_def fun_eq_iff split: option.splits)
  with Cons.IH [OF st(1,2)] Cons.prems(3,4) st(3) x show ?case
    by (simp del: map_of.simps fun_upd_apply)
qed simp

lemma deliver_all:
  assumes "inv t" "pos t + length (concat segs) < limit"
    "\<forall>(off, d) \<in> set (offsets (pos t) segs). held t off = Some d" "[] \<notin> set segs"
  shows "fst (reasm_run store deliver t (replicate (length segs) Deliver)) = concat segs"
  using assms
proof (induction segs arbitrary: t)
  case (Cons d segs)
  then have "held t (pos t) = Some d" by simp
  with Cons.prems(1,2) obtain t' where t': "deliver t = Some (d, t')" "inv t'"
      "pos t' = pos t + length d" "held t' = (held t)(pos t := None)"
    using deliver_some [of t d] by auto
  have "off \<noteq> pos t" if "(off, e) \<in> set (offsets (pos t') segs)" for off e
    using offsets_range [OF that] t'(3) Cons.prems(4) by (cases d) auto
  then have "\<forall>(off, e) \<in> set (offsets (pos t') segs). held t' off = Some e"
    using Cons.prems(3) t'(3,4) by fastforce
  with Cons.IH [of t'] t' Cons.prems(2,4) show ?case by (auto split: prod.splits)
qed simp

text \<open>Segments stored in any order come out in stream order.\<close>

lemma any_order:
  assumes "inv t" "pos t = 0" "held t = Map.empty"
    "[] \<notin> set segs" "length (concat segs) < limit" "mset arr = mset (offsets 0 segs)"
  shows "fst (reasm_run store deliver (foldl (\<lambda>t (off, d). store t off d) t arr)
               (replicate (length segs) Deliver)) = concat segs"
proof -
  let ?t = "foldl (\<lambda>t (off, d). store t off d) t arr"
  have set: "set arr = set (offsets 0 segs)" using assms(6) by (rule mset_eq_setD)
  have dist: "distinct (map fst arr)"
    using assms(6) offsets_distinct [OF assms(4)] by (metis mset_eq_imp_distinct_iff mset_map)
  have "\<forall>(off, d) \<in> set arr. off < limit"
    unfolding set using offsets_range [OF _ assms(4), of _ _ 0] assms(5) by fastforce
  from stores_held [OF assms(1,2) this dist] assms(3)
  have "inv ?t" "pos ?t = 0" "held ?t = map_of arr" by simp_all
  moreover have "\<forall>(off, d) \<in> set (offsets 0 segs). map_of arr off = Some d"
    unfolding set [symmetric] using map_of_eq_Some_iff [OF dist] by blast
  ultimately show ?thesis using deliver_all [of ?t segs] assms(4,5) by simp
qed

end

section \<open>The control block provides it\<close>

text \<open>\<open>base\<close> is the sequence number of the first byte of the peer's stream.\<close>

definition recv_inv :: "nat \<Rightarrow> tcb \<Rightarrow> bool" where
  "recv_inv base t \<longleftrightarrow> btree_wf (tcb_unordered_packets t) \<and> base \<le> unat (tcb_ack t)"

definition recv_pos :: "nat \<Rightarrow> tcb \<Rightarrow> nat" where
  "recv_pos base t = unat (tcb_ack t) - base"

definition recv_key :: "nat \<Rightarrow> nat \<Rightarrow> u32" where
  "recv_key base off = of_nat (base + off)"

definition recv_held :: "nat \<Rightarrow> tcb \<Rightarrow> nat \<Rightarrow> bytes option" where
  "recv_held base t off =
     (if base + off < 2 ^ 32
      then map_option un_payload (map_of (tcb_unordered_packets t) (recv_key base off)) else None)"

definition recv_store :: "nat \<Rightarrow> tcb \<Rightarrow> nat \<Rightarrow> bytes \<Rightarrow> tcb" where
  "recv_store base t off d = add_unordered_packet t (recv_key base off) d"

text \<open>The delivery step of \<open>poll_read\<close> on the control block.\<close>

definition recv_deliver :: "tcb \<Rightarrow> (bytes \<times> tcb) option" where
  "recv_deliver t =
     (case get_unordered_packets t of
        (None, _) \<Rightarrow> None
      | (Some d, t') \<Rightarrow> Some (d, add_ack t' (of_nat (length d))))"

lemma unat_recv_key: "base + off < 2 ^ 32 \<Longrightarrow> unat (recv_key base off) = base + off"
  unfolding recv_key_def by (rule unat_of_nat_in_range) simp

lemma recv_key_inj:
  "base + x < 2 ^ 32 \<Longrightarrow> base + off < 2 ^ 32 \<Longrightarrow> recv_key base x = recv_key base off \<longleftrightarrow> x = off"
  by (metis add_left_cancel unat_recv_key)

lemma recv_key_pos: "recv_inv base t \<Longrightarrow> recv_key base (recv_pos base t) = tcb_ack t"
proof -
  assume "recv_inv base t"
  then have "base + recv_pos base t = unat (tcb_ack t)" by (simp add: recv_inv_def recv_pos_def)
  then show ?thesis unfolding recv_key_def by simp
qed

lemma recv_store_ok:
  assumes "recv_inv base t" "off < 2 ^ 32 - base"
  shows "recv_inv base (recv_store base t off d) \<and>
    recv_pos base (recv_store base t off d) = recv_pos base t \<and>
    recv_held base (recv_store base t off d) =
      (if off < recv_pos base t then recv_held base t else (recv_held base t)(off \<mapsto> d))"
proof -
  from assms(2) have key: "unat (recv_key base off) = base + off"
    by (intro unat_recv_key) simp
  have old: "recv_key base off < tcb_ack t \<longleftrightarrow> off < recv_pos base t"
    using key assms(1) by (auto simp: word_less_nat_alt recv_pos_def recv_inv_def)
  show ?thesis
  proof (cases "off < recv_pos base t")
    case True
    with old assms(1) show ?thesis by (simp add: recv_store_def add_unordered_packet_def)
  next
    case False
    with old have st: "recv_store base t off d = t\<lparr>tcb_unordered_packets :=
        btree_insert (recv_key base off) (unordered_new d) (tcb_unordered_packets t)\<rparr>"
      by (simp add: recv_store_def add_unordered_packet_def)
    from assms(2) have "base + off < 2 ^ 32" by simp
    then have "recv_held base (recv_store base t off d) x = ((recv_held base t)(off \<mapsto> d)) x" for x
      using recv_key_inj [of base x off] assms(1)
      by (simp add: st recv_held_def recv_inv_def map_of_btree_insert unordered_new_def)
    with False st assms(1) show ?thesis
      by (simp add: fun_eq_iff recv_inv_def recv_pos_def btree_wf_insert)
  qed
qed

lemma recv_deliver_ok:
  assumes "recv_inv base t" "recv_pos base t + length d < 2 ^ 32 - base"
    "recv_held base t (recv_pos base t) = Some d"
  shows "\<exists>t'. recv_deliver t = Some (d, t') \<and> recv_inv base t' \<and>
    recv_pos base t' = recv_pos base t + length d \<and>
    recv_held base t' = (recv_held base t)(recv_pos base t := None)"
proof -
  note key = recv_key_pos [OF assms(1)]
  have ack: "unat (tcb_ack t + of_nat (length d)) = unat (tcb_ack t) + length d"
    using assms(1,2) by (intro trans [OF unat_add_in_range])
      (simp_all add: unat_of_nat_in_range recv_pos_def recv_inv_def)
  have mine: "recv_key base x = tcb_ack t \<longleftrightarrow> x = recv_pos base t" if "base + x < 2 ^ 32" for x
    using recv_key_inj [OF that, of "recv_pos base t"] assms(2) key by simp
  define t' where "t' = t\<lparr>tcb_unordered_packets := btree_remove (tcb_ack t) (tcb_unordered_packets t),
      tcb_ack := tcb_ack t + of_nat (length d)\<rparr>"
  have fields: "tcb_unordered_packets t' = btree_remove (tcb_ack t) (tcb_unordered_packets t)"
    by (simp add: t'_def)
  have ack': "unat (tcb_ack t') = unat (tcb_ack t) + length d" using ack by (simp add: t'_def)
  have "base + recv_pos base t < 2 ^ 32" using assms(2) by simp
  then have "map_option un_payload (map_of (tcb_unordered_packets t) (tcb_ack t)) = Some d"
    using assms(3) key by (simp add: recv_held_def)
  then have "recv_deliver t = Some (d, t')"
    by (auto simp: recv_deliver_def get_unordered_packets_def add_ack_def t'_def)
  moreover have "recv_inv base t'" "recv_pos base t' = recv_pos base t + length d"
    using assms(1) ack' unfolding recv_inv_def recv_pos_def
    by (simp_all only: ack' fields btree_wf_remove) simp_all
  moreover have "recv_held base t' off = ((recv_held base t)(recv_pos base t := None)) off" for off
    using assms(1) mine [of off] key
    by (simp add: recv_held_def recv_inv_def fields map_of_btree_remove)
  ultimately show ?thesis by blast
qed

interpretation tcb_recv: reassembly "recv_inv base" "recv_pos base" "recv_held base" "2 ^ 32 - base"
  "recv_store base" recv_deliver for base
proof unfold_locales
  fix t off d assume "recv_inv base t" "off < 2 ^ 32 - base"
  then show "recv_inv base (recv_store base t off d) \<and>
    recv_pos base (recv_store base t off d) = recv_pos base t \<and>
    recv_held base (recv_store base t off d) =
      (if off < recv_pos base t then recv_held base t else (recv_held base t)(off \<mapsto> d))"
    by (rule recv_store_ok)
next
  fix t assume "recv_inv base t" "recv_pos base t < 2 ^ 32 - base"
    "recv_held base t (recv_pos base t) = None"
  then show "recv_deliver t = None"
    using recv_key_pos [of base t]
    by (auto simp: recv_deliver_def get_unordered_packets_def recv_held_def split: if_splits)
next
  fix t and d :: bytes assume "recv_inv base t" "recv_pos base t + length d < 2 ^ 32 - base"
    "recv_held base t (recv_pos base t) = Some d"
  then show "\<exists>t'. recv_deliver t = Some (d, t') \<and> recv_inv base t' \<and>
    recv_pos base t' = recv_pos base t + length d \<and>
    recv_held base t' = (recv_held base t)(recv_pos base t := None)"
    by (rule recv_deliver_ok)
qed

text \<open>
  C9: the reassembly buffer delivers only the peer's stream, in order and without gaps.
  Take a control block whose next expected byte is at offset \<open>p\<close> of the stream \<open>s\<close>
  and whose stored packets are genuine segments of \<open>s\<close>; store further genuine segments
  at any offsets (overlapping, repeated, already delivered) and deliver in any
  interleaving: the bytes handed out are exactly the next bytes of \<open>s\<close>, and the
  acknowledgement number has advanced by their number. The stream must end before the
  sequence numbers wrap.
\<close>

theorem reassembly_in_order:
  assumes "recv_inv base t" "recv_pos base t \<le> length s" "base + length s < 2 ^ 32" "genuine s ops"
    "\<forall>off d. recv_held base t off = Some d \<longrightarrow> fragment s off d"
    "reasm_run (recv_store base) recv_deliver t ops = (out, t')"
  shows "out = take (length out) (drop (recv_pos base t) s) \<and>
         recv_pos base t' = recv_pos base t + length out"
proof -
  from assms(3) have "length s < 2 ^ 32 - base" by simp
  from tcb_recv.run_prefix [OF assms(1,2) this assms(4) _ assms(6)] assms(5)
  have run: "recv_pos base t' = recv_pos base t + length out" "recv_pos base t' \<le> length s"
    "take (recv_pos base t') s = take (recv_pos base t) s @ out" by blast+
  then have "drop (recv_pos base t) (take (recv_pos base t + length out) s) = out"
    using assms(2) by simp
  then have "out = take (length out) (drop (recv_pos base t) s)"
    by (simp add: drop_take)
  with run(1) show ?thesis by simp
qed

theorem reassembly_in_order_witness:
  "let (out, t') = reasm_run (recv_store 8) recv_deliver (tcb_new sample_build 0 0 8 60)
         [Store 2 [30, 40], Deliver, Store 0 [10, 20], Deliver, Deliver]
   in out = [10, 20, 30, 40] \<and> recv_pos 8 t' = 4"
proof -
  let ?t = "tcb_new sample_build 0 0 8 60"
  let ?s = "[10, 20, 30, 40, 50] :: bytes"
  let ?ops = "[Store 2 [30, 40], Deliver, Store 0 [10, 20], Deliver, Deliver]"
  have h: "recv_inv 8 ?t" "recv_pos 8 ?t \<le> length ?s" "8 + length ?s < 2 ^ 32" "genuine ?s ?ops"
    "\<forall>off d. recv_held 8 ?t off = Some d \<longrightarrow> fragment ?s off d"
    by (simp_all add: recv_inv_def btree_wf_def recv_pos_def recv_held_def genuine_def fragment_def
        tcb_new_def)
  obtain out t' where run: "reasm_run (recv_store 8) recv_deliver ?t ?ops = (out, t')"
    by (cases "reasm_run (recv_store 8) recv_deliver ?t ?ops")
  moreover have "length (fst (reasm_run (recv_store 8) recv_deliver ?t ?ops)) = 4" by code_simp
  ultimately have "length out = 4" by simp
  with reassembly_in_order [OF h run] run show ?thesis by (simp add: recv_pos_def tcb_new_def)
qed

text \<open>
  C39: segments that arrive in any order are put back together completely. Cut a stream
  into non-empty segments and store them, once each and in any permutation, in a fresh
  control block: as many deliveries as there are segments hand out the whole stream.
\<close>

theorem reassembly_any_order:
  assumes "[] \<notin> set segs" "base + length (concat segs) < 2 ^ 32"
    "mset arr = mset (offsets 0 segs)"
  shows "fst (reasm_run (recv_store base) recv_deliver
           (foldl (\<lambda>t (off, d). recv_store base t off d) (tcb_new b rnd now (of_nat base) timeout) arr)
           (replicate (length segs) Deliver)) = concat segs"
proof (rule tcb_recv.any_order [OF _ _ _ assms(1) _ assms(3)])
  let ?t = "tcb_new b rnd now (of_nat base) timeout"
  have "unat (of_nat base :: u32) = base" using assms(2) by (intro unat_of_nat_in_range) simp
  then show "recv_inv base ?t" "recv_pos base ?t = 0" "recv_held base ?t = Map.empty"
    by (simp_all add: recv_inv_def recv_pos_def recv_held_def btree_wf_def tcb_new_def fun_eq_iff Let_def)
  show "length (concat segs) < 2 ^ 32 - base" using assms(2) by simp
qed

theorem reassembly_any_order_witness:
  "fst (reasm_run (recv_store 8) recv_deliver
     (foldl (\<lambda>t (off, d). recv_store 8 t off d) (tcb_new sample_build 0 0 (of_nat 8) 60)
        [(3, [4]), (0, [1, 2]), (2, [3])])
     (replicate (length [[1, 2], [3], [4 :: u8]]) Deliver)) = concat [[1, 2], [3], [4]]"
proof -
  have h: "[] \<notin> set [[1, 2], [3], [4 :: u8]]" "8 + length (concat [[1, 2], [3], [4 :: u8]]) < 2 ^ 32"
    by simp_all
  have m: "mset [(3, [4]), (0, [1, 2]), (2, [3])] = mset (offsets 0 [[1, 2], [3], [4 :: u8]])"
    by (simp add: add_mset_commute numeral_2_eq_2 numeral_3_eq_3)
  show ?thesis by (rule reassembly_any_order [OF h m])
qed

end
