(* ===== verification/Tcp_Session.thy ===== *)
theory Tcp_Session
  imports Tcp_Reply Send_Buffer Reassembly
begin

text \<open>
  A TCP stream over its whole life: the calls an application and the runtime make on it,
  the invariant they keep, and what follows for whole runs.
\<close>

section \<open>The invariant\<close>

text \<open>
  The sending side per connection state: \<open>iss\<close> is the initial send sequence number and
  \<open>w\<close> a bound on the bytes written so far.
\<close>

definition sender_ok :: "u32 \<Rightarrow> nat \<Rightarrow> tcb \<Rightarrow> bool" where
  "sender_ok iss w t \<longleftrightarrow>
     (case tcb_state t of
        SynReceived sent \<Rightarrow> tcb_seq t = (if sent then iss + 1 else iss) \<and> tcb_last_ack t = iss
                            \<and> tcb_inflight_packets t = []
      | Established \<Rightarrow> (\<exists>ds. sender_rel t ds) \<and> unat (tcb_seq t) \<le> unat iss + 1 + w
      | _ \<Rightarrow> True)"

definition window_ok :: "nat \<Rightarrow> tcb \<Rightarrow> bool" where
  "window_ok c t \<longleftrightarrow> (let (avg, count) = tcb_avg_send_window t in
     unat avg \<le> 65535 \<and> 0 < count \<and> unat count \<le> c)"

text \<open>\<open>m\<close> bounds the segments stored for reassembly, \<open>c\<close> the window updates seen.\<close>

definition tcb_inv :: "u32 \<Rightarrow> nat \<Rightarrow> nat \<Rightarrow> nat \<Rightarrow> tcb \<Rightarrow> bool" where
  "tcb_inv iss m w c t \<longleftrightarrow>
     tcb_retransmission t = None \<and>
     (\<forall>(k, p) \<in> set (tcb_unordered_packets t). length (un_payload p) \<le> m) \<and>
     btree_wf (tcb_unordered_packets t) \<and> window_ok c t \<and> sender_ok iss w t"

definition sess_inv :: "u32 \<Rightarrow> nat \<Rightarrow> nat \<Rightarrow> nat \<Rightarrow> 'x tcp_stream \<Rightarrow> bool" where
  "sess_inv iss m w c s \<longleftrightarrow> family_ok s \<and> tcb_inv iss m w c (ts_tcb s)"

text \<open>The parts of the control block the invariant reads.\<close>

lemma sender_rel_cong:
  assumes "tcb_state t' = tcb_state t" "tcb_seq t' = tcb_seq t" "tcb_last_ack t' = tcb_last_ack t"
    "tcb_inflight_packets t' = tcb_inflight_packets t"
  shows "sender_rel t' = sender_rel t" "sender_ok iss w t' = sender_ok iss w t"
  unfolding sender_ok_def sender_rel_def assms by (rule refl)+

lemma tcb_inv_frame [simp]:
  "tcb_inv iss m w c (add_ack t n) \<longleftrightarrow> tcb_inv iss m w c t"
  "tcb_inv iss m w c (change_recv_window t r) \<longleftrightarrow> tcb_inv iss m w c t"
  "tcb_inv iss m w c (reset_timeout now t) \<longleftrightarrow> tcb_inv iss m w c t"
  unfolding tcb_inv_def window_ok_def tcb_setters by (simp_all cong: sender_rel_cong(2))

lemma tcb_inv_closing:
  assumes "tcb_inv iss m w c t" "st \<in> {FinWait1 True, FinWait1 False, FinWait2 True, FinWait2 False, Closed}"
  shows "tcb_inv iss m w c (change_state t st)"
    "tcb_inv iss m w c (change_state (add_seq_one t) st)"
    "tcb_inv iss m w c (change_state (add_ack (add_seq_one t) n) st)"
  using assms by (auto simp: tcb_inv_def window_ok_def sender_ok_def tcb_setters)

lemma tcb_inv_syn:
  "tcb_inv iss m w c t \<Longrightarrow> tcb_state t = SynReceived False \<Longrightarrow>
   tcb_inv iss m w c (change_state (add_seq_one t) (SynReceived True))"
  by (simp add: tcb_inv_def window_ok_def sender_ok_def tcb_setters)

lemma set_btree_insert: "set (btree_insert k v m) \<subseteq> insert (k, v) (set m)"
  by (induction k v m rule: btree_insert.induct) auto

lemma set_btree_remove: "set (btree_remove k m) \<subseteq> set m"
  by (induction k m rule: btree_remove.induct) auto

lemma tcb_inv_add_unordered:
  assumes "tcb_inv iss m w c t" "length p \<le> m"
  shows "tcb_inv iss m w c (add_unordered_packet t q p)"
proof -
  let ?t = "t\<lparr>tcb_unordered_packets := btree_insert q (unordered_new p) (tcb_unordered_packets t)\<rparr>"
  have "tcb_inv iss m w c ?t"
    using assms set_btree_insert [of q "unordered_new p" "tcb_unordered_packets t"]
    by (auto simp: tcb_inv_def window_ok_def unordered_new_def btree_wf_insert cong: sender_rel_cong(2))
  with assms(1) show ?thesis by (simp add: add_unordered_packet_def)
qed

lemma tcb_inv_get_unordered:
  assumes "tcb_inv iss m w c t" "get_unordered_packets t = (d, t')"
  shows "tcb_inv iss m w c t'" "d = Some p \<Longrightarrow> length p \<le> m"
proof -
  let ?t = "t\<lparr>tcb_unordered_packets := btree_remove (tcb_ack t) (tcb_unordered_packets t)\<rparr>"
  have "tcb_inv iss m w c ?t"
    using assms(1) set_btree_remove [of "tcb_ack t" "tcb_unordered_packets t"]
    by (auto simp: tcb_inv_def window_ok_def btree_wf_remove cong: sender_rel_cong(2))
  with assms show "tcb_inv iss m w c t'" by (auto simp: get_unordered_packets_def)
  show "d = Some p \<Longrightarrow> length p \<le> m"
    using assms by (auto simp: get_unordered_packets_def tcb_inv_def dest!: map_of_SomeD)
qed

section \<open>Flows that keep a predicate\<close>

fun flow_all :: "('x tcp_stream \<Rightarrow> bool) \<Rightarrow> 'x flow \<Rightarrow> bool" where
  "flow_all P (Proceed s) = P s"
| "flow_all P (Continue s) = P s"
| "flow_all P (Return s out r) = P s"

text \<open>The step does not panic, and wherever it ends \<open>P\<close> holds.\<close>

definition flow_ok :: "('x tcp_stream \<Rightarrow> bool) \<Rightarrow> 'x flow option \<Rightarrow> bool" where
  "flow_ok P m \<longleftrightarrow> (\<exists>f. m = Some f \<and> flow_all P f)"

named_theorems flow_intro \<open>introduction rules for flow_ok\<close>

lemma flow_ok_Some [flow_intro]:
  "P s \<Longrightarrow> flow_ok P (Some (Proceed s))" "P s \<Longrightarrow> flow_ok P (Some (Continue s))"
  "P s \<Longrightarrow> flow_ok P (Some (Return s out r))"
  by (simp_all add: flow_ok_def)

lemma flow_ok_then_do:
  "flow_ok P m \<Longrightarrow> (\<And>s. P s \<Longrightarrow> flow_ok P (k s)) \<Longrightarrow> flow_ok P (then_do m k)"
  by (auto simp: flow_ok_def then_do_def split: flow.splits)

lemma flow_ok_with_packet:
  assumes "etherparse_ok ep" "family_ok s"
    "\<And>p. is_reply ep s fl tt sq payload p \<Longrightarrow> flow_ok P (k p)"
  shows "flow_ok P (with_packet (tcp_create_rev_packet b ep s fl tt sq payload) s0 out k)"
proof -
  obtain p where "tcp_create_rev_packet b ep s fl tt sq payload = Some (Inr p)"
      "is_reply ep s fl tt sq payload p"
    using tcp_create_rev_packet_ok [OF assms(1,2)] .
  then show ?thesis using assms(3) by (simp add: with_packet_def)
qed

lemma flow_ok_send_or_eof:
  "P s \<Longrightarrow> (P (s\<lparr>ts_sent := ts_sent s @ [p]\<rparr>) \<Longrightarrow> flow_ok P (k (s\<lparr>ts_sent := ts_sent s @ [p]\<rparr>))) \<Longrightarrow>
   P (s\<lparr>ts_sent := ts_sent s @ [p]\<rparr>) \<Longrightarrow> flow_ok P (send_or_eof cx s out p k)"
  by (simp add: send_or_eof_def mpsc_send_def flow_ok_def)

section \<open>Before receiving\<close>

text \<open>The predicate carried through a \<open>poll_read\<close> with room for \<open>cap\<close> bytes.\<close>

definition read_inv :: "u32 \<Rightarrow> nat \<Rightarrow> nat \<Rightarrow> nat \<Rightarrow> nat \<Rightarrow> 'x tcp_stream \<Rightarrow> bool" where
  "read_inv iss m w c cap s \<longleftrightarrow> sess_inv iss m w c s \<and> (ts_shutdown s = ShutdownNone \<longrightarrow> m \<le> cap)"

lemma read_inv_family: "read_inv iss m w c cap s \<Longrightarrow> family_ok s"
  by (simp add: read_inv_def sess_inv_def)

text \<open>Updates outside the invariant.\<close>

lemma read_inv_frame [simp]:
  "read_inv iss m w c cap (s\<lparr>ts_sent := a\<rparr>) \<longleftrightarrow> read_inv iss m w c cap s"
  "read_inv iss m w c cap (s\<lparr>ts_packet_to_send := b\<rparr>) \<longleftrightarrow> read_inv iss m w c cap s"
  "read_inv iss m w c cap (s\<lparr>ts_write_notify := d\<rparr>) \<longleftrightarrow> read_inv iss m w c cap s"
  "read_inv iss m w c cap (notify_writer s) \<longleftrightarrow> read_inv iss m w c cap s"
  by (simp_all add: read_inv_def sess_inv_def family_ok_def)

lemma read_inv_upd:
  "read_inv iss m w c cap s \<Longrightarrow> tcb_inv iss m w c' (f (ts_tcb s)) \<Longrightarrow> read_inv iss m w c' cap (upd_tcb f s)"
  "read_inv iss m w c cap s \<Longrightarrow> tcb_inv iss m w c' t \<Longrightarrow> read_inv iss m w c' cap (s\<lparr>ts_tcb := t\<rparr>)"
  by (simp_all add: read_inv_def sess_inv_def family_ok_def)

lemma read_inv_tcb: "read_inv iss m w c cap s \<Longrightarrow> tcb_inv iss m w c (ts_tcb s)"
  by (simp add: read_inv_def sess_inv_def)

lemma read_inv_shutdown_ready: "read_inv iss m w c cap s \<Longrightarrow> read_inv iss m w c cap (shutdown_ready s)"
  by (simp add: read_inv_def sess_inv_def family_ok_def)

lemma read_inv_closing:
  assumes "read_inv iss m w c cap s"
    "st \<in> {FinWait1 True, FinWait1 False, FinWait2 True, FinWait2 False, Closed}"
  shows "read_inv iss m w c cap (set_state st s)"
    "read_inv iss m w c cap (set_state st (upd_tcb add_seq_one s))"
    "read_inv iss m w c cap (set_state st (upd_tcb (\<lambda>t. add_ack (add_seq_one t) n) s))"
  using assms tcb_inv_closing [OF read_inv_tcb [OF assms(1)] assms(2)]
  by (simp_all add: read_inv_def sess_inv_def family_ok_def)

lemmas read_inv_intro = flow_ok_with_packet flow_ok_send_or_eof flow_intro read_inv_family
  read_inv_shutdown_ready read_inv_closing

lemma read_retransmission_ok:
  "read_inv iss m w c cap s \<Longrightarrow> flow_ok (read_inv iss m w c cap) (read_retransmission b ep cx s)"
  by (simp add: read_retransmission_def read_inv_def sess_inv_def tcb_inv_def flow_ok_def)

lemma read_send_pending_ok:
  "read_inv iss m w c cap s \<Longrightarrow> flow_ok (read_inv iss m w c cap) (read_send_pending cx s)"
  by (auto simp: read_send_pending_def split: option.splits intro!: read_inv_intro)

lemma read_closed_ok:
  assumes "etherparse_ok ep" "read_inv iss m w c cap s"
  shows "flow_ok (read_inv iss m w c cap) (read_closed b ep s)"
  using assms unfolding read_closed_def by (auto intro!: read_inv_intro)

lemma read_timeout_ok:
  assumes "etherparse_ok ep" "read_inv iss m w c cap s"
  shows "flow_ok (read_inv iss m w c cap) (read_timeout b ep cx s)"
proof -
  let ?s = "upd_tcb (\<lambda>t. change_recv_window t (of_nat (get_available_read_buffer_size t))) s"
  have s: "read_inv iss m w c cap ?s" "read_inv iss m w c cap (upd_tcb (reset_timeout (cx_now cx)) ?s)"
    using assms(2) by (simp_all add: read_inv_def sess_inv_def family_ok_def)
  then show ?thesis
    using assms(1) unfolding read_timeout_def Let_def by (auto intro!: read_inv_intro)
qed

lemma read_syn_ok:
  assumes "etherparse_ok ep" "read_inv iss m w c cap s"
  shows "flow_ok (read_inv iss m w c cap) (read_syn b ep s)"
proof -
  have "read_inv iss m w c cap
      (set_state (SynReceived True) (upd_tcb add_seq_one (s\<lparr>ts_packet_to_send := Some p\<rparr>)))"
    if "st_of s = SynReceived False" for p
    using assms(2) tcb_inv_syn [OF read_inv_tcb [OF assms(2)]] that
    by (simp add: read_inv_def sess_inv_def family_ok_def get_state_def)
  with assms show ?thesis
    unfolding read_syn_def
    by (auto intro!: flow_ok_with_packet flow_intro intro: read_inv_family)
qed

lemma read_deliver_ok:
  assumes "etherparse_ok ep" "read_inv iss m w c cap s"
  shows "flow_ok (read_inv iss m w c cap) (read_deliver b ep cx cap s)"
proof -
  obtain d t where g: "get_unordered_packets (ts_tcb s) = (d, t)" by force
  note t = tcb_inv_get_unordered [OF read_inv_tcb [OF assms(2)] g]
  have s: "read_inv iss m w c cap (s\<lparr>ts_tcb := t\<rparr>)"
      "read_inv iss m w c cap (upd_tcb (\<lambda>t. add_ack t n) (s\<lparr>ts_tcb := t\<rparr>))" for n
    using assms(2) t(1) by (auto intro: read_inv_upd)
  show ?thesis
  proof (cases "ts_shutdown s = ShutdownNone \<and> d \<noteq> None")
    case True
    then obtain p where p: "d = Some p" by auto
    have "length p \<le> cap" using t(2) [OF p] True assms(2) by (simp add: read_inv_def)
    then have "put_slice cap p = Some p" by (simp add: put_slice_def)
    with True s assms(1) g p show ?thesis
      by (auto simp: read_deliver_def Let_def intro!: read_inv_intro)
  next
    case False
    with s g have "read_deliver b ep cx cap s = Some (Proceed (s\<lparr>ts_tcb := t\<rparr>))"
      by (auto simp: read_deliver_def Let_def)
    with s(1) show ?thesis by (simp add: flow_intro)
  qed
qed

lemma read_fin_ok:
  assumes "etherparse_ok ep" "read_inv iss m w c cap s"
  shows "flow_ok (read_inv iss m w c cap) (read_fin b ep s)"
  using assms unfolding read_fin_def by (auto intro!: read_inv_intro)

lemma before_recv_ok:
  assumes "etherparse_ok ep" "read_inv iss m w c cap s"
  shows "flow_ok (read_inv iss m w c cap) (before_recv b ep cx cap s)"
  unfolding before_recv_def using assms
  by (intro flow_ok_then_do read_retransmission_ok read_send_pending_ok read_closed_ok read_timeout_ok
      read_syn_ok read_deliver_ok read_fin_ok)

section \<open>One received packet\<close>

lemma flow_ok_upd_tcb_opt:
  "f (ts_tcb s) = Some t \<Longrightarrow> flow_ok P (k (s\<lparr>ts_tcb := t\<rparr>)) \<Longrightarrow> flow_ok P (upd_tcb_opt f s \<bind> k)"
  by (simp add: upd_tcb_opt_def)

lemma tcb_inv_mono: "tcb_inv iss m w c t \<Longrightarrow> c \<le> c' \<Longrightarrow> tcb_inv iss m w c' t"
  by (auto simp: tcb_inv_def window_ok_def split: prod.splits)

lemma read_inv_mono: "read_inv iss m w c cap s \<Longrightarrow> c \<le> c' \<Longrightarrow> read_inv iss m w c' cap s"
  by (auto simp: read_inv_def sess_inv_def intro: tcb_inv_mono)

lemma window_ok_change:
  assumes "window_ok c t" "c < 2 ^ 47"
  obtains a where "change_send_window b t x = Some (t\<lparr>tcb_avg_send_window := a, tcb_send_window := x\<rparr>)"
    "window_ok (c + 1) (t\<lparr>tcb_avg_send_window := a, tcb_send_window := x\<rparr>)"
proof -
  obtain avg count where a: "tcb_avg_send_window t = (avg, count)" by force
  from assms a have bounds: "unat avg \<le> 65535" "0 < unat count" "unat count \<le> c" "avg_wf t"
    by (auto simp: window_ok_def avg_wf_def unat_gt_0_iff)
  note eq = change_send_window_eq [OF a bounds(4)]
  have "unat ((avg * count + ucast x) div (count + 1)) \<le> 65535"
    using mean_between(2) [OF bounds(2), of "unat avg" "unat x"] bounds(1) unat_u16_le [of x]
    unfolding eq(2) by simp
  moreover have "0 < count + 1" using eq(3) unat_gt_0_iff [of "count + 1"] by (simp add: word_gt_0)
  ultimately show thesis using that [OF eq(1)] bounds(3) eq(3) by (simp add: window_ok_def)
qed

lemma tcb_inv_change_send_window:
  assumes "tcb_inv iss m w c t" "c < 2 ^ 47"
  obtains t' where "change_send_window b t x = Some t'" "tcb_inv iss m w (c + 1) t'"
    "tcb_state t' = tcb_state t" "tcb_seq t' = tcb_seq t" "tcb_last_ack t' = tcb_last_ack t"
    "tcb_ack t' = tcb_ack t" "tcb_inflight_packets t' = tcb_inflight_packets t"
proof -
  from assms(1) have "window_ok c t" by (simp add: tcb_inv_def)
  from window_ok_change [OF this assms(2), of b x] obtain a
    where a: "change_send_window b t x = Some (t\<lparr>tcb_avg_send_window := a, tcb_send_window := x\<rparr>)"
      "window_ok (c + 1) (t\<lparr>tcb_avg_send_window := a, tcb_send_window := x\<rparr>)" by blast
  have "tcb_inv iss m w (c + 1) (t\<lparr>tcb_avg_send_window := a, tcb_send_window := x\<rparr>)"
    using assms(1) a(2) by (simp add: tcb_inv_def cong: sender_rel_cong(2))
  with that [OF a(1)] show thesis by simp
qed

text \<open>What a packet that is not invalid acknowledges, as long as nothing has wrapped.\<close>

lemma check_pkt_type_valid:
  assumes "seq_unwrapped t" "check_pkt_type t h p \<noteq> Invalid"
  shows "unat (tcb_last_ack t) \<le> unat (tcp_acknowledgment_number (inner h))"
    "unat (tcp_acknowledgment_number (inner h)) \<le> unat (tcb_seq t)"
proof -
  from assms(1) have "tcb_last_ack t \<le> tcb_seq t" by (simp add: seq_unwrapped_def)
  from ack_window_unwrapped [OF this, of "tcp_acknowledgment_number (inner h)"] assms(2)
  show "unat (tcb_last_ack t) \<le> unat (tcp_acknowledgment_number (inner h))"
    "unat (tcp_acknowledgment_number (inner h)) \<le> unat (tcb_seq t)"
    by (auto simp: check_pkt_type_def Let_def word_le_nat_alt split: if_splits)
qed

lemma check_pkt_type_retransmission:
  assumes "check_pkt_type t h p = RetransmissionRequest"
  shows "tcp_acknowledgment_number (inner h) = tcb_last_ack t" "tcb_seq t \<noteq> tcb_last_ack t"
  using assms by (auto simp: check_pkt_type_def Let_def split: if_splits)

lemma sender_established:
  assumes "tcb_inv iss m w c t" "tcb_state t = Established"
  obtains ds where "sender_rel t ds" "seq_unwrapped t"
proof -
  from assms obtain ds where ds: "sender_rel t ds" by (auto simp: tcb_inv_def sender_ok_def)
  from sender_rel_length [OF this] have "seq_unwrapped t"
    by (simp add: seq_unwrapped_def word_le_nat_alt)
  with ds that show thesis by blast
qed

lemma tcb_inv_change_last_ack:
  assumes "tcb_inv iss m w c t" "tcb_state t = Established" "check_pkt_type t h p \<noteq> Invalid"
  obtains t' where "change_last_ack b t (tcp_acknowledgment_number (inner h)) = Some t'"
    "tcb_inv iss m w c t'" "tcb_state t' = Established" "tcb_ack t' = tcb_ack t"
proof -
  let ?a = "tcp_acknowledgment_number (inner h)"
  obtain ds where ds: "sender_rel t ds" "seq_unwrapped t" using sender_established [OF assms(1,2)] .
  note le = check_pkt_type_valid [OF ds(2) assms(3)]
  obtain ps where ps: "change_last_ack b t ?a = Some (t\<lparr>tcb_last_ack := ?a, tcb_inflight_packets := ps\<rparr>)"
      "sender_rel (t\<lparr>tcb_last_ack := ?a, tcb_inflight_packets := ps\<rparr>) (drop (unat ?a - unat (tcb_last_ack t)) ds)"
    using change_last_ack_refines [OF ds(1) le, of b] by blast
  have "tcb_inv iss m w c (t\<lparr>tcb_last_ack := ?a, tcb_inflight_packets := ps\<rparr>)"
    using assms(1,2) ps(2) by (auto simp: tcb_inv_def sender_ok_def window_ok_def)
  with that [OF ps(1)] assms(2) show thesis by simp
qed

text \<open>A packet in the established state: the acknowledgement, an update, the window.\<close>

lemma ack_then_window:
  assumes "tcb_inv iss m w c t" "tcb_state t = Established" "c < 2 ^ 47"
    "check_pkt_type t h p \<noteq> Invalid" "\<And>t. tcb_inv iss m w c t \<Longrightarrow> tcb_inv iss m w c (f t)"
  obtains t1 t2 where "change_last_ack b t (tcp_acknowledgment_number (inner h)) = Some t1"
    "change_send_window b (f t1) x = Some t2" "tcb_inv iss m w (c + 1) t2" "tcb_inv iss m w c t1"
    "tcb_ack t1 = tcb_ack t"
proof -
  obtain t1 where t1: "change_last_ack b t (tcp_acknowledgment_number (inner h)) = Some t1"
      "tcb_inv iss m w c t1" "tcb_ack t1 = tcb_ack t"
    using tcb_inv_change_last_ack [OF assms(1,2,4)] by metis
  obtain t2 where "change_send_window b (f t1) x = Some t2" "tcb_inv iss m w (c + 1) t2"
    using tcb_inv_change_send_window [OF assms(5) [OF t1(2)] assms(3)] by metis
  with that t1 show thesis by blast
qed

lemma poll_flush_retransmits:
  assumes "etherparse_ok ep" "read_inv iss m w c cap s" "tcb_state (ts_tcb s) = Established"
    "tcb_seq (ts_tcb s) \<noteq> tcb_last_ack (ts_tcb s)"
  shows "\<exists>s' x. poll_flush b ep cx (upd_tcb (\<lambda>t. t\<lparr>tcb_retransmission := Some (tcb_last_ack (ts_tcb s))\<rparr>) s) =
           Some (s', Ready x) \<and> read_inv iss m w c cap s'"
proof -
  let ?s = "upd_tcb (\<lambda>t. t\<lparr>tcb_retransmission := Some (tcb_last_ack (ts_tcb s))\<rparr>) s"
  note inv = read_inv_tcb [OF assms(2)]
  obtain ds where ds: "sender_rel (ts_tcb s) ds" using sender_established [OF inv assms(3)] .
  with assms(4) have "ds \<noteq> []" using sender_rel_length [OF ds] by (auto simp: word_unat_eq_iff)
  from resend_bytes_refines [OF ds this] obtain p
    where p: "find (\<lambda>p. if_seq p = tcb_last_ack (ts_tcb s)) (tcb_inflight_packets (ts_tcb s)) = Some p"
    by (auto simp: resend_bytes_def get_last_ack_def)
  have s: "upd_tcb (\<lambda>t. t\<lparr>tcb_retransmission := None\<rparr>) ?s = s"
    using inv by (simp add: upd_tcb_def tcb_inv_def)
  obtain q where "tcp_create_rev_packet b ep s (PSH OR ACK) (TTL b) (Some (if_seq p)) (if_payload p) = Some (Inr q)"
    using tcp_create_rev_packet_ok [OF assms(1) read_inv_family [OF assms(2)]] .
  with p s assms(2,3) show ?thesis
    by (auto simp: poll_flush_def Let_def get_state_def mpsc_send_def)
qed

lemma recv_established_ack_ok:
  assumes "etherparse_ok ep" "read_inv iss m w c cap s" "tcb_state (ts_tcb s) = Established" "c < 2 ^ 47"
    "length p \<le> m" "check_pkt_type (ts_tcb s) h p \<noteq> Invalid"
  shows "flow_ok (read_inv iss m w (c + 1) cap) (recv_established_ack b ep cx h p s)"
proof -
  note inv = read_inv_tcb [OF assms(2)]
  let ?w = "tcp_window_size (inner h)"
  have store: "tcb_inv iss m w c t \<Longrightarrow> tcb_inv iss m w c (add_unordered_packet t q p)" for t q
    using tcb_inv_add_unordered assms(5) by blast
  obtain t1 t2 where t: "change_last_ack b (ts_tcb s) (tcp_acknowledgment_number (inner h)) = Some t1"
      "change_send_window b t1 ?w = Some t2" "tcb_inv iss m w (c + 1) t2"
    using ack_then_window [OF inv assms(3,4,6), where f = "\<lambda>t. t" and b = b and x = ?w] by metis
  obtain t3 where t3: "change_send_window b (add_unordered_packet t1 (tcp_sequence_number (inner h)) p) ?w = Some t3"
      "tcb_inv iss m w (c + 1) t3"
    using ack_then_window [OF inv assms(3,4,6), where b = b and x = ?w
      and f = "\<lambda>t. add_unordered_packet t (tcp_sequence_number (inner h)) p"] store t(1)
    by (metis option.inject)
  obtain t4 where t4: "change_send_window b (ts_tcb s) ?w = Some t4" "tcb_inv iss m w (c + 1) t4"
      "tcb_state t4 = Established" "tcb_seq t4 = tcb_seq (ts_tcb s)" "tcb_last_ack t4 = tcb_last_ack (ts_tcb s)"
    using tcb_inv_change_send_window [OF inv assms(4), of b ?w] assms(3) by metis
  have s: "read_inv iss m w (c + 1) cap (s\<lparr>ts_tcb := t\<rparr>)" if "tcb_inv iss m w (c + 1) t" for t
    using read_inv_upd(2) [OF assms(2) that] .
  show ?thesis
  proof (cases "check_pkt_type (ts_tcb s) h p = RetransmissionRequest")
    case True
    note r = check_pkt_type_retransmission [OF True]
    have "tcb_seq (ts_tcb (s\<lparr>ts_tcb := t4\<rparr>)) \<noteq> tcb_last_ack (ts_tcb (s\<lparr>ts_tcb := t4\<rparr>))"
      using r(2) t4 by simp
    from poll_flush_retransmits [OF assms(1) s [OF t4(2)] _ this, of b cx] obtain s' x
      where "poll_flush b ep cx (upd_tcb (\<lambda>t. t\<lparr>tcb_retransmission := Some (tcb_last_ack t4)\<rparr>) (s\<lparr>ts_tcb := t4\<rparr>)) =
          Some (s', Ready x)" "read_inv iss m w (c + 1) cap s'"
      using t4(3) by auto
    with True r(1) t4 show ?thesis
      by (simp add: recv_established_ack_def Let_def upd_tcb_opt_def flow_intro)
  next
    case False
    with assms(1,6) t t3 t4 s show ?thesis
      unfolding recv_established_ack_def Let_def
      by (cases "check_pkt_type (ts_tcb s) h p")
         (auto simp: upd_tcb_opt_def upd_tcb_def intro!: flow_ok_with_packet flow_intro intro: read_inv_family)
  qed
qed

lemma recv_established_ok:
  assumes "etherparse_ok ep" "read_inv iss m w c cap s" "tcb_state (ts_tcb s) = Established" "c < 2 ^ 47"
    "length p \<le> m" "check_pkt_type (ts_tcb s) h p \<noteq> Invalid"
  shows "flow_ok (read_inv iss m w (c + 1) cap) (recv_established b ep cx h p s)"
proof -
  note inv = read_inv_tcb [OF assms(2)]
  have s: "read_inv iss m w (c + 1) cap s" using read_inv_mono [OF assms(2)] by simp
  have fin: "read_inv iss m w (c + 1) cap (upd_tcb (\<lambda>tcb. add_ack tcb 1) s)"
    using s read_inv_tcb [OF s] by (auto intro: read_inv_upd)
  let ?w = "tcp_window_size (inner h)"
  obtain t1 t2 where t: "change_last_ack b (ts_tcb s) (tcp_acknowledgment_number (inner h)) = Some t1"
      "change_send_window b t1 ?w = Some t2" "tcb_inv iss m w (c + 1) t2" "tcb_inv iss m w c t1"
    using ack_then_window [OF inv assms(3,4,6), where f = "\<lambda>t. t" and b = b and x = ?w] by metis
  have r: "read_inv iss m w (c + 1) cap (s\<lparr>ts_tcb := t1\<rparr>)"
      "read_inv iss m w (c + 1) cap (s\<lparr>ts_tcb := add_unordered_packet t2 q p\<rparr>)" for q
    using read_inv_upd(2) [OF assms(2)] tcb_inv_mono [OF t(4)] tcb_inv_add_unordered [OF t(3) assms(5)]
    by auto
  consider "flags h = ACK" | "flags h \<noteq> ACK" "flags h = (FIN OR ACK)"
    | "flags h \<noteq> ACK" "flags h \<noteq> (FIN OR ACK)" "flags h = (PSH OR ACK)"
    | "flags h \<noteq> ACK" "flags h \<noteq> (FIN OR ACK)" "flags h \<noteq> (PSH OR ACK)" by blast
  then show ?thesis
  proof cases
    case 1
    with recv_established_ack_ok [OF assms] show ?thesis by (simp add: recv_established_def)
  next
    case 2
    with fin assms(1) show ?thesis
      by (simp add: recv_established_def Let_def read_inv_intro)
  next
    case 3
    with s r t show ?thesis
      by (simp add: recv_established_def upd_tcb_opt_def upd_tcb_def flow_intro)
  next
    case 4
    with s show ?thesis by (simp add: recv_established_def flow_intro)
  qed
qed

text \<open>
  A packet the stream is prepared for: TCP (the stack hands no other to the stream), no
  longer than \<open>m\<close>, and not acknowledging the initial sequence number itself, which a
  peer that has seen the SYN/ACK never does.
\<close>

definition good_packet :: "u32 \<Rightarrow> nat \<Rightarrow> 'x network_packet \<Rightarrow> bool" where
  "good_packet iss m p \<longleftrightarrow> length (np_payload p) \<le> m \<and>
     (case np_transport p of Tcp h \<Rightarrow> tcp_acknowledgment_number h \<noteq> iss | _ \<Rightarrow> False)"

lemma change_last_ack_not_established:
  "tcb_state t \<noteq> Established \<Longrightarrow> change_last_ack b t a = Some (t\<lparr>tcb_last_ack := a\<rparr>)"
  by (simp add: change_last_ack_def Let_def)

lemma unat_succ: "unat (x :: u32) + 1 < 2 ^ 32 \<Longrightarrow> unat (x + 1) = unat x + 1"
  by (subst unat_add_in_range) simp_all

lemma tcb_inv_handshake:
  assumes "tcb_inv iss m w c t" "tcb_state t = SynReceived True" "unat iss + 1 < 2 ^ 32"
    "check_pkt_type t h p \<noteq> Invalid" "tcp_acknowledgment_number (inner h) \<noteq> iss" "c < 2 ^ 47"
  obtains t' where "change_send_window b (t\<lparr>tcb_last_ack := tcp_acknowledgment_number (inner h)\<rparr>) x = Some t'"
    "tcb_inv iss m w (c + 1) (change_state t' Established)"
proof -
  let ?a = "tcp_acknowledgment_number (inner h)"
  from assms(1,2) have t: "tcb_seq t = iss + 1" "tcb_last_ack t = iss" "tcb_inflight_packets t = []"
    by (simp_all add: tcb_inv_def sender_ok_def)
  have "seq_unwrapped t" using t unat_succ [OF assms(3)] by (simp add: seq_unwrapped_def word_le_nat_alt)
  from check_pkt_type_valid [OF this assms(4)] t assms(5)
  have a: "?a = iss + 1" unfolding word_unat_eq_iff unat_succ [OF assms(3)] by simp
  have win: "window_ok c (t\<lparr>tcb_last_ack := ?a\<rparr>)"
    using assms(1) by (simp add: tcb_inv_def window_ok_def)
  obtain av where av: "change_send_window b (t\<lparr>tcb_last_ack := ?a\<rparr>) x =
        Some (t\<lparr>tcb_last_ack := ?a, tcb_avg_send_window := av, tcb_send_window := x\<rparr>)"
      "window_ok (c + 1) (t\<lparr>tcb_last_ack := ?a, tcb_avg_send_window := av, tcb_send_window := x\<rparr>)"
    using window_ok_change [OF win assms(6), of b x] by metis
  have "sender_rel (t\<lparr>tcb_last_ack := ?a, tcb_avg_send_window := av, tcb_send_window := x,
      tcb_state := Established\<rparr>) []"
    using t a by (simp add: sender_rel_def tiles_def)
  then show thesis
    using that [OF av(1)] assms(1) av(2) t(1) unat_succ [OF assms(3)]
    by (auto simp: tcb_inv_def window_ok_def sender_ok_def change_state_def)
qed

lemma recv_syn_received_ok:
  assumes "read_inv iss m w c cap s" "tcb_state (ts_tcb s) = SynReceived True" "unat iss + 1 < 2 ^ 32"
    "check_pkt_type (ts_tcb s) h p \<noteq> Invalid" "tcp_acknowledgment_number (inner h) \<noteq> iss" "c < 2 ^ 47"
  shows "flow_ok (read_inv iss m w (c + 1) cap) (recv_syn_received b h s)"
proof -
  obtain t' where t': "change_send_window b ((ts_tcb s)\<lparr>tcb_last_ack := tcp_acknowledgment_number (inner h)\<rparr>)
        (tcp_window_size (inner h)) = Some t'"
      "tcb_inv iss m w (c + 1) (change_state t' Established)"
    using tcb_inv_handshake [OF read_inv_tcb [OF assms(1)] assms(2-6)] .
  with read_inv_mono [OF assms(1), of "c + 1"] read_inv_upd(2) [OF assms(1) t'(2)] assms(2) show ?thesis
    by (simp add: recv_syn_received_def upd_tcb_opt_def upd_tcb_def change_last_ack_not_established flow_intro)
qed

lemma recv_fin_wait1_ok:
  assumes "etherparse_ok ep" "read_inv iss m w c cap s" "tcb_state (ts_tcb s) = FinWait1 False" "c < 2 ^ 47"
  shows "flow_ok (read_inv iss m w (c + 1) cap) (recv_fin_wait1 b ep h s)"
proof -
  have s: "read_inv iss m w (c + 1) cap s" using read_inv_mono [OF assms(2)] by simp
  have "tcb_inv iss m w c (add_ack (ts_tcb s) 1)" using read_inv_tcb [OF assms(2)] by simp
  from tcb_inv_change_send_window [OF this assms(4)]
  obtain t where t: "change_send_window b (add_ack (ts_tcb s) 1) (tcp_window_size (inner h)) = Some t"
    "tcb_inv iss m w (c + 1) t" by metis
  have a: "read_inv iss m w (c + 1) cap (s\<lparr>ts_tcb := change_state (add_ack ((ts_tcb s)\<lparr>tcb_last_ack := x\<rparr>) 1) (FinWait2 True)\<rparr>)"
    for x using s by (simp add: read_inv_def sess_inv_def family_ok_def tcb_inv_def window_ok_def
        sender_ok_def tcb_setters)
  have f: "read_inv iss m w (c + 1) cap (s\<lparr>ts_packet_to_send := q, ts_tcb := change_state t (FinWait2 True)\<rparr>)" for q
    using s tcb_inv_closing(1) [OF t(2)] by (simp add: read_inv_def sess_inv_def family_ok_def)
  have g: "read_inv iss m w (c + 1) cap (upd_tcb (\<lambda>tcb. add_ack tcb 1) s)"
    using s by (simp add: read_inv_def sess_inv_def family_ok_def)
  from read_inv_family [OF g] have "family_ok (s\<lparr>ts_tcb := add_ack (ts_tcb s) 1\<rparr>)" by (simp add: upd_tcb_def)
  with s a f t assms(1,3) show ?thesis
    by (auto simp: recv_fin_wait1_def upd_tcb_opt_def upd_tcb_def change_last_ack_not_established Let_def
        intro!: flow_ok_with_packet flow_intro)
qed

lemma recv_packet_ok:
  assumes "etherparse_ok ep" "read_inv iss m w c cap s" "good_packet iss m p" "unat iss + 1 < 2 ^ 32" "c < 2 ^ 47"
  shows "flow_ok (read_inv iss m w (c + 1) cap) (recv_packet b ep cx p s)"
proof -
  from assms(3) obtain h where h: "np_transport p = Tcp h" "tcp_acknowledgment_number h \<noteq> iss"
      "length (np_payload p) \<le> m"
    by (auto simp: good_packet_def split: transport_header.splits)
  let ?t = "wrapper_from h"
  have i: "transport_protocol p = ProtoTcp ?t" "tcp_acknowledgment_number (inner ?t) \<noteq> iss"
    using h by (simp_all add: transport_protocol_def inner_def wrapper_from_def)
  have s: "read_inv iss m w (c + 1) cap s" using read_inv_mono [OF assms(2)] by simp
  have fw2: "flow_ok (read_inv iss m w (c + 1) cap) (recv_fin_wait2 b ep ?t s)"
    using s assms(1) unfolding recv_fin_wait2_def by (auto intro!: read_inv_intro)
  show ?thesis
    using s assms(1) fw2 recv_syn_received_ok [OF assms(2) _ assms(4) _ i(2) assms(5)]
      recv_established_ok [OF assms(1,2) _ assms(5) h(3)] recv_fin_wait1_ok [OF assms(1,2) _ assms(5)]
    unfolding recv_packet_def i(1) get_state_def
    by (auto intro!: read_inv_intro)
qed

section \<open>Whole calls\<close>

text \<open>
  Reasoning about the loop once and for all. A step settles on \<open>R\<close> if it returns a result
  that satisfies \<open>R\<close>, or if it panics and \<open>N\<close> allows it. \<open>flow_to P Q\<close> is a
  pass that goes on with \<open>P\<close> or returns with \<open>Q\<close>.
\<close>

definition settles :: "bool \<Rightarrow> ('a \<Rightarrow> bool) \<Rightarrow> 'a option \<Rightarrow> bool" where
  "settles N R m \<longleftrightarrow> (case m of None \<Rightarrow> N | Some x \<Rightarrow> R x)"

lemma settles_simps [simp]: "settles N R None = N" "settles N R (Some x) = R x"
  by (simp_all add: settles_def)

fun flow_to :: "('x tcp_stream \<Rightarrow> bool) \<Rightarrow> ('x tcp_stream \<Rightarrow> bytes \<Rightarrow> bool) \<Rightarrow> 'x flow \<Rightarrow> bool" where
  "flow_to P Q (Proceed s) = P s"
| "flow_to P Q (Continue s) = P s"
| "flow_to P Q (Return s out r) = Q s out"

lemma poll_read_loop_settles:
  assumes "P rs s"
    and before: "\<And>rs s. P rs s \<Longrightarrow> settles N (flow_to (P rs) Q) (before_recv b ep cx cap s)"
    and stop: "\<And>rs s. P rs s \<Longrightarrow> Q s []"
    and recv: "\<And>p rs s. P (Some p # rs) s \<Longrightarrow> settles N (flow_to (P rs) Q) (recv_packet b ep cx p s)"
  shows "settles N (\<lambda>(s', out, r). Q s' out) (poll_read_loop b ep cx cap rs s)"
  using assms(1) before recv
proof (induction b ep cx cap rs s rule: poll_read_loop.induct)
  case (1 b ep cx cap rs s)
  note b = 1(5) [OF 1(4)]
  note loop = poll_read_loop.simps [of b ep cx cap rs s]
  show ?case
  proof (cases "before_recv b ep cx cap s")
    case (Some f)
    show ?thesis
    proof (cases f)
      case (Continue s1)
      with b Some 1(3) [OF Some Continue _ 1(5,6)] show ?thesis unfolding loop by simp
    next
      case (Proceed s1)
      with b Some have s1: "P rs s1" by simp
      show ?thesis
      proof (cases "\<exists>p rs'. rs = Some p # rs'")
        case True
        then obtain p rs' where rs: "rs = Some p # rs'" by blast
        have r: "settles N (flow_to (P rs') Q) (recv_packet b ep cx p s1)" using 1(6) s1 rs by blast
        show ?thesis
        proof (cases "recv_packet b ep cx p s1")
          case None
          with Some Proceed rs r show ?thesis unfolding loop by simp
        next
          case g: (Some g)
          with Some Proceed rs r 1(2) [OF Some Proceed rs refl g _ _ 1(5,6)] 1(1) [OF Some Proceed rs refl g _ _ 1(5,6)]
          show ?thesis unfolding loop by (cases g) simp_all
        qed
      next
        case False
        with Some Proceed stop [OF s1] show ?thesis unfolding loop by (auto split: list.splits option.splits)
      qed
    qed (use b Some loop in simp)
  qed (use b loop in simp)
qed

lemma flow_all_to: "flow_all P = flow_to P (\<lambda>s _. P s)"
proof (rule ext)
  fix f show "flow_all P f = flow_to P (\<lambda>s _. P s) f" by (cases f) simp_all
qed

lemma flow_to_mono: "flow_to P Q f \<Longrightarrow> (\<And>s. P s \<Longrightarrow> P' s) \<Longrightarrow> (\<And>s out. Q s out \<Longrightarrow> Q' s out) \<Longrightarrow> flow_to P' Q' f"
  by (cases f) simp_all

text \<open>The same for a call that returns, with steps that are the same in every iteration.\<close>

lemma poll_read_loop_ends:
  assumes "poll_read_loop b ep cx cap rs s = Some (s', out, r)" "P s" "\<And>s. P s \<Longrightarrow> Q s []"
    "\<And>s f. P s \<Longrightarrow> before_recv b ep cx cap s = Some f \<Longrightarrow> flow_to P Q f"
    "\<And>p s f. P s \<Longrightarrow> Some p \<in> set rs \<Longrightarrow> recv_packet b ep cx p s = Some f \<Longrightarrow> flow_to P Q f"
  shows "Q s' out"
proof -
  let ?P = "\<lambda>rs' s. P s \<and> set rs' \<subseteq> set rs"
  have to: "settles True (flow_to (?P rs') Q) m" if m: "set rs' \<subseteq> set rs" "\<And>f. m = Some f \<Longrightarrow> flow_to P Q f" for m rs'
  proof (cases m)
    case (Some f)
    with m show ?thesis by (auto elim!: flow_to_mono)
  qed simp
  have "settles True (\<lambda>(s', out, r). Q s' out) (poll_read_loop b ep cx cap rs s)"
  proof (rule poll_read_loop_settles [where P = ?P])
    show "settles True (flow_to (?P rs') Q) (before_recv b ep cx cap s)" if "?P rs' s" for rs' s
      by (rule to) (use that assms(4) in blast)+
    show "settles True (flow_to (?P rs') Q) (recv_packet b ep cx p s)" if "?P (Some p # rs') s" for p rs' s
      by (rule to) (use that assms(5) in auto)
  qed (use assms(2,3) in auto)
  with assms(1) show ?thesis by simp
qed

lemma poll_read_loop_ok:
  fixes s :: "'x tcp_stream"
  assumes "unat iss + 1 < 2 ^ 32" "etherparse_ok ep"
    "read_inv iss m w c cap s" "\<forall>p. Some p \<in> set rs \<longrightarrow> good_packet iss m p" "c + length rs < 2 ^ 47"
  shows "\<exists>s' out r. poll_read_loop b ep cx cap rs s = Some (s', out, r) \<and>
     read_inv iss m w (c + length rs) cap s'"
proof -
  let ?k = "c + length rs"
  let ?P = "\<lambda>rs s. read_inv iss m w (?k - length rs) cap s \<and> length rs \<le> ?k \<and> (\<forall>p. Some p \<in> set rs \<longrightarrow> good_packet iss m p)"
  let ?Q = "\<lambda>s (_ :: bytes). read_inv iss m w ?k cap s"
  have "settles False (\<lambda>(s', out, r). ?Q s' out) (poll_read_loop b ep cx cap rs s)"
  proof (rule poll_read_loop_settles [where P = ?P])
    fix rs' and s' :: "'x tcp_stream" assume p: "?P rs' s'"
    then show "?Q s' []" by (auto intro: read_inv_mono)
    from p obtain f where "before_recv b ep cx cap s' = Some f" "flow_all (read_inv iss m w (?k - length rs') cap) f"
      using before_recv_ok [OF assms(2), of iss m w "?k - length rs'" cap s' b cx] by (auto simp: flow_ok_def)
    with p show "settles False (flow_to (?P rs') ?Q) (before_recv b ep cx cap s')"
      by (auto simp: flow_all_to elim!: flow_to_mono intro: read_inv_mono)
  next
    fix p :: "'x network_packet" and rs' and s' :: "'x tcp_stream" assume p: "?P (Some p # rs') s'"
    then have k: "?k - length (Some p # rs') + 1 = ?k - length rs'" "?k - length (Some p # rs') < 2 ^ 47"
      using assms(5) by auto
    from p obtain f where "recv_packet b ep cx p s' = Some f" "flow_all (read_inv iss m w (?k - length rs') cap) f"
      using recv_packet_ok [OF assms(2) _ _ assms(1) k(2), of m w cap s' p b cx] unfolding k(1) by (auto simp: flow_ok_def)
    with p show "settles False (flow_to (?P rs') ?Q) (recv_packet b ep cx p s')"
      by (auto simp: flow_all_to elim!: flow_to_mono intro: read_inv_mono)
  qed (use assms(3-5) in simp)
  then show ?thesis by (cases "poll_read_loop b ep cx cap rs s") auto
qed

text \<open>The calls on a stream, and their effect; \<open>None\<close> is a panic.\<close>

datatype 'x call =
    ReadCall cx nat "'x network_packet option list"
  | WriteCall cx bytes
  | FlushCall cx
  | ShutdownCall cx "'x network_packet option list"

fun do_call :: "build \<Rightarrow> 'x etherparse \<Rightarrow> 'x call \<Rightarrow> 'x tcp_stream \<Rightarrow> 'x tcp_stream option" where
  "do_call b ep (ReadCall cx cap rs) s = map_option fst (poll_read b ep cx cap rs s)"
| "do_call b ep (WriteCall cx buf) s = map_option fst (poll_write b ep cx s buf)"
| "do_call b ep (FlushCall cx) s = map_option fst (poll_flush b ep cx s)"
| "do_call b ep (ShutdownCall cx rs) s = map_option fst (poll_shutdown b ep cx rs s)"

fun do_calls :: "build \<Rightarrow> 'x etherparse \<Rightarrow> 'x call list \<Rightarrow> 'x tcp_stream \<Rightarrow> 'x tcp_stream option" where
  "do_calls b ep [] s = Some s"
| "do_calls b ep (c # cs) s = do { s' \<leftarrow> do_call b ep c s; do_calls b ep cs s' }"

fun good_call :: "u32 \<Rightarrow> nat \<Rightarrow> 'x call \<Rightarrow> bool" where
  "good_call iss m (ReadCall cx cap rs) \<longleftrightarrow> m \<le> cap \<and> list_all (pred_option (good_packet iss m)) rs"
| "good_call iss m (ShutdownCall cx rs) \<longleftrightarrow> list_all (pred_option (good_packet iss m)) rs"
| "good_call iss m _ \<longleftrightarrow> True"

fun call_written :: "'x call \<Rightarrow> nat" where
  "call_written (WriteCall cx buf) = length buf"
| "call_written _ = 0"

fun call_received :: "'x call \<Rightarrow> nat" where
  "call_received (ReadCall cx cap rs) = length rs"
| "call_received (ShutdownCall cx rs) = length rs"
| "call_received _ = 0"

lemma good_packets: "list_all (pred_option P) rs \<Longrightarrow> \<forall>p. Some p \<in> set rs \<longrightarrow> P p"
  by (auto simp: list_all_iff)

lemma poll_read_ok:
  assumes "unat iss + 1 < 2 ^ 32" "etherparse_ok ep" "sess_inv iss m w c s"
    "ts_shutdown s = ShutdownNone \<longrightarrow> m \<le> cap" "list_all (pred_option (good_packet iss m)) rs" "c + length rs < 2 ^ 47"
  shows "\<exists>s' out r. poll_read b ep cx cap rs s = Some (s', out, r) \<and> sess_inv iss m w (c + length rs) s'"
proof -
  have "read_inv iss m w c cap s" using assms(3,4) by (simp add: read_inv_def)
  from poll_read_loop_ok [OF assms(1,2) this good_packets [OF assms(5)] assms(6), of b cx]
  show ?thesis by (auto simp: poll_read_def read_inv_def)
qed

lemma sess_inv_upd_w: "sess_inv iss m w c s \<Longrightarrow> w \<le> w' \<Longrightarrow> sess_inv iss m w' c s"
  by (auto simp: sess_inv_def tcb_inv_def sender_ok_def split: tcp_state.splits)

lemma sess_inv_mono: "sess_inv iss m w c s \<Longrightarrow> c \<le> c' \<Longrightarrow> sess_inv iss m w c' s"
  by (auto simp: sess_inv_def intro: tcb_inv_mono)

lemma sess_inv_frame:
  "sess_inv iss m w c (s\<lparr>ts_write_notify := x\<rparr>) \<longleftrightarrow> sess_inv iss m w c s"
  "sess_inv iss m w c (s\<lparr>ts_sent := y\<rparr>) \<longleftrightarrow> sess_inv iss m w c s"
  "sess_inv iss m w c (s\<lparr>ts_shutdown := z\<rparr>) \<longleftrightarrow> sess_inv iss m w c s"
  "sess_inv iss m w c (upd_tcb (reset_timeout now) s) \<longleftrightarrow> sess_inv iss m w c s"
  by (simp_all add: sess_inv_def family_ok_def)

lemma sess_inv_push:
  assumes "sess_inv iss m w c s" "st_of s = Established" "unat iss + 1 + w + length d < 2 ^ 32"
  shows "sess_inv iss m (w + length d) c (upd_tcb (\<lambda>t. add_inflight_packet t (get_seq (ts_tcb s)) d) s)"
proof -
  let ?t = "push_bytes (ts_tcb s) d"
  from assms obtain ds where ds: "sender_rel (ts_tcb s) ds" "unat (tcb_seq (ts_tcb s)) \<le> unat iss + 1 + w"
    by (auto simp: sess_inv_def tcb_inv_def sender_ok_def get_state_def)
  then have room: "length d < send_room (ts_tcb s)" using assms(3) by (simp add: send_room_def)
  note push = sender_rel_push [OF ds(1) room]
  have "unat (tcb_seq ?t) \<le> unat iss + 1 + (w + length d)"
    using push(2) ds(2) room unat_u32_less [of "tcb_seq ?t"] unfolding send_room_def by linarith
  with push(1) have "sender_ok iss (w + length d) ?t"
    by (auto simp: sender_ok_def sender_rel_def)
  with assms(1) show ?thesis
    by (simp add: sess_inv_def tcb_inv_def push_bytes_def add_inflight_packet_def window_ok_def family_ok_def get_seq_def)
qed

lemma write_packet_ok:
  assumes "etherparse_ok ep" "sess_inv iss m w c s" "st_of s = Established" "unat iss + 1 + w + length buf < 2 ^ 32"
  shows "\<exists>s' r. write_packet b ep cx s buf = Some (s', r) \<and> sess_inv iss m (w + length buf) c s'"
proof -
  have fam: "family_ok s" using assms(2) by (simp add: sess_inv_def)
  obtain p where p: "tcp_create_rev_packet b ep s (PSH OR ACK) (TTL b) None buf = Some (Inr p)"
      "is_reply ep s (PSH OR ACK) (TTL b) None buf p"
    using tcp_create_rev_packet_ok [OF assms(1) fam] .
  then have len: "length (np_payload p) \<le> length buf" by (simp add: is_reply_def)
  have "sess_inv iss m (w + length (np_payload p)) c
      (upd_tcb (\<lambda>t. add_inflight_packet t (get_seq (ts_tcb s)) (np_payload p)) (s\<lparr>ts_sent := x\<rparr>))" for x
    using sess_inv_push [of iss m w c "s\<lparr>ts_sent := x\<rparr>" "np_payload p"] assms(2-) len
    by (simp add: sess_inv_frame)
  with len sess_inv_upd_w
  have "sess_inv iss m (w + length buf) c
      (upd_tcb (\<lambda>t. add_inflight_packet t (get_seq (ts_tcb s)) (np_payload p)) (s\<lparr>ts_sent := x\<rparr>))" for x
    by (metis add_le_cancel_left)
  moreover have "sess_inv iss m (w + length buf) c s" using sess_inv_upd_w [OF assms(2)] by simp
  ultimately show ?thesis using p(1) by (auto simp: write_packet_def Let_def mpsc_send_def)
qed

lemma do_call_ok:
  assumes "unat iss + 1 + w + call_written call < 2 ^ 32" "etherparse_ok ep" "sess_inv iss m w c s"
    "good_call iss m call" "c + call_received call < 2 ^ 47"
  shows "\<exists>s'. do_call b ep call s = Some s' \<and> sess_inv iss m (w + call_written call) (c + call_received call) s'"
proof (cases call)
  case (ReadCall cx cap rs)
  with assms poll_read_ok [of iss ep m w c s cap rs b cx] show ?thesis by auto
next
  case (WriteCall cx buf)
  have r: "tcb_retransmission (ts_tcb s) = None" using assms(3) by (simp add: sess_inv_def tcb_inv_def)
  have s: "sess_inv iss m w c (upd_tcb (reset_timeout (cx_now cx)) s)"
    using assms(3) by (simp add: sess_inv_frame)
  from sess_inv_upd_w [OF assms(3)] sess_inv_upd_w [OF s]
  have s': "sess_inv iss m (w + length buf) c s"
      "sess_inv iss m (w + length buf) c (upd_tcb (reset_timeout (cx_now cx)) s)" by simp_all
  show ?thesis
    using WriteCall assms(1) s' r write_packet_ok [OF assms(2) s, of buf b cx]
    by (auto simp: poll_write_def Let_def sess_inv_frame get_state_def reset_timeout_def)
next
  case (FlushCall cx)
  with assms(3) show ?thesis by (auto simp: poll_flush_def sess_inv_def tcb_inv_def)
next
  case (ShutdownCall cx rs)
  let ?s = "if ts_shutdown s = ShutdownNone then shutdown_pending (cx_waker cx) s else s"
  have "sess_inv iss m w c ?s" "ts_shutdown ?s \<noteq> ShutdownNone"
    using assms(3) by (auto simp: shutdown_pending_def sess_inv_frame)
  with assms ShutdownCall poll_read_ok [of iss ep m w c ?s 1 rs b cx] 
    sess_inv_mono [OF assms(3), of "c + length rs"]
  show ?thesis by (auto simp: poll_shutdown_def Let_def)
qed

lemma do_calls_ok:
  assumes "etherparse_ok ep" "sess_inv iss m w c s" "list_all (good_call iss m) calls"
    "unat iss + 1 + w + sum_list (map call_written calls) < 2 ^ 32"
    "c + sum_list (map call_received calls) < 2 ^ 47"
  shows "\<exists>s'. do_calls b ep calls s = Some s' \<and>
     sess_inv iss m (w + sum_list (map call_written calls)) (c + sum_list (map call_received calls)) s'"
  using assms(2-)
proof (induction calls arbitrary: w c s)
  case (Cons call calls)
  obtain s' where s': "do_call b ep call s = Some s'"
      "sess_inv iss m (w + call_written call) (c + call_received call) s'"
    using do_call_ok [OF _ assms(1) Cons.prems(1), of call b] Cons.prems(2-) by auto
  from Cons.IH [OF s'(2)] Cons.prems(2-) s'(1) show ?case by (auto simp: add.assoc)
qed simp

text \<open>The initial send sequence number of \<open>Tcb::new\<close>.\<close>

definition iss_of :: "build \<Rightarrow> u32 \<Rightarrow> u32" where
  "iss_of b rnd = (if debug_assertions b then 100 else rnd)"

lemma tcp_stream_new_Inr:
  assumes "tcp_stream_new b ep cx rnd src dst tcp mtu tmo = Some (sent, Inr s)"
  obtains ack where "s = \<lparr>ts_src_addr = src, ts_dst_addr = dst, ts_sent = [], ts_packet_to_send = None,
      ts_tcb = tcb_new b rnd (cx_now cx) ack tmo, ts_mtu = mtu,
      ts_shutdown = ShutdownNone, ts_write_notify = None, ts_wakes = []\<rparr>"
    "add_ovf (overflow_checks b) (tcp_sequence_number (inner tcp)) 1 = Some ack" "sent = []"
    "tcp_syn (inner tcp)"
proof (cases "tcp_syn (inner tcp)")
  case True
  with assms that show thesis by (auto simp: tcp_stream_new_def Let_def bind_eq_Some_conv)
next
  case False
  with assms show thesis
    by (auto simp: tcp_stream_new_def Let_def bind_eq_Some_conv split: if_splits sum.split_asm)
       (metis sum.exhaust)
qed

lemma tcp_stream_new_inv:
  assumes "tcp_stream_new b ep cx rnd src dst tcp mtu tmo = Some (sent, Inr s)"
    "same_family (sa_ip dst) (sa_ip src)"
  shows "sess_inv (iss_of b rnd) m 0 1 s"
proof -
  obtain ack where s: "s = \<lparr>ts_src_addr = src, ts_dst_addr = dst, ts_sent = [], ts_packet_to_send = None,
      ts_tcb = tcb_new b rnd (cx_now cx) ack tmo, ts_mtu = mtu,
      ts_shutdown = ShutdownNone, ts_write_notify = None, ts_wakes = []\<rparr>"
    using tcp_stream_new_Inr [OF assms(1)] by blast
  show ?thesis
    using assms(2) by (simp add: s sess_inv_def family_ok_def tcb_inv_def window_ok_def sender_ok_def
        tcb_new_def iss_of_def btree_wf_def)
qed

text \<open>
  C1: no call sequence brings a TCP stream down. Take a stream that \<open>new\<close> created for a
  SYN, and any sequence of \<open>poll_read\<close>, \<open>poll_write\<close>, \<open>poll_flush\<close> and
  \<open>poll_shutdown\<close> calls with any timing, any failures of the channel to the stack and
  any packets arriving in any order, lost, repeated, with any flags, numbers, windows and
  payloads. None of the panics of the code (arithmetic overflow, the \<open>panic!\<close> of
  \<open>poll_flush\<close>, the \<open>unreachable!\<close>s, \<open>put_slice\<close>) is reached, in any build, provided
  that every read buffer can hold the longest segment received, no packet acknowledges the
  initial sequence number itself, and the bytes written do not wrap the sequence number.
  Whenever the connection is established afterwards, the send buffer is consistent.
\<close>

theorem tcp_session_never_panics:
  assumes "etherparse_ok ep" "same_family (sa_ip dst) (sa_ip src)"
    "tcp_stream_new b ep cx rnd src dst tcp mtu tmo = Some (sent, Inr s)"
    "list_all (good_call (iss_of b rnd) m) calls"
    "unat (iss_of b rnd) + 1 + sum_list (map call_written calls) < 2 ^ 32"
    "1 + sum_list (map call_received calls) < 2 ^ 47"
  shows "\<exists>s'. do_calls b ep calls s = Some s' \<and>
     (st_of s' = Established \<longrightarrow> (\<exists>ds. sender_rel (ts_tcb s') ds))"
proof -
  have inv: "sess_inv (iss_of b rnd) m 0 1 s" using tcp_stream_new_inv [OF assms(3,2)] .
  obtain s' w c where "do_calls b ep calls s = Some s'" "sess_inv (iss_of b rnd) m w c s'"
    using do_calls_ok [OF assms(1) inv assms(4) _ assms(6), of b] assms(5) by auto
  then show ?thesis by (auto simp: sess_inv_def tcb_inv_def sender_ok_def get_state_def)
qed

text \<open>Evaluation: a client at 10.0.0.1:1111 that talks to 1.2.3.4:80.\<close>

definition sample_segment :: "u32 \<Rightarrow> u32 \<Rightarrow> u8 \<Rightarrow> u16 \<Rightarrow> bytes \<Rightarrow> unit network_packet" where
  "sample_segment sq ak fl win payload =
     \<lparr>np_ip = Ipv4 \<lparr>ipv4_time_to_live = 64, ipv4_protocol = IpNumber_TCP, ipv4_dont_fragment = True,
                   ipv4_source = 0x0A000001, ipv4_destination = 0x01020304, ipv4_rest = ()\<rparr>,
      np_transport = Tcp (sample_tcp sq ak fl win), np_payload = payload\<rparr>"

abbreviation sample_src :: socket_addr where "sample_src \<equiv> \<lparr>sa_ip = V4 0x0A000001, sa_port = 1111\<rparr>"
abbreviation sample_dst :: socket_addr where "sample_dst \<equiv> \<lparr>sa_ip = V4 0x01020304, sa_port = 80\<rparr>"

text \<open>What \<open>new\<close> returns for a SYN with sequence number 7.\<close>

lemma sample_new:
  "tcp_stream_new sample_build sample_ep sample_cx 0 sample_src sample_dst
     (wrapper_from (sample_tcp 7 0 SYN 64)) 1500 60 = Some ([], Inr (sample_stream (SynReceived False)))"
  by (simp add: tcp_stream_new_def sample_stream_def sample_tcp_def wrapper_from_def inner_def
      tcp_flags sample_cx_def tcb_new_def change_state_def add_ovf_def)

text \<open>A handshake, three bytes written, and an acknowledgement of two of them with a byte of data.\<close>

definition sample_calls :: "unit call list" where
  "sample_calls =
     [ReadCall sample_cx 16 [],
      ReadCall sample_cx 16 [Some (sample_segment 8 101 ACK 64 [])],
      WriteCall sample_cx [1, 2, 3],
      ReadCall sample_cx 16 [Some (sample_segment 8 103 ACK 64 [42])]]"

theorem tcp_session_never_panics_witness:
  "\<exists>s'. do_calls sample_build sample_ep sample_calls (sample_stream (SynReceived False)) = Some s' \<and>
        (st_of s' = Established \<longrightarrow> (\<exists>ds. sender_rel (ts_tcb s') ds))"
proof -
  have "list_all (good_call (iss_of sample_build 0) 8) sample_calls"
    "unat (iss_of sample_build 0) + 1 + sum_list (map call_written sample_calls) < 2 ^ 32"
    "1 + sum_list (map call_received sample_calls) < 2 ^ 47"
    by (simp_all add: sample_calls_def good_packet_def sample_segment_def sample_tcp_def iss_of_def sample_build_def)
  moreover have "same_family (sa_ip sample_dst) (sa_ip sample_src)" by (simp add: same_family_def)
  ultimately show ?thesis
    using tcp_session_never_panics [OF sample_etherparse_ok _ sample_new] by blast
qed

end
