(* ===== verification/Tcp_Handshake.thy ===== *)
theory Tcp_Handshake
  imports Tcp_Session
begin

text \<open>
  The three-way handshake of a TCP stream: what is sent for a SYN, when the connection
  becomes established, and what happens when the peer does not acknowledge the SYN.
\<close>

section \<open>Passes with nothing to do\<close>

text \<open>A pass over the steps before receiving that finds nothing to do.\<close>

definition idle :: "cx \<Rightarrow> 'x tcp_stream \<Rightarrow> 'x tcp_stream" where
  "idle cx s = upd_tcb (reset_timeout (cx_now cx))
     (upd_tcb (\<lambda>t. change_recv_window t (of_nat (get_available_read_buffer_size t))) s)"

lemma before_recv_idle:
  assumes "tcb_retransmission (ts_tcb s) = None" "ts_packet_to_send s = None"
    "st_of s \<in> {SynReceived True, Established}" "\<not> cx_sleep_ready cx (tcb_timeout (ts_tcb s))"
    "tcb_unordered_packets (ts_tcb s) = []" "ts_shutdown s = ShutdownNone"
  shows "before_recv b ep cx cap s = Some (Proceed (idle cx s))"
  using assms
  by (auto simp: before_recv_def then_do_def read_retransmission_def read_send_pending_def read_closed_def
      read_timeout_def read_syn_def read_deliver_def read_fin_def idle_def Let_def get_state_def
      get_unordered_packets_def change_recv_window_def reset_timeout_def shutdown_is_pending_def upd_tcb_def)

section \<open>The peer must acknowledge the SYN\<close>

lemma ack_only:
  assumes "np_transport p = Tcp h" "flags (wrapper_from h) = ACK"
  shows "transport_protocol p = ProtoTcp (wrapper_from h)" "flags (wrapper_from h) AND RST = 0"
    "inner (wrapper_from h) = h"
  using assms by (simp_all add: transport_protocol_def tcp_flags inner_def wrapper_from_def)

lemma check_pkt_type_in_window:
  assumes "tcb_last_ack t \<le> tcp_acknowledgment_number (inner h)" "tcp_acknowledgment_number (inner h) \<le> tcb_seq t"
  shows "check_pkt_type t h p \<noteq> Invalid"
proof -
  have "tcb_last_ack t \<le> tcb_seq t" using assms by (rule order_trans)
  from ack_window_unwrapped [OF this] assms show ?thesis by (auto simp: check_pkt_type_def Let_def)
qed

lemma check_pkt_type_duplicate:
  assumes "seq_unwrapped t" "tcb_seq t \<noteq> tcb_last_ack t" "tcp_acknowledgment_number (inner h) = tcb_last_ack t"
    "tcb_send_window t = tcp_window_size (inner h)"
  shows "check_pkt_type t h [] = RetransmissionRequest"
  using assms ack_window_unwrapped [of "tcb_last_ack t" "tcb_seq t" "tcb_last_ack t"]
  by (auto simp: check_pkt_type_def Let_def seq_unwrapped_def)

text \<open>
  A bare acknowledgement of the SYN/ACK, or of the number before it, establishes the
  connection.
\<close>

lemma recv_packet_establishes:
  assumes "sess_inv iss m w c s" "st_of s = SynReceived True" "unat iss + 1 < 2 ^ 32" "c < 2 ^ 47"
    "np_transport p = Tcp h" "flags (wrapper_from h) = ACK"
    "tcp_acknowledgment_number h = a" "a = iss \<or> a = iss + 1"
  obtains t where "recv_packet b ep cx p s = Some (Continue (s\<lparr>ts_tcb := t\<rparr>))"
    "tcb_state t = Established" "tcb_seq t = iss + 1" "tcb_last_ack t = a" "tcb_inflight_packets t = []"
    "tcb_retransmission t = None" "tcb_unordered_packets t = tcb_unordered_packets (ts_tcb s)"
    "tcb_send_window t = tcp_window_size h" "window_ok (c + 1) t"
proof -
  let ?t = "(ts_tcb s)\<lparr>tcb_last_ack := a\<rparr>"
  note h = ack_only [OF assms(5,6)]
  from assms(1,2) have t: "tcb_seq (ts_tcb s) = iss + 1" "tcb_last_ack (ts_tcb s) = iss"
      "tcb_inflight_packets (ts_tcb s) = []" "tcb_retransmission (ts_tcb s) = None" "window_ok c ?t"
    by (simp_all add: sess_inv_def tcb_inv_def sender_ok_def get_state_def window_ok_def)
  have "iss \<le> a" "a \<le> iss + 1" using assms(8) unat_succ [OF assms(3)] by (auto simp: word_le_nat_alt)
  then have valid: "check_pkt_type (ts_tcb s) (wrapper_from h) (np_payload p) \<noteq> Invalid"
    using t assms(7) h(3) by (intro check_pkt_type_in_window) simp_all
  obtain av where av: "change_send_window b ?t (tcp_window_size h) =
        Some (?t\<lparr>tcb_avg_send_window := av, tcb_send_window := tcp_window_size h\<rparr>)"
      "window_ok (c + 1) (?t\<lparr>tcb_avg_send_window := av, tcb_send_window := tcp_window_size h\<rparr>)"
    using window_ok_change [OF t(5) assms(4)] .
  show thesis
  proof (rule that [of "change_state (?t\<lparr>tcb_avg_send_window := av, tcb_send_window := tcp_window_size h\<rparr>) Established"])
    show "recv_packet b ep cx p s = Some (Continue (s\<lparr>ts_tcb := change_state
        (?t\<lparr>tcb_avg_send_window := av, tcb_send_window := tcp_window_size h\<rparr>) Established\<rparr>))"
      using valid assms(2,6,7) h av(1)
      by (simp add: recv_packet_def recv_syn_received_def upd_tcb_opt_def upd_tcb_def
          change_last_ack_not_established get_state_def)
  qed (use t av(2) in \<open>simp_all add: change_state_def window_ok_def\<close>)
qed

text \<open>The second one is taken for a request to retransmit a packet that does not exist.\<close>

lemma recv_packet_nothing_inflight:
  assumes "tcb_state (ts_tcb s) = Established" "tcb_seq (ts_tcb s) \<noteq> tcb_last_ack (ts_tcb s)"
    "seq_unwrapped (ts_tcb s)" "tcb_inflight_packets (ts_tcb s) = []"
    "tcb_send_window (ts_tcb s) = tcp_window_size h" "window_ok c (ts_tcb s)" "c < 2 ^ 47"
    "np_transport p = Tcp h" "flags (wrapper_from h) = ACK"
    "tcp_acknowledgment_number h = tcb_last_ack (ts_tcb s)" "np_payload p = []"
  shows "recv_packet b ep cx p s = None"
proof -
  note h = ack_only [OF assms(8,9)]
  have "check_pkt_type (ts_tcb s) (wrapper_from h) [] = RetransmissionRequest"
    using check_pkt_type_duplicate [OF assms(3,2), of "wrapper_from h"] assms(5,10) h(3) by simp
  moreover obtain a where "change_send_window b (ts_tcb s) (tcp_window_size h) =
        Some ((ts_tcb s)\<lparr>tcb_avg_send_window := a, tcb_send_window := tcp_window_size h\<rparr>)"
    using window_ok_change [OF assms(6,7)] .
  ultimately show ?thesis
    using assms(1,4,9,11) h
    by (simp add: recv_packet_def recv_established_def recv_established_ack_def upd_tcb_opt_def upd_tcb_def
        get_state_def poll_flush_def)
qed

text \<open>
  C33: the condition of the preceding theorem on the peer is needed. In every state in which
  the SYN/ACK has been sent, nothing has timed out and nothing else is pending, two
  copies of a bare acknowledgement of the initial sequence number itself (which does not
  acknowledge the SYN) make \<open>poll_read\<close> panic, in any build, whatever window they carry:
  the first establishes the connection, the second asks for the retransmission of a packet
  that does not exist.
\<close>

theorem unacknowledged_syn_panics:
  assumes "sess_inv iss m w c s" "st_of s = SynReceived True" "ts_packet_to_send s = None"
    "ts_shutdown s = ShutdownNone" "tcb_unordered_packets (ts_tcb s) = []"
    "\<forall>d. \<not> cx_sleep_ready cx d" "unat iss + 1 < 2 ^ 32" "c + 1 < 2 ^ 47"
    "np_transport p = Tcp h" "flags (wrapper_from h) = ACK"
    "tcp_acknowledgment_number h = iss" "np_payload p = []"
  shows "poll_read b ep cx cap [Some p, Some p] s = None"
proof -
  let ?s = "idle cx s"
  have inv: "sess_inv iss m w c ?s" using assms(1) by (simp add: idle_def sess_inv_def family_ok_def)
  have st: "st_of ?s = SynReceived True"
    using assms(2) by (simp add: idle_def get_state_def change_recv_window_def reset_timeout_def)
  have c: "c < 2 ^ 47" using assms(8) by simp
  obtain t where t: "recv_packet b ep cx p ?s = Some (Continue (?s\<lparr>ts_tcb := t\<rparr>))"
    "tcb_state t = Established" "tcb_seq t = iss + 1" "tcb_last_ack t = iss" "tcb_inflight_packets t = []"
    "tcb_retransmission t = None" "tcb_unordered_packets t = tcb_unordered_packets (ts_tcb ?s)"
    "tcb_send_window t = tcp_window_size h" "window_ok (c + 1) t"
    using recv_packet_establishes [OF inv st assms(7) c assms(9-11)] by blast
  let ?s2 = "?s\<lparr>ts_tcb := t\<rparr>"
  have b1: "before_recv b ep cx cap s = Some (Proceed ?s)"
    using before_recv_idle [of s cx b ep cap] assms(1-6) by (simp add: sess_inv_def tcb_inv_def)
  have b2: "before_recv b ep cx cap ?s2 = Some (Proceed (idle cx ?s2))"
    using before_recv_idle [of ?s2 cx b ep cap] t assms(3-6)
    by (simp add: get_state_def idle_def change_recv_window_def reset_timeout_def)
  have "recv_packet b ep cx p (idle cx ?s2) = None"
    using t unat_succ [OF assms(7)] assms(8-)
    by (intro recv_packet_nothing_inflight [where c = "c + 1"])
       (simp_all add: idle_def change_recv_window_def reset_timeout_def seq_unwrapped_def word_le_nat_alt
        window_ok_def)
  then show ?thesis
    by (simp add: poll_read_def poll_read_loop.simps [of b ep cx cap "[Some p, Some p]" s]
        poll_read_loop.simps [of b ep cx cap "[Some p]" ?s2] b1 b2 t(1))
qed

text \<open>A stream whose SYN/ACK is out.\<close>

definition sample_half_open :: "unit tcp_stream" where
  "sample_half_open = upd_tcb add_seq_one (sample_stream (SynReceived True))"

lemma sample_half_open_inv: "sess_inv 100 m 0 1 sample_half_open"
  using sample_family_ok [of "SynReceived True"]
  by (simp add: sample_half_open_def sess_inv_def family_ok_def tcb_inv_def window_ok_def sender_ok_def
      sample_stream_def tcb_new_def change_state_def add_seq_one_def sample_build_def btree_wf_def)

theorem unacknowledged_syn_panics_witness:
  "poll_read sample_build sample_ep sample_cx 2000
     [Some (sample_segment 8 100 ACK 64 []), Some (sample_segment 8 100 ACK 64 [])] sample_half_open = None"
proof -
  have fl: "flags (wrapper_from (sample_tcp 8 100 ACK 64)) = ACK"
    by code_simp
  have ak: "tcp_acknowledgment_number (sample_tcp 8 100 ACK 64) = 100" by (simp add: sample_tcp_def)
  show ?thesis
    by (rule unacknowledged_syn_panics [OF sample_half_open_inv, where h = "sample_tcp 8 100 ACK 64"])
       (simp_all add: fl ak sample_half_open_def sample_stream_def tcb_new_def change_state_def add_seq_one_def
         get_state_def sample_cx_def sample_segment_def)
qed

section \<open>The handshake\<close>

lemma before_recv_pending:
  assumes "tcb_retransmission (ts_tcb s) = None" "ts_packet_to_send s = Some p" "cx_send_ok cx (length (ts_sent s))"
    "st_of s \<in> {SynReceived True, Established}" "\<not> cx_sleep_ready cx (tcb_timeout (ts_tcb s))"
    "tcb_unordered_packets (ts_tcb s) = []" "ts_shutdown s = ShutdownNone"
  shows "before_recv b ep cx cap s =
    Some (Proceed (idle cx (s\<lparr>ts_packet_to_send := None, ts_sent := ts_sent s @ [p]\<rparr>)))"
proof -
  let ?s = "s\<lparr>ts_packet_to_send := None, ts_sent := ts_sent s @ [p]\<rparr>"
  have "before_recv b ep cx cap s = before_recv b ep cx cap ?s"
    using assms by (simp add: before_recv_def then_do_def read_retransmission_def read_send_pending_def
        send_or_eof_def mpsc_send_def)
  also have "\<dots> = Some (Proceed (idle cx ?s))" using assms by (intro before_recv_idle) simp_all
  finally show ?thesis .
qed

lemma before_recv_syn:
  assumes "tcb_retransmission (ts_tcb s) = None" "ts_packet_to_send s = None" "st_of s = SynReceived False"
    "\<not> cx_sleep_ready cx (tcb_timeout (ts_tcb s))"
    "tcp_create_rev_packet b ep (idle cx s) (SYN OR ACK) (TTL b) None [] = Some (Inr p)"
  shows "before_recv b ep cx cap s = Some (Continue (set_state (SynReceived True)
    (upd_tcb add_seq_one ((idle cx s)\<lparr>ts_packet_to_send := Some p\<rparr>))))"
  using assms
  by (simp add: before_recv_def then_do_def read_retransmission_def read_send_pending_def read_closed_def
      read_timeout_def read_syn_def idle_def Let_def get_state_def change_recv_window_def reset_timeout_def
      with_packet_def)

text \<open>The first \<open>poll_read\<close> of a fresh stream sends the SYN/ACK.\<close>

lemma first_poll_read:
  assumes "etherparse_ok ep" "family_ok s" "ts_tcb s = tcb_new b rnd now ack tmo" "ts_sent s = []"
    "ts_packet_to_send s = None" "ts_shutdown s = ShutdownNone"
    "\<forall>d. \<not> cx_sleep_ready cx d" "cx_send_ok cx 0"
  obtains s1 p where "poll_read b ep cx cap [] s = Some (s1, [], Pending)" "ts_sent s1 = [p]"
    "is_reply ep (idle cx s) (SYN OR ACK) (TTL b) None [] p"
    "ts_tcb s1 = ts_tcb (idle cx (set_state (SynReceived True) (upd_tcb add_seq_one s)))"
    "ts_packet_to_send s1 = None" "ts_shutdown s1 = ShutdownNone" "family_ok s1"
proof -
  have fam: "family_ok (idle cx s)" using assms(2) by (simp add: idle_def family_ok_def)
  obtain p where p: "tcp_create_rev_packet b ep (idle cx s) (SYN OR ACK) (TTL b) None [] = Some (Inr p)"
      "is_reply ep (idle cx s) (SYN OR ACK) (TTL b) None [] p"
    using tcp_create_rev_packet_ok [OF assms(1) fam] .
  let ?s = "set_state (SynReceived True) (upd_tcb add_seq_one ((idle cx s)\<lparr>ts_packet_to_send := Some p\<rparr>))"
  have b1: "before_recv b ep cx cap s = Some (Continue ?s)"
    using assms p(1) by (intro before_recv_syn) (simp_all add: tcb_new_def get_state_def)
  have b2: "before_recv b ep cx cap ?s = Some (Proceed (idle cx (?s\<lparr>ts_packet_to_send := None, ts_sent := [p]\<rparr>)))"
    using before_recv_pending [of ?s p cx b ep cap] assms
    by (simp add: idle_def tcb_new_def get_state_def tcb_setters reset_timeout_def)
  show thesis
  proof (rule that)
    show "poll_read b ep cx cap [] s = Some (idle cx (?s\<lparr>ts_packet_to_send := None, ts_sent := [p]\<rparr>), [], Pending)"
      by (simp add: poll_read_def poll_read_loop.simps [of b ep cx cap "[]" s] b1
          poll_read_loop.simps [of b ep cx cap "[]" ?s] b2)
  qed (use p(2) assms in \<open>simp_all add: idle_def family_ok_def tcb_setters reset_timeout_def
      get_available_read_buffer_size_def\<close>)
qed

text \<open>Its acknowledgement establishes the connection.\<close>

lemma second_poll_read:
  assumes "sess_inv iss m w c s" "st_of s = SynReceived True" "ts_packet_to_send s = None"
    "ts_shutdown s = ShutdownNone" "tcb_unordered_packets (ts_tcb s) = []"
    "\<forall>d. \<not> cx_sleep_ready cx d" "unat iss + 1 < 2 ^ 32" "c < 2 ^ 47"
    "np_transport p = Tcp h" "flags (wrapper_from h) = ACK" "tcp_acknowledgment_number h = iss + 1"
  obtains s2 where "poll_read b ep cx cap [Some p] s = Some (s2, [], Pending)" "st_of s2 = Established"
    "sender_rel (ts_tcb s2) []" "ts_sent s2 = ts_sent s" "get_send_window (ts_tcb s2) = tcp_window_size h"
proof -
  let ?s = "idle cx s"
  have inv: "sess_inv iss m w c ?s" using assms(1) by (simp add: idle_def sess_inv_def family_ok_def)
  have st: "st_of ?s = SynReceived True"
    using assms(2) by (simp add: idle_def get_state_def change_recv_window_def reset_timeout_def)
  obtain t where t: "recv_packet b ep cx p ?s = Some (Continue (?s\<lparr>ts_tcb := t\<rparr>))"
    "tcb_state t = Established" "tcb_seq t = iss + 1" "tcb_last_ack t = iss + 1" "tcb_inflight_packets t = []"
    "tcb_retransmission t = None" "tcb_unordered_packets t = tcb_unordered_packets (ts_tcb ?s)"
    "tcb_send_window t = tcp_window_size h"
    using recv_packet_establishes [OF inv st assms(7,8-11)] by blast
  let ?s2 = "?s\<lparr>ts_tcb := t\<rparr>"
  have b1: "before_recv b ep cx cap s = Some (Proceed ?s)"
    using before_recv_idle [of s cx b ep cap] assms(1-6) by (simp add: sess_inv_def tcb_inv_def)
  have b2: "before_recv b ep cx cap ?s2 = Some (Proceed (idle cx ?s2))"
    using before_recv_idle [of ?s2 cx b ep cap] t assms(3-6)
    by (simp add: get_state_def idle_def change_recv_window_def reset_timeout_def)
  show thesis
  proof (rule that)
    show "poll_read b ep cx cap [Some p] s = Some (idle cx ?s2, [], Pending)"
      by (simp add: poll_read_def poll_read_loop.simps [of b ep cx cap "[Some p]" s]
          poll_read_loop.simps [of b ep cx cap "[]" ?s2] b1 b2 t(1))
  qed (use t in \<open>simp_all add: idle_def change_recv_window_def reset_timeout_def tcb_getters
      sender_rel_def tiles_def\<close>)
qed

lemma handshake_run:
  assumes "etherparse_ok ep" "same_family (sa_ip dst) (sa_ip src)"
    "tcp_stream_new b ep cx0 rnd src dst tcp mtu tmo = Some (sent, Inr s)"
    "\<forall>d. \<not> cx_sleep_ready cx d" "cx_send_ok cx 0" "unat (iss_of b rnd) + 1 < 2 ^ 32"
    "np_transport p = Tcp h" "flags (wrapper_from h) = ACK"
    "tcp_acknowledgment_number h = iss_of b rnd + 1"
  obtains s1 s2 q hq where
    "poll_read b ep cx cap [] s = Some (s1, [], Pending)" "ts_sent s1 = [q]" "st_of s1 = SynReceived True"
    "is_reply ep (idle cx s) (SYN OR ACK) (TTL b) None [] q"
    "np_transport q = Tcp hq" "flags (wrapper_from hq) = (SYN OR ACK)" "tcp_sequence_number hq = iss_of b rnd"
    "tcp_acknowledgment_number hq = tcp_sequence_number (inner tcp) + 1" "tcp_window_size hq = 16384"
    "np_payload q = []"
    "poll_read b ep cx cap [Some p] s1 = Some (s2, [], Pending)" "st_of s2 = Established"
    "sender_rel (ts_tcb s2) []" "ts_sent s2 = [q]" "get_send_window (ts_tcb s2) = tcp_window_size h"
proof -
  let ?iss = "iss_of b rnd"
  obtain ack where s: "s = \<lparr>ts_src_addr = src, ts_dst_addr = dst, ts_sent = [], ts_packet_to_send = None,
      ts_tcb = tcb_new b rnd (cx_now cx0) ack tmo, ts_mtu = mtu,
      ts_shutdown = ShutdownNone, ts_write_notify = None, ts_wakes = []\<rparr>"
      "add_ovf (overflow_checks b) (tcp_sequence_number (inner tcp)) 1 = Some ack"
    using tcp_stream_new_Inr [OF assms(3)] by metis
  have fam: "family_ok s" using s(1) assms(2) by (simp add: family_ok_def)
  obtain s1 q where q: "poll_read b ep cx cap [] s = Some (s1, [], Pending)" "ts_sent s1 = [q]"
    "is_reply ep (idle cx s) (SYN OR ACK) (TTL b) None [] q"
    "ts_tcb s1 = ts_tcb (idle cx (set_state (SynReceived True) (upd_tcb add_seq_one s)))"
    "ts_packet_to_send s1 = None" "ts_shutdown s1 = ShutdownNone" "family_ok s1"
    using first_poll_read [OF assms(1) fam, of b rnd "cx_now cx0" ack tmo cx cap] s(1) assms(4,5)
    by auto
  obtain hq where hq: "np_transport q = Tcp hq" "tcp_sequence_number hq = ?iss"
      "tcp_acknowledgment_number hq = tcp_sequence_number (inner tcp) + 1" "tcp_window_size hq = 16384"
      "np_payload q = []"
    using q(3) s by (auto simp: is_reply_def idle_def tcb_new_def iss_of_def tcb_setters tcb_getters
        reset_timeout_def get_available_read_buffer_size_eq add_ovf_def split: if_splits)
  have fl: "flags (wrapper_from hq) = (SYN OR ACK)"
    using is_reply_flags [OF q(3) hq(1)] by (simp add: tcp_flags)
  have inv: "sess_inv ?iss 0 0 1 s1" and tcb1: "tcb_unordered_packets (ts_tcb s1) = []" "st_of s1 = SynReceived True"
    using q(4,7) s(1) by (simp_all add: sess_inv_def tcb_inv_def window_ok_def sender_ok_def idle_def
        tcb_new_def tcb_setters tcb_getters reset_timeout_def iss_of_def btree_wf_def)
  have one: "(1 :: nat) < 2 ^ 47" by simp
  obtain s2 where s2: "poll_read b ep cx cap [Some p] s1 = Some (s2, [], Pending)" "st_of s2 = Established"
    "sender_rel (ts_tcb s2) []" "ts_sent s2 = ts_sent s1" "get_send_window (ts_tcb s2) = tcp_window_size h"
    using second_poll_read [OF inv tcb1(2) q(5,6) tcb1(1) assms(4,6) one assms(7-9)] .
  from that q(1,2) tcb1(2) q(3) hq(1) fl hq(2-5) s2(1-3) s2(4) [unfolded q(2)] s2(5) show thesis by blast
qed

end
