(* ===== verification/Tcp_Life.thy ===== *)
theory Tcp_Life
  imports Tcp_Handshake
begin

text \<open>
  What every call on a TCP stream keeps, whatever the peer, the application and the
  runtime do: the connection state only moves along the edges of the TCP state diagram
  below, and every packet the stream hands to the stack belongs to its session.
\<close>

section \<open>The state diagram\<close>

inductive conn_edge :: "tcp_state \<Rightarrow> tcp_state \<Rightarrow> bool" where
  syn_ack_sent: "conn_edge (SynReceived False) (SynReceived True)"
| established: "conn_edge (SynReceived True) Established"
| peer_closes: "conn_edge Established (FinWait1 True)"
| own_fin_sent: "conn_edge Established (FinWait1 False)"
| fin_sent: "conn_edge (FinWait1 True) (FinWait2 True)"
| fin_answered: "conn_edge (FinWait1 False) (FinWait2 True)"
| last_ack: "conn_edge (FinWait2 True) (FinWait2 False)"
| closed: "conn_edge st Closed"

inductive_cases conn_edge_Closed: "conn_edge Closed st"
inductive_cases conn_edge_SynReceived: "conn_edge st (SynReceived sent)"
inductive_cases conn_edge_Established: "conn_edge st Established"

abbreviation conn_path :: "tcp_state \<Rightarrow> tcp_state \<Rightarrow> bool" where
  "conn_path \<equiv> conn_edge\<^sup>*\<^sup>*"

section \<open>The packets of a session\<close>

definition reply_ok :: "build \<Rightarrow> 'x etherparse \<Rightarrow> 'x tcp_stream \<Rightarrow> 'x network_packet \<Rightarrow> bool" where
  "reply_ok b ep s p \<longleftrightarrow> src_addr p = ts_dst_addr s \<and> dst_addr p = ts_src_addr s \<and> is_tcp p \<and>
     wire_len ep p \<le> max (unat (ts_mtu s)) (tcp_headers_len s) \<and> (ttl p = DROP_TTL \<or> ttl p = TTL b)"

definition out_ok :: "build \<Rightarrow> 'x etherparse \<Rightarrow> 'x tcp_stream \<Rightarrow> bool" where
  "out_ok b ep s \<longleftrightarrow> (\<forall>p \<in> set (ts_sent s) \<union> set_option (ts_packet_to_send s). reply_ok b ep s p)"

text \<open>What holds of a stream \<open>s\<close> at some point after \<open>s0\<close>.\<close>

definition live :: "build \<Rightarrow> 'x etherparse \<Rightarrow> 'x tcp_stream \<Rightarrow> 'x tcp_stream \<Rightarrow> bool" where
  "live b ep s0 s \<longleftrightarrow>
     conn_path (st_of s0) (st_of s) \<and>
     ts_src_addr s = ts_src_addr s0 \<and> ts_dst_addr s = ts_dst_addr s0 \<and> ts_mtu s = ts_mtu s0 \<and>
     prefix (ts_sent s0) (ts_sent s) \<and>
     (etherparse_ok ep \<and> family_ok s0 \<and> out_ok b ep s0 \<longrightarrow> out_ok b ep s) \<and>
     (tcb_retransmission (ts_tcb s0) = None \<longrightarrow> tcb_retransmission (ts_tcb s) = None)"

lemma reply_ok_cong:
  "ts_src_addr s = ts_src_addr s0 \<Longrightarrow> ts_dst_addr s = ts_dst_addr s0 \<Longrightarrow> ts_mtu s = ts_mtu s0 \<Longrightarrow>
   reply_ok b ep s = reply_ok b ep s0"
  by (simp add: fun_eq_iff reply_ok_def tcp_headers_len_def)

lemma is_reply_reply_ok:
  "is_reply ep s fl tt sq d p \<Longrightarrow> tt = DROP_TTL \<or> tt = TTL b \<Longrightarrow> reply_ok b ep s p"
  using is_reply_limit [of ep s fl tt sq d p] by (auto simp: reply_ok_def is_reply_def is_tcp_def)

definition reply_if :: "build \<Rightarrow> 'x etherparse \<Rightarrow> 'x tcp_stream \<Rightarrow> 'x network_packet \<Rightarrow> bool" where
  "reply_if b ep s p \<longleftrightarrow> (etherparse_ok ep \<and> family_ok s \<longrightarrow> reply_ok b ep s p)"

lemma reply_if_frame [simp]:
  "reply_if b ep (upd_tcb f s) p \<longleftrightarrow> reply_if b ep s p"
  "reply_if b ep (s\<lparr>ts_tcb := t\<rparr>) p \<longleftrightarrow> reply_if b ep s p"
  by (simp_all add: reply_if_def reply_ok_def family_ok_def tcp_headers_len_def)

lemma live_refl: "live b ep s s"
  by (simp add: live_def)

lemma live_trans: "live b ep s0 s1 \<Longrightarrow> live b ep s1 s2 \<Longrightarrow> live b ep s0 s2"
  unfolding live_def family_ok_def by (auto dest: rtranclp_trans)

section \<open>Steps that keep a predicate, if they end\<close>

definition keeps :: "('x tcp_stream \<Rightarrow> bool) \<Rightarrow> 'x flow option \<Rightarrow> bool" where
  "keeps P m \<longleftrightarrow> (\<forall>f. m = Some f \<longrightarrow> flow_all P f)"

named_theorems keeps_intro \<open>introduction rules for keeps\<close>

lemma keeps_simps [simp]:
  "keeps P None" "keeps P (Some f) \<longleftrightarrow> flow_all P f"
  by (simp_all add: keeps_def)

lemma flow_all_mono: "flow_all P f \<Longrightarrow> (\<And>s. P s \<Longrightarrow> Q s) \<Longrightarrow> flow_all Q f"
  by (cases f) simp_all

lemma keeps_live: "live b ep s0 s \<Longrightarrow> keeps (live b ep s) m \<Longrightarrow> keeps (live b ep s0) m"
  unfolding keeps_def by (blast intro: flow_all_mono live_trans)

lemma keeps_then_do:
  assumes "keeps (live b ep s) m" "\<And>s'. keeps (live b ep s') (k s')"
  shows "keeps (live b ep s) (then_do m k)"
proof (cases m)
  case (Some f)
  with assms show ?thesis by (cases f) (auto simp: then_do_def intro: keeps_live)
qed (simp add: then_do_def)

lemma keeps_with_packet:
  assumes "tt = DROP_TTL \<or> tt = TTL b" "live b ep s0 s1"
    "\<And>p. reply_if b ep s p \<Longrightarrow> keeps (live b ep s0) (k p)"
  shows "keeps (live b ep s0) (with_packet (tcp_create_rev_packet b ep s fl tt sq d) s1 out k)"
proof (cases "tcp_create_rev_packet b ep s fl tt sq d")
  case (Some r)
  show ?thesis
  proof (cases r)
    case (Inl e)
    with Some assms(2) show ?thesis by (simp add: with_packet_def)
  next
    case (Inr p)
    have "reply_ok b ep s p" if g: "etherparse_ok ep" "family_ok s"
    proof -
      obtain q where "tcp_create_rev_packet b ep s fl tt sq d = Some (Inr q)" "is_reply ep s fl tt sq d q"
        using tcp_create_rev_packet_ok [OF g] .
      with Some Inr assms(1) show ?thesis by (auto intro: is_reply_reply_ok)
    qed
    with assms(3) Some Inr show ?thesis by (simp add: with_packet_def reply_if_def)
  qed
qed (simp add: with_packet_def)

lemma keeps_send_or_eof:
  assumes "live b ep s0 s" "keeps (live b ep s0) (k (s\<lparr>ts_sent := ts_sent s @ [p]\<rparr>))"
  shows "keeps (live b ep s0) (send_or_eof cx s out p k)"
  using assms by (simp add: send_or_eof_def mpsc_send_def)

lemma keeps_upd_tcb_opt:
  "(\<And>t. f (ts_tcb s) = Some t \<Longrightarrow> keeps P (k (s\<lparr>ts_tcb := t\<rparr>))) \<Longrightarrow> keeps P (upd_tcb_opt f s \<bind> k)"
  by (cases "f (ts_tcb s)") (simp_all add: upd_tcb_opt_def)

section \<open>Updates\<close>

lemma get_state_setters [simp]:
  "get_state (add_seq_one t) = get_state t" "get_state (add_ack t n) = get_state t"
  "get_state (change_recv_window t r) = get_state t" "get_state (reset_timeout now t) = get_state t"
  "get_state (add_unordered_packet t q d) = get_state t" "get_state (change_state t st) = st"
  by (simp_all add: get_state_def tcb_setters reset_timeout_def add_unordered_packet_def)

lemma change_last_ack_frame:
  "change_last_ack b t a = Some t' \<Longrightarrow>
   get_state t' = get_state t \<and> tcb_retransmission t' = tcb_retransmission t"
  by (auto simp: change_last_ack_def Let_def bind_eq_Some_conv get_state_def split: if_splits)

lemma change_send_window_frame':
  "change_send_window b t w = Some t' \<Longrightarrow>
   get_state t' = get_state t \<and> tcb_retransmission t' = tcb_retransmission t"
  by (auto dest!: change_send_window_frame simp: get_state_def)

lemma live_update:
  assumes "live b ep s0 s" "ts_src_addr s' = ts_src_addr s" "ts_dst_addr s' = ts_dst_addr s"
    "ts_mtu s' = ts_mtu s" "prefix (ts_sent s) (ts_sent s')" "conn_path (st_of s) (st_of s')"
    "tcb_retransmission (ts_tcb s') = tcb_retransmission (ts_tcb s) \<or> tcb_retransmission (ts_tcb s') = None"
    "\<And>p. p \<in> set (ts_sent s') \<union> set_option (ts_packet_to_send s') \<Longrightarrow>
       p \<notin> set (ts_sent s) \<union> set_option (ts_packet_to_send s) \<Longrightarrow>
       etherparse_ok ep \<Longrightarrow> family_ok s \<Longrightarrow> reply_ok b ep s p"
  shows "live b ep s0 s'"
proof -
  note cong = reply_ok_cong [OF assms(2-4), of b ep]
  have "out_ok b ep s'" if "etherparse_ok ep" "family_ok s" "out_ok b ep s"
    using assms(8) that unfolding out_ok_def cong by blast
  then have "live b ep s s'"
    using assms(2-7) by (auto simp: live_def)
  with assms(1) show ?thesis by (rule live_trans)
qed

lemma live_tcb:
  assumes "live b ep s0 s" "conn_path (st_of s) (get_state t)"
    "tcb_retransmission t = tcb_retransmission (ts_tcb s) \<or> tcb_retransmission t = None"
  shows "live b ep s0 (s\<lparr>ts_tcb := t\<rparr>)"
  using assms by (intro live_update [OF assms(1)]) auto

lemma live_upd_tcb:
  assumes "live b ep s0 s" "conn_path (st_of s) (get_state (f (ts_tcb s)))"
    "tcb_retransmission (f (ts_tcb s)) = tcb_retransmission (ts_tcb s) \<or> tcb_retransmission (f (ts_tcb s)) = None"
  shows "live b ep s0 (upd_tcb f s)"
  using live_tcb [OF assms] by (simp add: upd_tcb_def)

lemma live_frame:
  assumes "live b ep s0 s"
  shows "live b ep s0 (s\<lparr>ts_write_notify := x\<rparr>)" "live b ep s0 (shutdown_ready s)"
    "live b ep s0 (notify_writer s)" "live b ep s0 (shutdown_pending y s)"
  by (rule live_update [OF assms]; auto simp: shutdown_pending_def)+

lemma live_pending:
  assumes "live b ep s0 s" "reply_if b ep s p"
  shows "live b ep s0 (s\<lparr>ts_packet_to_send := Some p\<rparr>)"
  using assms(2) by (intro live_update [OF assms(1)]) (auto simp: reply_if_def)

lemma live_sent:
  assumes "live b ep s0 s" "ts_sent s = ps" "reply_if b ep s p"
  shows "live b ep s0 (s\<lparr>ts_sent := ps @ [p]\<rparr>)"
  using assms(2,3) by (intro live_update [OF assms(1)]) (auto simp: reply_if_def)

lemma edge_path: "conn_edge st st' \<Longrightarrow> conn_path st st'" by blast

lemma live_set_state:
  assumes "live b ep s0 s" "conn_edge (st_of s) st"
  shows "live b ep s0 (set_state st s)" 
  using live_upd_tcb [OF assms(1), of "\<lambda>t. change_state t st"] assms(2)
  by (auto simp: change_state_def get_state_def)

text \<open>A flush that found a retransmission to do.\<close>

definition flush_done :: "build \<Rightarrow> 'x etherparse \<Rightarrow> 'x tcp_stream \<Rightarrow> 'x tcp_stream \<Rightarrow> bool" where
  "flush_done b ep s s' \<longleftrightarrow> s' = flushed [] s \<or>
    (\<exists>p sq d. s' = flushed [p] s \<and>
       tcp_create_rev_packet b ep (upd_tcb (\<lambda>t. t\<lparr>tcb_retransmission := None\<rparr>) s) (PSH OR ACK) (TTL b) sq d =
         Some (Inr p))"

lemma poll_flush_sends:
  assumes "poll_flush b ep cx s = Some (s', r)"
  shows "s' = s \<and> (st_of s \<noteq> Established \<or> tcb_retransmission (ts_tcb s) = None) \<or> flush_done b ep s s'"
proof -
  have "flushed [] s = upd_tcb (\<lambda>t. t\<lparr>tcb_retransmission := None\<rparr>) s"
    by (simp add: flushed_def upd_tcb_def)
  with assms show ?thesis
    by (auto simp: poll_flush_def Let_def mpsc_send_def flushed_def flush_done_def
        split: if_splits option.splits sum.splits)
qed

lemma live_flush_done:
  assumes "live b ep s0 s" "flush_done b ep s s'"
  shows "live b ep s0 s'"
proof -
  let ?s = "upd_tcb (\<lambda>t. t\<lparr>tcb_retransmission := None\<rparr>) s"
  have reply: "reply_ok b ep s p"
    if "etherparse_ok ep" "family_ok s" "tcp_create_rev_packet b ep ?s (PSH OR ACK) (TTL b) sq d = Some (Inr p)"
    for p sq d
  proof -
    have fam: "family_ok ?s" using that(2) by (simp add: family_ok_def)
    from tcp_create_rev_packet_ok [OF that(1) fam, of b "PSH OR ACK" "TTL b" sq d] that(3)
    have "is_reply ep ?s (PSH OR ACK) (TTL b) sq d p" by (metis option.inject sum.inject(2))
    then have "reply_ok b ep ?s p" by (rule is_reply_reply_ok) simp
    then show ?thesis using reply_ok_cong [of ?s s b ep] by simp
  qed
  from assms(2) [unfolded flush_done_def] show ?thesis
  proof (elim disjE exE conjE)
    assume "s' = flushed [] s"
    then show ?thesis by (intro live_update [OF assms(1)]) (auto simp: flushed_def get_state_def)
  next
    fix p sq d assume "s' = flushed [p] s" "tcp_create_rev_packet b ep ?s (PSH OR ACK) (TTL b) sq d = Some (Inr p)"
    with reply show ?thesis by (intro live_update [OF assms(1)]) (auto simp: flushed_def get_state_def)
  qed
qed

lemma live_poll_flush:
  "live b ep s0 s \<Longrightarrow> poll_flush b ep cx s = Some (s', r) \<Longrightarrow> live b ep s0 s'"
  using poll_flush_sends live_flush_done by blast

text \<open>The flush that answers a retransmission request.\<close>

lemma live_retransmit:
  assumes "live b ep s0 s" "st_of s = Established"
    "poll_flush b ep cx (upd_tcb (\<lambda>t. t\<lparr>tcb_retransmission := Some q\<rparr>) s) = Some (s', r)"
  shows "live b ep s0 s'"
proof -
  let ?s = "upd_tcb (\<lambda>t. t\<lparr>tcb_retransmission := Some q\<rparr>) s"
  have "flush_done b ep ?s s'"
    using poll_flush_sends [OF assms(3)] assms(2) by (auto simp: get_state_def)
  then have "flush_done b ep s s'" by (simp add: flush_done_def flushed_def upd_tcb_def)
  with assms(1) show ?thesis by (rule live_flush_done)
qed

section \<open>The steps of poll\_read\<close>

lemma read_retransmission_live: "keeps (live b ep s) (read_retransmission b ep cx s)"
proof (cases "poll_flush b ep cx (s\<lparr>ts_write_notify := Some (cx_waker cx)\<rparr>)")
  case (Some r)
  obtain s' x where r: "r = (s', x)" by (cases r)
  have "live b ep s s'"
    using live_poll_flush [OF live_frame(1) [OF live_refl] Some [unfolded r]] .
  with Some r show ?thesis by (cases x) (simp_all add: read_retransmission_def live_refl)
qed (simp add: read_retransmission_def live_refl)

lemma read_send_pending_live: "keeps (live b ep s) (read_send_pending cx s)"
proof (cases "ts_packet_to_send s")
  case (Some p)
  have "live b ep s (s\<lparr>ts_packet_to_send := None\<rparr>)"
    by (rule live_update [OF live_refl]) auto
  moreover have "live b ep s (s\<lparr>ts_packet_to_send := None, ts_sent := ts_sent s @ [p]\<rparr>)"
    using Some by (intro live_update [OF live_refl]) auto
  ultimately show ?thesis
    using Some by (auto simp: read_send_pending_def intro!: keeps_send_or_eof)
qed (simp add: read_send_pending_def live_refl)

lemma read_closed_live: "keeps (live b ep s) (read_closed b ep s)"
  unfolding read_closed_def
  by (auto intro!: keeps_with_packet live_refl live_frame live_set_state live_pending closed)

lemma live_setters:
  assumes "live b ep s0 s"
  shows "live b ep s0 (upd_tcb (\<lambda>t. change_recv_window t (f t)) s)"
    "live b ep s0 (upd_tcb (reset_timeout now) s)" "live b ep s0 (upd_tcb add_seq_one s)"
    "live b ep s0 (upd_tcb (\<lambda>t. add_ack t n) s)" "live b ep s0 (upd_tcb (\<lambda>t. add_ack (add_seq_one t) n) s)"
    "live b ep s0 (upd_tcb (\<lambda>t. add_unordered_packet t q d) s)"
  by (rule live_upd_tcb [OF assms]; simp add: tcb_setters get_state_def reset_timeout_def
      add_unordered_packet_def)+

lemma read_timeout_live: "keeps (live b ep s) (read_timeout b ep cx s)"
  unfolding read_timeout_def Let_def
  by (auto intro!: keeps_with_packet keeps_send_or_eof live_refl live_frame live_set_state live_sent live_setters closed)

lemma read_syn_live: "keeps (live b ep s) (read_syn b ep s)"
  unfolding read_syn_def
  by (auto intro!: keeps_with_packet live_refl live_pending live_set_state live_setters syn_ack_sent)

lemma read_deliver_live: "keeps (live b ep s) (read_deliver b ep cx cap s)"
proof -
  obtain d t where g: "get_unordered_packets (ts_tcb s) = (d, t)" by force
  then have "tcb_state t = tcb_state (ts_tcb s)" "tcb_retransmission t = tcb_retransmission (ts_tcb s)"
    by (auto simp: get_unordered_packets_def)
  then have s: "live b ep s (s\<lparr>ts_tcb := t\<rparr>)" by (intro live_tcb live_refl) (simp_all add: get_state_def)
  show ?thesis
  proof (cases "ts_shutdown s = ShutdownNone \<and> d \<noteq> None \<and> length (the d) \<le> cap")
    case True
    with s g show ?thesis
      by (auto simp: read_deliver_def put_slice_def Let_def
          intro!: keeps_with_packet keeps_send_or_eof live_setters live_sent)
  next
    case False
    with s g show ?thesis by (auto simp: read_deliver_def put_slice_def Let_def split: option.splits)
  qed
qed

lemma read_fin_live: "keeps (live b ep s) (read_fin b ep s)"
  unfolding read_fin_def
  by (auto intro!: keeps_with_packet live_refl live_pending live_set_state live_setters fin_sent own_fin_sent)

lemma before_recv_live: "keeps (live b ep s) (before_recv b ep cx cap s)"
  unfolding before_recv_def
  by (intro keeps_then_do read_retransmission_live read_send_pending_live read_closed_live read_timeout_live
      read_syn_live read_deliver_live read_fin_live)

section \<open>One received packet\<close>

lemma live_opt:
  assumes "live b ep s0 s"
  shows "change_last_ack b' (ts_tcb s) a = Some t \<Longrightarrow> live b ep s0 (s\<lparr>ts_tcb := t\<rparr>)"
    "change_send_window b' (ts_tcb s) x = Some t \<Longrightarrow> live b ep s0 (s\<lparr>ts_tcb := t\<rparr>)"
  by (auto intro!: live_tcb assms dest!: change_last_ack_frame change_send_window_frame')

lemma recv_syn_received_live:
  assumes "st_of s = SynReceived True"
  shows "keeps (live b ep s) (recv_syn_received b h s)"
proof (cases "flags h = ACK")
  case True
  show ?thesis
    unfolding recv_syn_received_def if_P [OF True]
  proof (intro keeps_upd_tcb_opt)
    fix t t' assume t: "change_last_ack b (ts_tcb s) (tcp_acknowledgment_number (inner h)) = Some t"
      "change_send_window b (ts_tcb (s\<lparr>ts_tcb := t\<rparr>)) (tcp_window_size (inner h)) = Some t'"
    have "live b ep s (s\<lparr>ts_tcb := t, ts_tcb := t'\<rparr>)"
      using live_opt(2) [OF live_opt(1) [OF live_refl t(1)] t(2)] .
    moreover have "get_state t' = SynReceived True"
      using t assms by (auto dest!: change_last_ack_frame change_send_window_frame')
    ultimately show "keeps (live b ep s) (Some (Continue (set_state Established (s\<lparr>ts_tcb := t, ts_tcb := t'\<rparr>))))"
      by (auto intro!: live_set_state established)
  qed
qed (simp add: recv_syn_received_def live_refl)

lemma get_retransmission_setters [simp]:
  "tcb_retransmission (add_unordered_packet t q d) = tcb_retransmission t"
  "tcb_retransmission (add_ack t n) = tcb_retransmission t"
  "tcb_retransmission (change_state t st) = tcb_retransmission t"
  by (simp_all add: add_unordered_packet_def tcb_setters)

lemmas tcb_frames = change_last_ack_frame change_send_window_frame'

lemma recv_established_ack_live:
  assumes "st_of s = Established"
  shows "keeps (live b ep s) (recv_established_ack b ep cx h d s)"
proof (cases "check_pkt_type (ts_tcb s) h d")
  case WindowUpdate
  then show ?thesis
    by (auto simp: recv_established_ack_def intro!: keeps_upd_tcb_opt live_frame live_tcb live_refl dest!: tcb_frames)
next
  case RetransmissionRequest
  show ?thesis
    unfolding recv_established_ack_def Let_def RetransmissionRequest packet_status.case
  proof (intro keeps_upd_tcb_opt)
    fix t assume t: "change_send_window b (ts_tcb s) (tcp_window_size (inner h)) = Some t"
    let ?r = "poll_flush b ep cx (upd_tcb (\<lambda>tcb. tcb\<lparr>tcb_retransmission := Some (tcp_acknowledgment_number (inner h))\<rparr>) (s\<lparr>ts_tcb := t\<rparr>))"
    have s: "live b ep s (s\<lparr>ts_tcb := t\<rparr>)" "st_of (s\<lparr>ts_tcb := t\<rparr>) = Established"
      using t assms by (auto intro!: live_tcb live_refl dest!: tcb_frames)
    show "keeps (live b ep s) (do { (s, r) \<leftarrow> ?r;
        case r of Pending \<Rightarrow> Some (Return s [] Pending) | Ready x \<Rightarrow> Some (Continue s) })"
    proof (cases ?r)
      case (Some x)
      obtain s' y where x: "x = (s', y)" by (cases x)
      have "live b ep s s'" using live_retransmit [OF s Some [unfolded x]] .
      with Some x show ?thesis by (cases y) simp_all
    qed simp
  qed
next
  case KeepAlive
  then show ?thesis
    by (auto simp: recv_established_ack_def
        intro!: keeps_upd_tcb_opt keeps_with_packet live_pending live_tcb live_refl dest!: tcb_frames)
qed (auto simp: recv_established_ack_def Let_def upd_tcb_def
    intro!: keeps_upd_tcb_opt live_frame live_tcb live_refl dest!: tcb_frames)

lemma recv_established_live:
  assumes "st_of s = Established"
  shows "keeps (live b ep s) (recv_established b ep cx h d s)"
proof -
  consider "flags h = ACK" | "flags h \<noteq> ACK" "flags h = (FIN OR ACK)"
    | "flags h \<noteq> ACK" "flags h \<noteq> (FIN OR ACK)" "flags h = (PSH OR ACK)"
    | "flags h \<noteq> ACK" "flags h \<noteq> (FIN OR ACK)" "flags h \<noteq> (PSH OR ACK)" by blast
  then show ?thesis
  proof cases
    case 1
    with recv_established_ack_live [OF assms] show ?thesis by (simp add: recv_established_def)
  next
    case 2
    with assms show ?thesis
      by (auto simp: recv_established_def Let_def
          intro!: keeps_with_packet live_set_state live_pending live_setters live_refl peer_closes)
  next
    case 3
    then show ?thesis
      by (auto simp: recv_established_def upd_tcb_def
          intro!: keeps_upd_tcb_opt live_tcb live_refl dest!: tcb_frames)
  qed (simp add: recv_established_def live_refl)
qed

lemma recv_fin_wait1_live:
  assumes "st_of s = FinWait1 False"
  shows "keeps (live b ep s) (recv_fin_wait1 b ep h s)"
proof -
  consider "flags h = ACK" | "flags h \<noteq> ACK" "flags h = (FIN OR ACK)"
    | "flags h \<noteq> ACK" "flags h \<noteq> (FIN OR ACK)" by blast
  then show ?thesis
  proof cases
    case 1
    with assms show ?thesis
      by (auto simp: recv_fin_wait1_def upd_tcb_def edge_path [OF fin_answered]
          intro!: keeps_upd_tcb_opt live_tcb live_refl dest!: tcb_frames)
  next
    case 2
    with assms show ?thesis
      by (auto simp: recv_fin_wait1_def upd_tcb_def Let_def edge_path [OF fin_answered]
          intro!: keeps_with_packet keeps_upd_tcb_opt live_tcb live_pending live_refl dest!: tcb_frames)
  qed (simp add: recv_fin_wait1_def live_refl)
qed

lemma recv_fin_wait2_live:
  assumes "st_of s = FinWait2 True"
  shows "keeps (live b ep s) (recv_fin_wait2 b ep h s)"
  using assms unfolding recv_fin_wait2_def
  by (auto intro!: keeps_with_packet live_set_state live_pending live_refl last_ack)

lemma recv_packet_live: "keeps (live b ep s) (recv_packet b ep cx p s)"
  using recv_syn_received_live recv_established_live recv_fin_wait1_live recv_fin_wait2_live
  by (auto simp: recv_packet_def split: ip_stack_packet_protocol.splits
      intro!: keeps_with_packet live_frame live_set_state live_pending live_refl closed)

section \<open>Whole calls\<close>

lemma poll_read_loop_keeps:
  assumes "poll_read_loop b ep cx cap rs s = Some (s', out, r)" "P s"
    "\<And>s. P s \<Longrightarrow> keeps P (before_recv b ep cx cap s)"
    "\<And>p s. P s \<Longrightarrow> Some p \<in> set rs \<Longrightarrow> keeps P (recv_packet b ep cx p s)"
  shows "P s'"
  using assms(1,2)
  by (rule poll_read_loop_ends [where Q = "\<lambda>s _. P s"]) (use assms(3,4) in \<open>auto simp: keeps_def flow_all_to\<close>)

lemma poll_read_loop_live:
  assumes "poll_read_loop b ep cx cap rs s = Some (s', out, r)"
  shows "live b ep s s'"
  using assms live_refl
proof (rule poll_read_loop_keeps)
  fix s' assume s': "live b ep s s'"
  show "keeps (live b ep s) (before_recv b ep cx cap s')" by (rule keeps_live [OF s' before_recv_live])
  show "keeps (live b ep s) (recv_packet b ep cx p s')" for p by (rule keeps_live [OF s' recv_packet_live])
qed

lemma write_packet_live:
  assumes "write_packet b ep cx s buf = Some (s', r)"
  shows "live b ep s s'"
proof (cases "\<exists>p. tcp_create_rev_packet b ep s (PSH OR ACK) (TTL b) None buf = Some (Inr p)")
  case True
  then obtain p where p: "tcp_create_rev_packet b ep s (PSH OR ACK) (TTL b) None buf = Some (Inr p)" ..
  let ?k = "\<lambda>p. Some (Return (upd_tcb (\<lambda>t. add_inflight_packet t (get_seq (ts_tcb s)) (np_payload p))
      (s\<lparr>ts_sent := ts_sent s @ [p]\<rparr>)) [] Pending)"
  have "keeps (live b ep s) (with_packet (tcp_create_rev_packet b ep s (PSH OR ACK) (TTL b) None buf) s [] ?k)"
    by (auto intro!: keeps_with_packet live_refl live_upd_tcb live_sent
        simp: add_inflight_packet_def get_state_def)
  with p assms show ?thesis
    by (auto simp: with_packet_def write_packet_def Let_def mpsc_send_def live_refl split: if_splits)
next
  case False
  with assms show ?thesis
    by (auto simp: write_packet_def live_refl split: option.splits sum.splits)
qed

lemma poll_write_live:
  assumes "poll_write b ep cx s buf = Some (s', r)"
  shows "live b ep s s'"
proof -
  let ?s = "upd_tcb (reset_timeout (cx_now cx)) s"
  have s: "live b ep s ?s" "live b ep s (?s\<lparr>ts_write_notify := x\<rparr>)" for x
    by (intro live_frame live_setters live_refl)+
  have wr: "live b ep s s'" if "live b ep s s1" "write_packet b ep cx s1 buf = Some (s', r)" for s1
    using that write_packet_live live_trans by blast
  have flush: "live b ep s s'"
    if "do { (s, x) \<leftarrow> poll_flush b ep cx (?s\<lparr>ts_write_notify := Some (cx_waker cx)\<rparr>);
             case x of Pending \<Rightarrow> Some (s, Pending) | Ready _ \<Rightarrow> write_packet b ep cx s buf } = Some (s', r)"
  proof -
    from that obtain s1 x where f: "poll_flush b ep cx (?s\<lparr>ts_write_notify := Some (cx_waker cx)\<rparr>) = Some (s1, x)"
        "(case x of Pending \<Rightarrow> Some (s1, Pending) | Ready _ \<Rightarrow> write_packet b ep cx s1 buf) = Some (s', r)"
      by (auto simp: bind_eq_Some_conv)
    have "live b ep s s1" using live_poll_flush [OF s(2) f(1)] .
    with f(2) wr show ?thesis by (cases x) auto
  qed
  show ?thesis
    using assms s wr [OF s(1)] flush
    by (simp add: poll_write_def Let_def live_refl split: if_splits) (auto simp: live_refl)
qed

lemma do_call_live:
  assumes "do_call b ep call s = Some s'"
  shows "live b ep s s'"
proof (cases call)
  case (ShutdownCall cx rs)
  let ?s = "if ts_shutdown s = ShutdownNone then shutdown_pending (cx_waker cx) s else s"
  have "live b ep s ?s" by (simp add: live_frame live_refl)
  then show ?thesis
    using assms ShutdownCall poll_read_loop_live [of b ep cx 1 rs ?s] live_trans
    by (auto simp: poll_shutdown_def poll_read_def Let_def live_refl split: if_splits)
next
  case (FlushCall cx)
  with assms show ?thesis by (auto intro: live_poll_flush live_refl)
next
  case (ReadCall cx cap rs)
  with assms show ?thesis by (auto simp: poll_read_def intro: poll_read_loop_live)
next
  case (WriteCall cx buf)
  with assms show ?thesis by (auto intro: poll_write_live)
qed

section \<open>Reachable streams\<close>

inductive tcp_step :: "build \<Rightarrow> 'x etherparse \<Rightarrow> 'x tcp_stream \<Rightarrow> 'x tcp_stream \<Rightarrow> bool" for b ep where
  call_returns: "do_call b ep call s = Some s' \<Longrightarrow> tcp_step b ep s s'"

inductive_cases tcp_step_call: "tcp_step b ep s s'"

definition tcp_init :: "build \<Rightarrow> 'x etherparse \<Rightarrow> socket_addr \<Rightarrow> socket_addr \<Rightarrow> u16 \<Rightarrow> 'x tcp_stream \<Rightarrow> bool" where
  "tcp_init b ep src dst mtu s \<longleftrightarrow>
     (\<exists>cx rnd tcp tmo sent. tcp_stream_new b ep cx rnd src dst tcp mtu tmo = Some (sent, Inr s))"

definition life_inv :: "build \<Rightarrow> 'x etherparse \<Rightarrow> socket_addr \<Rightarrow> socket_addr \<Rightarrow> u16 \<Rightarrow> 'x tcp_stream \<Rightarrow> bool" where
  "life_inv b ep src dst mtu s \<longleftrightarrow>
     ts_src_addr s = src \<and> ts_dst_addr s = dst \<and> ts_mtu s = mtu \<and>
     tcb_retransmission (ts_tcb s) = None \<and>
     (etherparse_ok ep \<and> same_family (sa_ip dst) (sa_ip src) \<longrightarrow> out_ok b ep s)"

interpretation tcp_life: invariant "tcp_init b ep src dst mtu" "tcp_step b ep" "life_inv b ep src dst mtu"
  for b and ep :: "'x etherparse" and src dst mtu
proof unfold_locales
  fix s assume "tcp_init b ep src dst mtu s"
  then obtain cx rnd tcp tmo sent where new: "tcp_stream_new b ep cx rnd src dst tcp mtu tmo = Some (sent, Inr s)"
    unfolding tcp_init_def by blast
  obtain ack where "s = \<lparr>ts_src_addr = src, ts_dst_addr = dst, ts_sent = [], ts_packet_to_send = None,
      ts_tcb = tcb_new b rnd (cx_now cx) ack tmo, ts_mtu = mtu,
      ts_shutdown = ShutdownNone, ts_write_notify = None, ts_wakes = []\<rparr>"
    using tcp_stream_new_Inr [OF new] by blast
  then show "life_inv b ep src dst mtu s" by (simp add: life_inv_def out_ok_def tcb_new_def)
next
  fix s t assume "life_inv b ep src dst mtu s" "tcp_step b ep s t"
  then show "life_inv b ep src dst mtu t"
    by (auto elim!: tcp_step_call dest!: do_call_live simp: life_inv_def live_def family_ok_def)
qed

lemma path_from_Closed: "conn_path Closed st \<Longrightarrow> st = Closed"
  by (induction rule: rtranclp_induct) (auto elim: conn_edge_Closed)

lemma path_to_SynReceived: "conn_path st (SynReceived sent) \<Longrightarrow> \<exists>sent'. st = SynReceived sent'"
  by (induction rule: converse_rtranclp_induct) (auto elim: conn_edge.cases)

lemma path_to_Established: "conn_path st Established \<Longrightarrow> st = Established \<or> (\<exists>sent. st = SynReceived sent)"
  by (induction rule: converse_rtranclp_induct) (auto elim: conn_edge.cases)

text \<open>A step for evaluation: the first \<open>poll_read\<close> of the sample stream sends the SYN/ACK.\<close>

lemma sample_state: "st_of (sample_stream st) = st"
  by (simp add: sample_stream_def change_state_def get_state_def)

lemma sample_first_step:
  obtains s1 p where "tcp_step sample_build sample_ep (sample_stream (SynReceived False)) s1"
    "st_of s1 = SynReceived True" "ts_sent s1 = [p]" "ttl p = 64"
proof -
  let ?s = "sample_stream (SynReceived False)"
  have t: "ts_tcb ?s = tcb_new sample_build 0 0 8 60" "ts_sent ?s = []" "ts_packet_to_send ?s = None"
    "ts_shutdown ?s = ShutdownNone" "\<forall>d. \<not> cx_sleep_ready sample_cx d" "cx_send_ok sample_cx 0"
    by (simp_all add: sample_stream_def change_state_def tcb_new_def sample_cx_def)
  obtain s1 p where s1: "poll_read sample_build sample_ep sample_cx 16 [] ?s = Some (s1, [], Pending)"
      "ts_sent s1 = [p]" "is_reply sample_ep (idle sample_cx ?s) (SYN OR ACK) (TTL sample_build) None [] p"
      "ts_tcb s1 = ts_tcb (idle sample_cx (set_state (SynReceived True) (upd_tcb add_seq_one ?s)))"
    using first_poll_read [OF sample_etherparse_ok sample_family_ok t, where cap = 16] by blast
  have "tcp_step sample_build sample_ep ?s s1"
    using s1(1) by (intro call_returns [where call = "ReadCall sample_cx 16 []"]) simp
  moreover have "st_of s1 = SynReceived True" by (simp add: s1(4) idle_def)
  moreover have "ttl p = 64" using s1(3) by (simp add: is_reply_def TTL_def cfg_unix_def sample_build_def)
  ultimately show thesis using that s1(2) by blast
qed

text \<open>
  C18: whatever call is made on a TCP stream, with whatever arriving and failing, its
  connection state only moves along the edges of the state diagram \<open>conn_edge\<close>; so a closed
  stream stays closed, and an established connection was half-open or established before.
  What has been sent is never taken back, and the addresses and the MTU do not change.
\<close>

theorem tcp_state_forward:
  assumes "tcp_step b ep s s'"
  shows "conn_path (st_of s) (st_of s') \<and> (st_of s = Closed \<longrightarrow> st_of s' = Closed) \<and>
     (st_of s' = Established \<longrightarrow> st_of s \<in> {SynReceived False, SynReceived True, Established}) \<and>
     prefix (ts_sent s) (ts_sent s') \<and>
     ts_src_addr s' = ts_src_addr s \<and> ts_dst_addr s' = ts_dst_addr s \<and> ts_mtu s' = ts_mtu s"
proof -
  have "live b ep s s'" using assms by (auto elim!: tcp_step_call intro: do_call_live)
  then have p: "conn_path (st_of s) (st_of s')" "prefix (ts_sent s) (ts_sent s')"
    "ts_src_addr s' = ts_src_addr s" "ts_dst_addr s' = ts_dst_addr s" "ts_mtu s' = ts_mtu s"
    by (simp_all add: live_def)
  moreover have "st_of s' = Closed" if "st_of s = Closed" using p(1) that path_from_Closed by simp
  moreover have "st_of s \<in> {SynReceived False, SynReceived True, Established}" if "st_of s' = Established"
    using path_to_Established [of "st_of s"] p(1) that by auto
  ultimately show ?thesis by blast
qed

theorem tcp_state_forward_witness:
  "\<exists>s1. tcp_step sample_build sample_ep (sample_stream (SynReceived False)) s1 \<and>
        conn_path (SynReceived False) (st_of s1) \<and> st_of s1 = SynReceived True"
proof -
  obtain s1 p where s1: "tcp_step sample_build sample_ep (sample_stream (SynReceived False)) s1"
      "st_of s1 = SynReceived True" "ts_sent s1 = [p]" by (rule sample_first_step)
  then show ?thesis using tcp_state_forward [OF s1(1)] by (auto simp: sample_state)
qed

lemma reply_ok_serialises:
  assumes "reply_ok b ep s p" "etherparse_ok ep"
  shows "\<exists>bs. to_bytes ep p = Inr bs \<and> length bs \<le> max (unat (ts_mtu s)) (tcp_headers_len s)"
proof -
  obtain x y where "to_bytes ep p = Inr (x @ y @ np_payload p)"
    "length x = ip_len ep (np_ip p)" "length y = transport_len ep (np_transport p)"
    using assms(2) by (rule to_bytes_split)
  with assms(1) show ?thesis by (auto simp: wire_len_def reply_ok_def)
qed

text \<open>
  Every packet that a TCP stream ever hands to the stack, in any run of calls from its
  creation, belongs to its session: its reversed address tuple is the key under which the
  stack keeps the stream, it serialises, into no more than the MTU (or the bare headers,
  if the MTU is smaller), and its TTL is the usual one or the one that ends the session.
\<close>

lemma tcp_session_packets:
  assumes "reachable (tcp_init b ep src dst mtu) (tcp_step b ep) s"
    "etherparse_ok ep" "same_family (sa_ip dst) (sa_ip src)" "p \<in> set (ts_sent s)"
  shows "reverse_network_tuple p = \<lparr>nt_src = src, nt_dst = dst, nt_tcp = True\<rparr> \<and>
     (\<exists>bs. to_bytes ep p = Inr bs \<and>
        length bs \<le> max (unat mtu) (case sa_ip dst of V4 _ \<Rightarrow> 40 | V6 _ \<Rightarrow> 60)) \<and>
     (ttl p = DROP_TTL \<or> ttl p = TTL b)"
proof -
  have inv: "life_inv b ep src dst mtu s" using assms(1) by (rule tcp_life.inv_reachable)
  then have p: "reply_ok b ep s p" using assms(2-4) by (simp add: life_inv_def out_ok_def)
  with inv reply_ok_serialises [OF p assms(2)] show ?thesis
    by (auto simp: reply_ok_def life_inv_def reverse_network_tuple_def is_tcp_def tcp_headers_len_def)
qed

end
