(* ===== verification/Tcp_Data.thy ===== *)
theory Tcp_Data
  imports Tcp_Life
begin

text \<open>
  The bytes a TCP stream transfers: what \<open>poll_write\<close> sends of the application's bytes,
  and that \<open>poll_read\<close> hands out the peer's bytes in order.
\<close>

section \<open>Receiving: what is kept\<close>

text \<open>
  \<open>D\<close> is the peer's byte stream and \<open>base\<close> the sequence number of its first byte.
  The connection is open or closed (not closing), and the reassembly buffer holds segments
  of \<open>D\<close>.
\<close>

definition data_inv :: "bytes \<Rightarrow> nat \<Rightarrow> 'x tcp_stream \<Rightarrow> bool" where
  "data_inv D base s \<longleftrightarrow>
     recv_inv base (ts_tcb s) \<and> recv_pos base (ts_tcb s) \<le> length D \<and>
     (\<forall>off d. recv_held base (ts_tcb s) off = Some d \<longrightarrow> fragment D off d) \<and>
     st_of s \<in> {SynReceived False, SynReceived True, Established, Closed} \<and>
     (ts_shutdown s \<noteq> ShutdownNone \<longrightarrow> st_of s = Closed)"

definition data_at :: "bytes \<Rightarrow> nat \<Rightarrow> nat \<Rightarrow> 'x tcp_stream \<Rightarrow> bool" where
  "data_at D base n s \<longleftrightarrow> data_inv D base s \<and> recv_pos base (ts_tcb s) = n"

text \<open>Where a step ends that started with \<open>n\<close> bytes delivered.\<close>

fun flow_data :: "bytes \<Rightarrow> nat \<Rightarrow> nat \<Rightarrow> 'x flow \<Rightarrow> bool" where
  "flow_data D base n (Proceed s) \<longleftrightarrow> data_at D base n s"
| "flow_data D base n (Continue s) \<longleftrightarrow> data_at D base n s"
| "flow_data D base n (Return s out r) \<longleftrightarrow>
     data_at D base (n + length out) s \<and> out = take (length out) (drop n D)"

definition data_keeps :: "bytes \<Rightarrow> nat \<Rightarrow> nat \<Rightarrow> 'x flow option \<Rightarrow> bool" where
  "data_keeps D base n m \<longleftrightarrow> (\<forall>f. m = Some f \<longrightarrow> flow_data D base n f)"

lemma data_keeps_simps [simp]:
  "data_keeps D base n None" "data_keeps D base n (Some f) \<longleftrightarrow> flow_data D base n f"
  by (simp_all add: data_keeps_def)





section \<open>Updates\<close>










section \<open>The steps of poll\_read\<close>











section \<open>One received packet\<close>

text \<open>
  A packet of the peer's stream: TCP, without FIN, and if it carries bytes, they are the
  bytes of \<open>D\<close> at the position its sequence number says.
\<close>

definition data_packet :: "bytes \<Rightarrow> nat \<Rightarrow> 'x network_packet \<Rightarrow> bool" where
  "data_packet D base p \<longleftrightarrow>
     (case np_transport p of
        Tcp h \<Rightarrow> \<not> tcp_fin h \<and>
          (np_payload p = [] \<or> base \<le> unat (tcp_sequence_number h) \<and>
             fragment D (unat (tcp_sequence_number h) - base) (np_payload p))
      | _ \<Rightarrow> False)"






section \<open>Whole runs\<close>



fun data_call :: "bytes \<Rightarrow> nat \<Rightarrow> 'x call \<Rightarrow> bool" where
  "data_call D base (ReadCall cx cap rs) \<longleftrightarrow> list_all (pred_option (data_packet D base)) rs"
| "data_call D base (ShutdownCall cx rs) \<longleftrightarrow> False"
| "data_call D base _ \<longleftrightarrow> True"

text \<open>The answers of the stream's channel in a call, and calls with room for segments of \<open>m\<close> bytes.\<close>

fun call_answers :: "'x call \<Rightarrow> 'x network_packet option list" where
  "call_answers (ReadCall cx cap rs) = rs"
| "call_answers (ShutdownCall cx rs) = rs"
| "call_answers _ = []"

fun call_room :: "nat \<Rightarrow> 'x call \<Rightarrow> bool" where
  "call_room m (ReadCall cx cap rs) \<longleftrightarrow> m \<le> cap"
| "call_room m (ShutdownCall cx rs) \<longleftrightarrow> False"
| "call_room m _ \<longleftrightarrow> True"

lemma call_ok:
  assumes "call_room m c" "\<forall>q. Some q \<in> set (call_answers c) \<longrightarrow> data_packet D base q \<and> good_packet iss m q"
  shows "data_call D base c \<and> good_call iss m c"
  using assms by (cases c) (auto simp: list_all_iff option.pred_set)









end
