(* ===== verification/Tcp_Write.thy ===== *)
theory Tcp_Write
  imports Tcp_Life
begin

text \<open>
  Single calls on an established TCP stream: what \<open>poll_write\<close> sends and keeps, and when
  an arriving segment is delivered.
\<close>

section \<open>poll\_write\<close>

text \<open>A writer waits while the peer's window is less than half its mean, or 16 KiB are unacknowledged.\<close>

lemma is_send_buffer_full_iff:
  assumes "sender_rel t ds"
  shows "is_send_buffer_full t \<longleftrightarrow> 16384 \<le> length ds"
proof -
  have len: "unat (tcb_last_ack t) + length ds = unat (tcb_seq t)" using assms by (rule sender_rel_length)
  then have "unat (tcb_seq t - tcb_last_ack t) = length ds"
    by (subst unat_sub_in_range) (simp_all add: word_le_nat_alt)
  then show ?thesis by (simp add: is_send_buffer_full_def MAX_UNACK_def word_le_nat_alt)
qed

definition write_blocked :: "tcb \<Rightarrow> bytes \<Rightarrow> bool" where
  "write_blocked t ds \<longleftrightarrow>
     unat (get_send_window t) < unat (get_avg_send_window t) div 2 \<or> 16384 \<le> length ds"

lemma write_blocked_iff:
  assumes "sender_rel t ds"
  shows "(ucast (get_send_window t) < get_avg_send_window t div 2 \<or> is_send_buffer_full t) \<longleftrightarrow> write_blocked t ds"
proof -
  have "unat (ucast (get_send_window t) :: u64) = unat (get_send_window t)"
    using unat_u16_le [of "get_send_window t"] by (simp add: unsigned_ucast_eq take_bit_nat_eq_self)
  then show ?thesis
    unfolding write_blocked_def is_send_buffer_full_iff [OF assms] by (simp add: word_less_nat_alt unat_div)
qed

text \<open>The two ways a write on an established stream goes.\<close>

lemma poll_write_blocks:
  assumes "sender_rel (ts_tcb s) ds" "write_blocked (ts_tcb s) ds"
  shows "poll_write b ep cx s buf =
    Some ((upd_tcb (reset_timeout (cx_now cx)) s)\<lparr>ts_write_notify := Some (cx_waker cx)\<rparr>, Pending)"
proof -
  let ?s = "upd_tcb (reset_timeout (cx_now cx)) s"
  have "sender_rel (ts_tcb ?s) ds" "st_of s = Established"
    using assms(1) by (simp_all add: sender_rel_def reset_timeout_def get_state_def)
  moreover have "write_blocked (ts_tcb ?s) ds"
    using assms(2) by (simp add: write_blocked_def reset_timeout_def tcb_getters)
  ultimately show ?thesis using write_blocked_iff [of "ts_tcb ?s" ds] unfolding poll_write_def Let_def by simp
qed

lemma poll_write_sends:
  assumes "etherparse_ok ep" "family_ok s" "sender_rel (ts_tcb s) ds" "tcb_retransmission (ts_tcb s) = None"
    "length buf < send_room (ts_tcb s)" "cx_send_ok cx (length (ts_sent s))" "\<not> write_blocked (ts_tcb s) ds"
    "n = min (length buf) (payload_room s)"
  obtains s' p h where "poll_write b ep cx s buf = Some (s', Ready (Inr n))" "ts_sent s' = ts_sent s @ [p]"
    "np_transport p = Tcp h" "flags (wrapper_from h) = (PSH OR ACK)" "tcp_sequence_number h = get_seq (ts_tcb s)"
    "np_payload p = take n buf" "sender_rel (ts_tcb s') (ds @ take n buf)"
proof -
  let ?s = "upd_tcb (reset_timeout (cx_now cx)) s"
  have rel: "sender_rel (ts_tcb ?s) ds" and est: "st_of s = Established"
    using assms(3) by (simp_all add: sender_rel_def reset_timeout_def get_state_def)
  have same: "payload_room ?s = payload_room s" "get_seq (ts_tcb ?s) = get_seq (ts_tcb s)"
    "tcb_retransmission (ts_tcb ?s) = None" "send_room (ts_tcb ?s) = send_room (ts_tcb s)" "\<not> write_blocked (ts_tcb ?s) ds"
    using assms(4,7) by (simp_all add: reset_timeout_def tcb_getters payload_room_def tcp_headers_len_def
        send_room_def write_blocked_def)
  have fam: "family_ok ?s" using assms(2) by (simp add: family_ok_def)
  obtain p where p: "tcp_create_rev_packet b ep ?s (PSH OR ACK) (TTL b) None buf = Some (Inr p)"
      "is_reply ep ?s (PSH OR ACK) (TTL b) None buf p"
    using tcp_create_rev_packet_ok [OF assms(1) fam] .
  then obtain h where h: "np_transport p = Tcp h" "tcp_sequence_number h = get_seq (ts_tcb s)"
      "np_payload p = take (payload_room s) buf"
    using same by (auto simp: is_reply_def)
  have fl: "flags (wrapper_from h) = (PSH OR ACK)"
    using is_reply_flags [OF p(2) h(1)] by (simp add: tcp_flags)
  have pl: "np_payload p = take n buf" "length (np_payload p) = n" using h(3) assms(8) by (simp_all add: min_def)
  let ?s' = "upd_tcb (\<lambda>t. add_inflight_packet t (get_seq (ts_tcb ?s)) (np_payload p)) (?s\<lparr>ts_sent := ts_sent s @ [p]\<rparr>)"
  have "poll_write b ep cx s buf = Some (?s', Ready (Inr n))"
    using est write_blocked_iff [OF rel] same(3,5) p(1) assms(6) pl(2)
    unfolding poll_write_def write_packet_def Let_def by (simp add: mpsc_send_def)
  moreover have "sender_rel (ts_tcb ?s') (ds @ take n buf)"
    using sender_rel_push(1) [OF rel, of "take n buf"] assms(5) same(4) pl(1) by (simp add: push_bytes_def)
  ultimately show thesis using that [of ?s' p h] h(1,2) fl pl(1) by simp
qed

text \<open>
  C13: \<open>poll_write\<close> on an established stream that holds the unacknowledged bytes \<open>ds\<close>.
  While the peer's window is less than half its mean, or 16 KiB are unacknowledged, it
  returns \<open>Pending\<close>, sends nothing and leaves its waker for the next acknowledgement.
  Otherwise it sends one PSH/ACK packet with the next sequence number that carries as much of
  the buffer as the peer's window and the MTU allow, returns that number of bytes, and the
  unacknowledged bytes are extended by exactly these; so no more than
  16383 bytes and one packet are ever outstanding.
\<close>

theorem poll_write_contract:
  assumes "etherparse_ok ep" "family_ok s" "sender_rel (ts_tcb s) ds" "tcb_retransmission (ts_tcb s) = None"
    "length buf < send_room (ts_tcb s)" "cx_send_ok cx (length (ts_sent s))"
  shows "\<exists>s' r. poll_write b ep cx s buf = Some (s', r) \<and>
    (if write_blocked (ts_tcb s) ds
     then r = Pending \<and> ts_write_notify s' = Some (cx_waker cx) \<and> ts_sent s' = ts_sent s \<and>
          sender_rel (ts_tcb s') ds
     else \<exists>p h n. n = min (length buf) (min (unat (get_send_window (ts_tcb s)))
                                         (unat (ts_mtu s) - tcp_headers_len s)) \<and>
          r = Ready (Inr n) \<and> ts_sent s' = ts_sent s @ [p] \<and> np_transport p = Tcp h \<and>
          flags (wrapper_from h) = (PSH OR ACK) \<and> tcp_sequence_number h = get_seq (ts_tcb s) \<and>
          np_payload p = take n buf \<and> sender_rel (ts_tcb s') (ds @ take n buf) \<and>
          length (ds @ take n buf) < 16384 + n)"
proof (cases "write_blocked (ts_tcb s) ds")
  case True
  from poll_write_blocks [OF assms(3) True, of b ep cx buf] True assms(3) show ?thesis
    by (simp add: sender_rel_def reset_timeout_def)
next
  case False
  let ?n = "min (length buf) (payload_room s)"
  obtain s' p h where "poll_write b ep cx s buf = Some (s', Ready (Inr ?n))" "ts_sent s' = ts_sent s @ [p]"
    "np_transport p = Tcp h" "flags (wrapper_from h) = (PSH OR ACK)" "tcp_sequence_number h = get_seq (ts_tcb s)"
    "np_payload p = take ?n buf" "sender_rel (ts_tcb s') (ds @ take ?n buf)"
    using poll_write_sends [OF assms False refl] .
  moreover have "length (ds @ take ?n buf) < 16384 + ?n" using False by (simp add: write_blocked_def)
  ultimately show ?thesis
    using False unfolding payload_room_def by (auto intro!: exI [of _ p] exI [of _ h])
qed

lemma sample_sender: "sender_rel (ts_tcb (sample_stream Established)) []"
  by (simp add: sender_rel_def tiles_def sample_stream_def change_state_def tcb_new_def)

theorem poll_write_contract_witness:
  "\<exists>s' p h. poll_write sample_build sample_ep sample_cx (sample_stream Established) [1, 2, 3] =
        Some (s', Ready (Inr 3)) \<and>
      ts_sent s' = [p] \<and> np_transport p = Tcp h \<and> flags (wrapper_from h) = (PSH OR ACK) \<and>
      tcp_sequence_number h = 100 \<and> np_payload p = [1, 2, 3] \<and> sender_rel (ts_tcb s') [1, 2, 3]"
proof -
  let ?s = "sample_stream Established"
  have h: "tcb_retransmission (ts_tcb ?s) = None" "length [1, 2, 3 :: u8] < send_room (ts_tcb ?s)"
    "cx_send_ok sample_cx (length (ts_sent ?s))"
    by (simp_all add: sample_stream_def change_state_def tcb_new_def send_room_def sample_build_def sample_cx_def)
  have v: "\<not> write_blocked (ts_tcb ?s) []" "unat (get_send_window (ts_tcb ?s)) = 65535" "unat (ts_mtu ?s) = 1500"
    "tcp_headers_len ?s = 40" "get_seq (ts_tcb ?s) = 100" "ts_sent ?s = []"
    by (simp_all add: write_blocked_def sample_stream_def change_state_def tcb_new_def tcb_getters
        get_avg_send_window_def tcp_headers_len_def sample_build_def)
  show ?thesis
    using poll_write_contract [OF sample_etherparse_ok sample_family_ok sample_sender h,
        where slicer2 = "\<lambda>_. None" and b = sample_build] v
    by (simp add: numeral_3_eq_3)
qed

text \<open>
  The failures of \<open>poll_write\<close>. Unless the connection is established it fails with
  \<open>NotConnected\<close> and changes nothing. If the stack is gone, it fails with
  \<open>UnexpectedEof\<close>, and the bytes do not become outstanding.
\<close>

lemma poll_write_errors:
  assumes "etherparse_ok ep" "family_ok s" "tcb_retransmission (ts_tcb s) = None"
  shows "(st_of s \<noteq> Established \<longrightarrow> poll_write b ep cx s buf = Some (s, Ready (Inl (Simple NotConnected)))) \<and>
    (sender_rel (ts_tcb s) ds \<and> \<not> write_blocked (ts_tcb s) ds \<and> \<not> cx_send_ok cx (length (ts_sent s)) \<longrightarrow>
     (\<exists>s'. poll_write b ep cx s buf = Some (s', Ready (Inl (Simple UnexpectedEof))) \<and>
           ts_sent s' = ts_sent s \<and> sender_rel (ts_tcb s') ds))"
proof (intro conjI impI)
  let ?s = "upd_tcb (reset_timeout (cx_now cx)) s"
  assume h: "sender_rel (ts_tcb s) ds \<and> \<not> write_blocked (ts_tcb s) ds \<and> \<not> cx_send_ok cx (length (ts_sent s))"
  then have rel: "sender_rel (ts_tcb ?s) ds" and est: "st_of s = Established"
    by (simp_all add: sender_rel_def reset_timeout_def get_state_def)
  have "write_blocked (ts_tcb ?s) ds = write_blocked (ts_tcb s) ds"
    by (simp add: write_blocked_def reset_timeout_def tcb_getters get_avg_send_window_def)
  with h write_blocked_iff [OF rel] have nb: "\<not> (ucast (get_send_window (ts_tcb ?s)) <
      get_avg_send_window (ts_tcb ?s) div 2 \<or> is_send_buffer_full (ts_tcb ?s))" by simp
  have fam: "family_ok ?s" using assms(2) by (simp add: family_ok_def)
  obtain p where p: "tcp_create_rev_packet b ep ?s (PSH OR ACK) (TTL b) None buf = Some (Inr p)"
    using tcp_create_rev_packet_ok [OF assms(1) fam] .
  have "tcb_retransmission (reset_timeout (cx_now cx) (ts_tcb s)) = None"
    using assms(3) by (simp add: reset_timeout_def)
  then have "poll_write b ep cx s buf = Some (?s, Ready (Inl (Simple UnexpectedEof)))"
    using est nb p h unfolding poll_write_def write_packet_def Let_def by (simp add: mpsc_send_def)
  with rel show "\<exists>s'. poll_write b ep cx s buf = Some (s', Ready (Inl (Simple UnexpectedEof))) \<and>
      ts_sent s' = ts_sent s \<and> sender_rel (ts_tcb s') ds" by simp
qed (simp add: poll_write_def)

lemma poll_write_errors_witness:
  "poll_write sample_build sample_ep sample_cx (sample_stream Closed) [1] =
     Some (sample_stream Closed, Ready (Inl (Simple NotConnected)))"
proof -
  have "tcb_retransmission (ts_tcb (sample_stream Closed)) = None" "st_of (sample_stream Closed) \<noteq> Established"
    by (simp add: sample_stream_def change_state_def tcb_new_def) (simp add: sample_state)
  with poll_write_errors [OF sample_etherparse_ok sample_family_ok this(1)] show ?thesis by blast
qed

section \<open>Delivery of a segment\<close>

lemma add_unordered_now: "q = tcb_ack t \<Longrightarrow> tcb_unordered_packets t = [] \<Longrightarrow>
  add_unordered_packet t q d = t\<lparr>tcb_unordered_packets := [(q, unordered_new d)]\<rparr>"
  by (simp add: add_unordered_packet_def)

lemma recv_packet_stores:
  assumes "sender_rel (ts_tcb s) ds" "window_ok c (ts_tcb s)" "c < 2 ^ 47" "tcb_unordered_packets (ts_tcb s) = []"
    "np_transport p = Tcp h" "flags (wrapper_from h) \<in> {ACK, PSH OR ACK}"
    "tcp_sequence_number h = get_ack (ts_tcb s)" "np_payload p \<noteq> []"
    "unat (get_last_ack (ts_tcb s)) \<le> unat (tcp_acknowledgment_number h)"
    "unat (tcp_acknowledgment_number h) \<le> unat (get_seq (ts_tcb s))"
  obtains s' where "recv_packet b ep cx p s = Some (Continue s')"
    "sender_rel (ts_tcb s') (drop (unat (tcp_acknowledgment_number h) - unat (get_last_ack (ts_tcb s))) ds)"
    "tcb_unordered_packets (ts_tcb s') = [(get_ack (ts_tcb s), unordered_new (np_payload p))]"
    "tcb_ack (ts_tcb s') = tcb_ack (ts_tcb s)"
    "tcb_retransmission (ts_tcb s') = tcb_retransmission (ts_tcb s)"
    "ts_sent s' = ts_sent s" "ts_packet_to_send s' = ts_packet_to_send s" "ts_shutdown s' = ts_shutdown s"
    "ts_src_addr s' = ts_src_addr s" "ts_dst_addr s' = ts_dst_addr s"
proof -
  let ?t = "wrapper_from h" and ?a = "tcp_acknowledgment_number h" and ?w = "tcp_window_size h"
  let ?ds = "drop (unat ?a - unat (get_last_ack (ts_tcb s))) ds"
  have i: "transport_protocol p = ProtoTcp ?t" "inner ?t = h"
    using assms(5) by (simp_all add: transport_protocol_def inner_def wrapper_from_def)
  have st: "tcb_state (ts_tcb s) = Established" using assms(1) by (simp add: sender_rel_def)
  have rst: "flags ?t AND RST = 0" using assms(6) by (auto simp: tcp_flags)
  have lo: "tcb_last_ack (ts_tcb s) \<le> ?a" and hi: "?a \<le> tcb_seq (ts_tcb s)"
    using assms(9,10) by (simp_all add: word_le_nat_alt tcb_getters)
  then have valid: "check_pkt_type (ts_tcb s) ?t (np_payload p) = NewPacket"
    using ack_window_unwrapped [OF order_trans [OF lo hi], of ?a] assms(8) i(2)
    by (auto simp: check_pkt_type_def Let_def)
  obtain ps where ps: "change_last_ack b (ts_tcb s) ?a = Some ((ts_tcb s)\<lparr>tcb_last_ack := ?a, tcb_inflight_packets := ps\<rparr>)"
      "sender_rel ((ts_tcb s)\<lparr>tcb_last_ack := ?a, tcb_inflight_packets := ps\<rparr>) ?ds"
    using change_last_ack_refines [OF assms(1), of ?a b] assms(9,10) by (auto simp: tcb_getters)
  let ?t1 = "(ts_tcb s)\<lparr>tcb_last_ack := ?a, tcb_inflight_packets := ps\<rparr>"
  let ?t2 = "?t1\<lparr>tcb_unordered_packets := [(get_ack (ts_tcb s), unordered_new (np_payload p))]\<rparr>"
  have add: "add_unordered_packet ?t1 (get_ack (ts_tcb s)) (np_payload p) = ?t2"
    using assms(4) by (subst add_unordered_now) (simp_all add: get_ack_def)
  have win: "window_ok c ?t1" "window_ok c ?t2" using assms(2) by (simp_all add: window_ok_def)
  show thesis
  proof (cases "flags ?t = ACK")
    case True
    obtain av where av: "change_send_window b ?t2 ?w = Some (?t2\<lparr>tcb_avg_send_window := av, tcb_send_window := ?w\<rparr>)"
      using window_ok_change [OF win(2) assms(3)] .
    let ?s = "notify_writer (s\<lparr>ts_tcb := ?t2\<lparr>tcb_avg_send_window := av, tcb_send_window := ?w\<rparr>\<rparr>)"
    have "recv_packet b ep cx p s = Some (Continue ?s)"
      using True rst valid ps(1) st i av add assms(7)
      by (simp add: recv_packet_def recv_established_def recv_established_ack_def upd_tcb_opt_def upd_tcb_def
          get_state_def)
    then show thesis by (rule that) (use ps(2) in \<open>simp_all add: sender_rel_def\<close>)
  next
    case False
    then have fl: "flags ?t = (PSH OR ACK)" "(PSH OR ACK) \<noteq> ACK" "(PSH OR ACK) \<noteq> (FIN OR ACK)"
      using assms(6) by (auto simp: tcp_flags)
    obtain av where av: "change_send_window b ?t1 ?w = Some (?t1\<lparr>tcb_avg_send_window := av, tcb_send_window := ?w\<rparr>)"
      using window_ok_change [OF win(1) assms(3)] .
    let ?s = "s\<lparr>ts_tcb := ?t1\<lparr>tcb_avg_send_window := av, tcb_send_window := ?w,
        tcb_unordered_packets := [(get_ack (ts_tcb s), unordered_new (np_payload p))]\<rparr>\<rparr>"
    have "add_unordered_packet (?t1\<lparr>tcb_avg_send_window := av, tcb_send_window := ?w\<rparr>) (get_ack (ts_tcb s)) (np_payload p) =
        ts_tcb ?s"
      using assms(4) by (subst add_unordered_now) (simp_all add: get_ack_def)
    then have "recv_packet b ep cx p s = Some (Continue ?s)"
      using fl rst valid ps(1) st i av assms(7,8)
      by (simp add: recv_packet_def recv_established_def upd_tcb_opt_def upd_tcb_def get_state_def get_ack_def)
    then show thesis by (rule that) (use ps(2) in \<open>simp_all add: sender_rel_def\<close>)
  qed
qed

text \<open>A pass that finds the next expected segment.\<close>

lemma before_recv_delivers:
  assumes "etherparse_ok ep" "family_ok s" "st_of s = Established" "tcb_retransmission (ts_tcb s) = None"
    "ts_packet_to_send s = None" "ts_shutdown s = ShutdownNone" "\<forall>d. \<not> cx_sleep_ready cx d"
    "tcb_unordered_packets (ts_tcb s) = [(tcb_ack (ts_tcb s), unordered_new d)]" "length d \<le> cap"
    "cx_send_ok cx (length (ts_sent s))"
  obtains s' q where "before_recv b ep cx cap s = Some (Return s' d (Ready (Inr ())))"
    "ts_sent s' = ts_sent s @ [q]" "is_reply ep s' ACK (TTL b) None [] q"
    "tcb_ack (ts_tcb s') = tcb_ack (ts_tcb s) + of_nat (length d)" "tcb_unordered_packets (ts_tcb s') = []"
    "tcb_state (ts_tcb s') = tcb_state (ts_tcb s)" "tcb_seq (ts_tcb s') = tcb_seq (ts_tcb s)"
    "tcb_last_ack (ts_tcb s') = tcb_last_ack (ts_tcb s)"
    "tcb_inflight_packets (ts_tcb s') = tcb_inflight_packets (ts_tcb s)"
proof -
  let ?t = "(ts_tcb (idle cx s))\<lparr>tcb_unordered_packets := []\<rparr>"
  let ?s = "upd_tcb (\<lambda>t. add_ack t (of_nat (length d))) ((idle cx s)\<lparr>ts_tcb := ?t\<rparr>)"
  have tcb: "tcb_ack (ts_tcb (idle cx s)) = tcb_ack (ts_tcb s)" "tcb_state (ts_tcb (idle cx s)) = Established"
      "tcb_unordered_packets (ts_tcb (idle cx s)) = [(tcb_ack (ts_tcb s), unordered_new d)]"
      "tcb_seq (ts_tcb (idle cx s)) = tcb_seq (ts_tcb s)" "tcb_last_ack (ts_tcb (idle cx s)) = tcb_last_ack (ts_tcb s)"
      "tcb_inflight_packets (ts_tcb (idle cx s)) = tcb_inflight_packets (ts_tcb s)"
    using assms(3,8) by (simp_all add: idle_def reset_timeout_def change_recv_window_def get_state_def)
  have "get_unordered_packets (ts_tcb (idle cx s)) = (Some d, ?t)"
    using tcb by (simp add: get_unordered_packets_def unordered_new_def)
  moreover have fam: "family_ok ?s" using assms(2) by (simp add: family_ok_def idle_def)
  obtain q where q: "tcp_create_rev_packet b ep ?s ACK (TTL b) None [] = Some (Inr q)"
      "is_reply ep ?s ACK (TTL b) None [] q"
    using tcp_create_rev_packet_ok [OF assms(1) fam] .
  moreover have "then_do (read_deliver b ep cx cap (idle cx s)) k = Some (Return (?s\<lparr>ts_sent := ts_sent s @ [q]\<rparr>) d (Ready (Inr ())))"
    for k using calculation assms(6,9,10)
    by (simp add: read_deliver_def put_slice_def with_packet_def send_or_eof_def mpsc_send_def then_do_def idle_def Let_def)
  ultimately have run: "before_recv b ep cx cap s = Some (Return (?s\<lparr>ts_sent := ts_sent s @ [q]\<rparr>) d (Ready (Inr ())))"
    using assms(3-7) by (simp add: before_recv_def read_retransmission_def read_send_pending_def read_closed_def
        read_timeout_def read_syn_def Let_def idle_def [symmetric])
       (simp add: then_do_def read_closed_def read_timeout_def read_syn_def Let_def idle_def)
  show thesis
  proof (rule that [OF run])
    show "is_reply ep (?s\<lparr>ts_sent := ts_sent s @ [q]\<rparr>) ACK (TTL b) None [] q"
      using q(2) by (simp add: is_reply_def payload_room_def tcp_headers_len_def)
  qed (use tcb assms(3) in \<open>simp_all add: add_ack_def get_state_def\<close>)
qed

text \<open>
  C21: the next expected segment is delivered and acknowledged in the call that receives it.
  On an established stream with nothing else to do, a data packet (flags ACK or
  PSH/ACK) whose sequence number is the next expected one and whose acknowledgement is in
  range makes \<open>poll_read\<close> put exactly its payload into the buffer, return success and send
  one ACK for the byte after it; the bytes it acknowledges leave the send buffer.
\<close>

theorem segment_delivered:
  assumes "etherparse_ok ep" "family_ok s" "sender_rel (ts_tcb s) ds" "window_ok c (ts_tcb s)" "c < 2 ^ 47"
    "tcb_retransmission (ts_tcb s) = None" "ts_packet_to_send s = None" "ts_shutdown s = ShutdownNone"
    "tcb_unordered_packets (ts_tcb s) = []" "\<forall>d. \<not> cx_sleep_ready cx d" "cx_send_ok cx (length (ts_sent s))"
    "np_transport p = Tcp h" "flags (wrapper_from h) \<in> {ACK, PSH OR ACK}"
    "tcp_sequence_number h = get_ack (ts_tcb s)" "np_payload p \<noteq> []" "length (np_payload p) \<le> cap"
    "unat (get_last_ack (ts_tcb s)) \<le> unat (tcp_acknowledgment_number h)"
    "unat (tcp_acknowledgment_number h) \<le> unat (get_seq (ts_tcb s))"
  shows "\<exists>s' q hq. poll_read b ep cx cap (Some p # rs) s = Some (s', np_payload p, Ready (Inr ())) \<and>
     ts_sent s' = ts_sent s @ [q] \<and> np_transport q = Tcp hq \<and> flags (wrapper_from hq) = ACK \<and>
     tcp_acknowledgment_number hq = get_ack (ts_tcb s) + of_nat (length (np_payload p)) \<and>
     sender_rel (ts_tcb s') (drop (unat (tcp_acknowledgment_number h) - unat (get_last_ack (ts_tcb s))) ds)"
proof -
  let ?s = "idle cx s"
  let ?ds = "drop (unat (tcp_acknowledgment_number h) - unat (get_last_ack (ts_tcb s))) ds"
  have est: "st_of s = Established" using assms(3) by (simp add: sender_rel_def get_state_def)
  have b1: "before_recv b ep cx cap s = Some (Proceed ?s)"
    using est assms(6-10) by (intro before_recv_idle) simp_all
  have i: "sender_rel (ts_tcb ?s) ds" "window_ok c (ts_tcb ?s)" "tcb_unordered_packets (ts_tcb ?s) = []"
    "get_ack (ts_tcb ?s) = get_ack (ts_tcb s)" "get_last_ack (ts_tcb ?s) = get_last_ack (ts_tcb s)"
    "get_seq (ts_tcb ?s) = get_seq (ts_tcb s)" "tcb_retransmission (ts_tcb ?s) = None"
    "ts_sent ?s = ts_sent s" "ts_packet_to_send ?s = None" "ts_shutdown ?s = ShutdownNone"
    "ts_src_addr ?s = ts_src_addr s" "ts_dst_addr ?s = ts_dst_addr s"
    using assms(3,4,6-9)
    by (simp_all add: idle_def sender_rel_def window_ok_def reset_timeout_def change_recv_window_def tcb_getters)
  obtain s2 where s2: "recv_packet b ep cx p ?s = Some (Continue s2)" "sender_rel (ts_tcb s2) ?ds"
    "tcb_unordered_packets (ts_tcb s2) = [(get_ack (ts_tcb s), unordered_new (np_payload p))]"
    "tcb_ack (ts_tcb s2) = get_ack (ts_tcb s)" "tcb_retransmission (ts_tcb s2) = None"
    "ts_sent s2 = ts_sent s" "ts_packet_to_send s2 = None" "ts_shutdown s2 = ShutdownNone" "family_ok s2"
    using recv_packet_stores [OF i(1,2) assms(5) i(3) assms(12,13) _ assms(15), of b ep cx] assms(2,14,17,18) i
    by (metis family_ok_def get_ack_def)
  have h2: "st_of s2 = Established" "tcb_unordered_packets (ts_tcb s2) = [(tcb_ack (ts_tcb s2), unordered_new (np_payload p))]"
    "cx_send_ok cx (length (ts_sent s2))"
    using s2 assms(11) by (simp_all add: sender_rel_def get_state_def)
  obtain s3 q where s3: "before_recv b ep cx cap s2 = Some (Return s3 (np_payload p) (Ready (Inr ())))"
    "ts_sent s3 = ts_sent s2 @ [q]" "is_reply ep s3 ACK (TTL b) None [] q"
    "tcb_ack (ts_tcb s3) = tcb_ack (ts_tcb s2) + of_nat (length (np_payload p))"
    "tcb_state (ts_tcb s3) = tcb_state (ts_tcb s2)" "tcb_seq (ts_tcb s3) = tcb_seq (ts_tcb s2)"
    "tcb_last_ack (ts_tcb s3) = tcb_last_ack (ts_tcb s2)"
    "tcb_inflight_packets (ts_tcb s3) = tcb_inflight_packets (ts_tcb s2)"
    using before_recv_delivers [OF assms(1) s2(9) h2(1) s2(5,7,8) assms(10) h2(2) assms(16) h2(3)] by metis
  obtain hq where hq: "np_transport q = Tcp hq" "tcp_acknowledgment_number hq = get_ack (ts_tcb s3)"
    using s3(3) by (auto simp: is_reply_def)
  have "poll_read b ep cx cap (Some p # rs) s = Some (s3, np_payload p, Ready (Inr ()))"
    by (simp add: poll_read_def poll_read_loop.simps [of b ep cx cap "Some p # rs" s] b1 s2(1)
        poll_read_loop.simps [of b ep cx cap rs s2] s3(1))
  moreover have "flags (wrapper_from hq) = ACK" using is_reply_flags [OF s3(3) hq(1)] by (simp add: tcp_flags)
  moreover have "sender_rel (ts_tcb s3) ?ds" using s2(2) s3(5-8) by (simp add: sender_rel_def)
  ultimately show ?thesis using s3(2,4) s2(4,6) hq by (simp add: get_ack_def)
qed

theorem segment_delivered_witness:
  "\<exists>s'. poll_read sample_build sample_ep sample_cx 16 [Some (sample_segment 8 100 ACK 64 [7, 9])]
          (sample_stream Established) = Some (s', [7, 9], Ready (Inr ()))"
proof -
  let ?s = "sample_stream Established" and ?h = "sample_tcp 8 100 ACK 64"
  have w: "window_ok 1 (ts_tcb ?s)"
    by (simp add: window_ok_def sample_stream_def change_state_def tcb_new_def)
  have h: "tcb_retransmission (ts_tcb ?s) = None" "ts_packet_to_send ?s = None" "ts_shutdown ?s = ShutdownNone"
    "tcb_unordered_packets (ts_tcb ?s) = []" "\<forall>d. \<not> cx_sleep_ready sample_cx d" "cx_send_ok sample_cx (length (ts_sent ?s))"
    "tcp_sequence_number ?h = get_ack (ts_tcb ?s)"
    "unat (get_last_ack (ts_tcb ?s)) \<le> unat (tcp_acknowledgment_number ?h)"
    "unat (tcp_acknowledgment_number ?h) \<le> unat (get_seq (ts_tcb ?s))"
    by (simp_all add: sample_stream_def change_state_def tcb_new_def sample_cx_def sample_tcp_def tcb_getters sample_build_def)
  have fl: "flags (wrapper_from ?h) \<in> {ACK, PSH OR ACK}" by code_simp
  show ?thesis
    using segment_delivered [OF sample_etherparse_ok sample_family_ok sample_sender w _ h(1-6) _ fl h(7) _ _ h(8,9),
        of "sample_segment 8 100 ACK 64 [7, 9]" 16 sample_build _ "[]"]
    by (auto simp: sample_segment_def)
qed

end
