(* ===== verification/Tcp_Send.thy ===== *)
theory Tcp_Send
  imports Tcp_Write
begin

text \<open>
  The sending direction of a TCP stream over whole runs: every packet it hands to the stack,
  sent for the first time or again, carries bytes that the application wrote, at the position
  its sequence number says, and a FIN comes after the last of them.
\<close>

section \<open>What is kept\<close>

text \<open>
  \<open>W\<close> is what the application has written so far (the bytes that \<open>poll_write\<close>
  accepted) and \<open>base\<close> the sequence number of its first byte.
\<close>

definition segment_of :: "bytes \<Rightarrow> nat \<Rightarrow> 'x network_packet \<Rightarrow> bool" where
  "segment_of W base p \<longleftrightarrow>
     (case np_transport p of
        Tcp h \<Rightarrow> (np_payload p = [] \<or> base \<le> unat (tcp_sequence_number h) \<and>
                    fragment W (unat (tcp_sequence_number h) - base) (np_payload p)) \<and>
                 (tcp_fin h \<longrightarrow> np_payload p = [] \<and> unat (tcp_sequence_number h) = base + length W)
      | _ \<Rightarrow> False)"

definition has_fin :: "'x network_packet \<Rightarrow> bool" where
  "has_fin p \<longleftrightarrow> (case np_transport p of Tcp h \<Rightarrow> tcp_fin h | _ \<Rightarrow> False)"

text \<open>The packet goes to the device, and carries the byte at position \<open>i\<close>.\<close>

definition covers :: "nat \<Rightarrow> nat \<Rightarrow> 'x network_packet \<Rightarrow> bool" where
  "covers base i p \<longleftrightarrow> ttl p \<noteq> 0 \<and>
     (case np_transport p of
        Tcp h \<Rightarrow> unat (tcp_sequence_number h) \<le> base + i \<and>
                 base + i < unat (tcp_sequence_number h) + length (np_payload p)
      | _ \<Rightarrow> False)"

definition send_tcb :: "bytes \<Rightarrow> u32 \<Rightarrow> tcb \<Rightarrow> bool" where
  "send_tcb W iss t \<longleftrightarrow> tcb_retransmission t = None \<and>
     (case tcb_state t of
        SynReceived sent \<Rightarrow> W = [] \<and> tcb_seq t = (if sent then iss + 1 else iss) \<and> tcb_last_ack t = iss
                            \<and> tcb_inflight_packets t = []
      | Established \<Rightarrow> \<exists>n \<le> length W. sender_rel t (drop n W) \<and> unat (tcb_last_ack t) = unat iss + 1 + n
      | FinWait1 True \<Rightarrow> unat (tcb_seq t) = unat iss + 1 + length W
      | _ \<Rightarrow> True)"

definition fin_free :: "tcp_state \<Rightarrow> bool" where
  "fin_free st \<longleftrightarrow> st \<in> {SynReceived False, SynReceived True, Established, FinWait1 True}"

definition out_packets :: "'x tcp_stream \<Rightarrow> 'x network_packet set" where
  "out_packets s = set (ts_sent s) \<union> set_option (ts_packet_to_send s)"

definition send_inv :: "bytes \<Rightarrow> u32 \<Rightarrow> 'x tcp_stream \<Rightarrow> bool" where
  "send_inv W iss s \<longleftrightarrow> family_ok s \<and> send_tcb W iss (ts_tcb s) \<and>
     (\<forall>p \<in> out_packets s. segment_of W (unat iss + 1) p \<and> (fin_free (st_of s) \<longrightarrow> \<not> has_fin p)) \<and>
     (\<forall>i < length W. \<exists>p \<in> set (ts_sent s). covers (unat iss + 1) i p)"

lemma send_inv_family: "send_inv W iss s \<Longrightarrow> family_ok s"
  and send_inv_send_tcb: "send_inv W iss s \<Longrightarrow> send_tcb W iss (ts_tcb s)"
  by (simp_all add: send_inv_def)

text \<open>A packet without payload and FIN.\<close>

definition bare :: "'x network_packet \<Rightarrow> bool" where
  "bare p \<longleftrightarrow> is_tcp p \<and> np_payload p = [] \<and> \<not> has_fin p"

lemma bare_segment: "bare p \<Longrightarrow> segment_of W base p \<and> \<not> has_fin p"
  by (auto simp: bare_def is_tcp_def segment_of_def has_fin_def split: transport_header.splits)

lemma bare_reply: "is_reply ep s fl tt sq [] p \<Longrightarrow> \<not> bit fl 0 \<Longrightarrow> bare p"
  by (auto simp: bare_def is_reply_def is_tcp_def has_fin_def)

lemma fin_reply:
  assumes "is_reply ep s fl tt None [] p" "unat (tcb_seq (ts_tcb s)) = base + length W"
  shows "segment_of W base p"
  using assms by (auto simp: is_reply_def segment_of_def get_seq_def)

text \<open>An update that adds no other packets than bare ones.\<close>

lemma send_inv_update:
  assumes "send_inv W iss s" "ts_src_addr s' = ts_src_addr s" "ts_dst_addr s' = ts_dst_addr s"
    "send_tcb W iss (ts_tcb s')" "fin_free (st_of s') \<longrightarrow> fin_free (st_of s)"
    "set (ts_sent s) \<subseteq> set (ts_sent s')" "\<And>p. p \<in> out_packets s' \<Longrightarrow> p \<in> out_packets s \<or> bare p"
  shows "send_inv W iss s'"
proof -
  have "segment_of W (unat iss + 1) p \<and> (fin_free (st_of s') \<longrightarrow> \<not> has_fin p)" if "p \<in> out_packets s'" for p
    using assms(7) [OF that] assms(1,5) bare_segment unfolding send_inv_def by blast
  moreover have "\<forall>i < length W. \<exists>p \<in> set (ts_sent s'). covers (unat iss + 1) i p"
    using assms(1,6) unfolding send_inv_def by blast
  ultimately show ?thesis using assms(1-4) by (simp add: send_inv_def family_ok_def)
qed

lemma send_tcb_cong:
  assumes "tcb_retransmission t' = tcb_retransmission t" "tcb_state t' = tcb_state t" "tcb_seq t' = tcb_seq t"
    "tcb_last_ack t' = tcb_last_ack t" "tcb_inflight_packets t' = tcb_inflight_packets t"
  shows "send_tcb W iss t' = send_tcb W iss t"
  unfolding send_tcb_def sender_rel_def assms by (rule refl)

lemma send_tcb_frame [simp]:
  "send_tcb W iss (add_ack t n) = send_tcb W iss t" "send_tcb W iss (change_recv_window t r) = send_tcb W iss t"
  "send_tcb W iss (reset_timeout now t) = send_tcb W iss t"
  "send_tcb W iss (t\<lparr>tcb_unordered_packets := m\<rparr>) = send_tcb W iss t"
  "send_tcb W iss (t\<lparr>tcb_avg_send_window := a, tcb_send_window := x\<rparr>) = send_tcb W iss t"
  "send_tcb W iss (add_unordered_packet t q d) = send_tcb W iss t"
  by (rule send_tcb_cong; simp add: tcb_setters add_unordered_packet_def)+

lemma send_tcb_window:
  "change_send_window b t x = Some t' \<Longrightarrow>
   send_tcb W iss t' = send_tcb W iss t \<and> tcb_state t' = tcb_state t \<and> tcb_last_ack t' = tcb_last_ack t \<and> tcb_seq t' = tcb_seq t"
  by (auto dest!: change_send_window_frame)

lemma send_inv_tcb:
  assumes "send_inv W iss s" "send_tcb W iss t" "fin_free (get_state t) \<longrightarrow> fin_free (st_of s)"
  shows "send_inv W iss (s\<lparr>ts_tcb := t\<rparr>)"
  using assms by (intro send_inv_update [OF assms(1)]) (auto simp: out_packets_def)

lemma send_inv_upd:
  assumes "send_inv W iss s" "send_tcb W iss (f (ts_tcb s))" "fin_free (get_state (f (ts_tcb s))) \<longrightarrow> fin_free (st_of s)"
  shows "send_inv W iss (upd_tcb f s)"
  using send_inv_tcb [OF assms] by (simp add: upd_tcb_def)

lemma send_inv_frame:
  assumes "send_inv W iss s"
  shows "send_inv W iss (s\<lparr>ts_write_notify := x\<rparr>)" "send_inv W iss (notify_writer s)"
    "send_inv W iss (shutdown_ready s)" "send_inv W iss (shutdown_pending y s)"
    "send_inv W iss (upd_tcb (reset_timeout now) s)" "send_inv W iss (upd_tcb (\<lambda>t. change_recv_window t (f t)) s)"
    "send_inv W iss (upd_tcb (\<lambda>t. add_ack t n) s)" "send_inv W iss (upd_tcb (\<lambda>t. add_unordered_packet t q d) s)"
    "send_inv W iss (s\<lparr>ts_packet_to_send := None\<rparr>)"
  using send_inv_send_tcb [OF assms]
  by (intro send_inv_update [OF assms]; auto simp: out_packets_def shutdown_pending_def)+

lemma send_inv_bare:
  assumes "send_inv W iss s" "bare p"
  shows "send_inv W iss (s\<lparr>ts_packet_to_send := Some p\<rparr>)" "ts_sent s = ps \<Longrightarrow> send_inv W iss (s\<lparr>ts_sent := ps @ [p]\<rparr>)"
  using assms(2) send_inv_send_tcb [OF assms(1)]
  by (intro send_inv_update [OF assms(1)]; auto simp: out_packets_def)+

lemma send_inv_closing:
  assumes "send_inv W iss s" "st \<in> {FinWait1 False, FinWait2 True, FinWait2 False, Closed}"
  shows "send_inv W iss (set_state st s)"
  using assms
  by (intro send_inv_upd) (auto simp: send_inv_def send_tcb_def change_state_def get_state_def fin_free_def)

lemma send_inv_Established:
  assumes "send_inv W iss s" "st_of s = Established"
  obtains n where "n \<le> length W" "sender_rel (ts_tcb s) (drop n W)"
    "unat (tcb_last_ack (ts_tcb s)) = unat iss + 1 + n" "unat (tcb_seq (ts_tcb s)) = unat iss + 1 + length W"
proof -
  obtain n where n: "n \<le> length W" "sender_rel (ts_tcb s) (drop n W)" "unat (tcb_last_ack (ts_tcb s)) = unat iss + 1 + n"
    using assms by (auto simp: send_inv_def send_tcb_def get_state_def)
  with sender_rel_length [OF n(2)] that show thesis by simp
qed

text \<open>The FIN.\<close>

lemma send_inv_fin:
  assumes "send_inv W iss s" "st_of s \<in> {Established, FinWait1 True}" "is_reply ep s (FIN OR ACK) tt None [] p"
    "st \<in> {FinWait1 False, FinWait2 True}"
    "tcb_retransmission t = None" "get_state t = st"
  shows "send_inv W iss (s\<lparr>ts_packet_to_send := Some p, ts_tcb := t\<rparr>)"
proof -
  have "unat (tcb_seq (ts_tcb s)) = unat iss + 1 + length W"
    using assms(1,2) send_inv_Established [OF assms(1)] by (auto simp: send_inv_def send_tcb_def get_state_def)
  from fin_reply [OF assms(3) this] have "segment_of W (unat iss + 1) p" .
  with assms(1,4-) show ?thesis
    by (auto simp: send_inv_def send_tcb_def fin_free_def get_state_def family_ok_def out_packets_def)
qed

section \<open>Steps that keep a predicate\<close>

lemma keeps_then: "keeps P m \<Longrightarrow> (\<And>s. P s \<Longrightarrow> keeps P (k s)) \<Longrightarrow> keeps P (then_do m k)"
  by (auto simp: keeps_def then_do_Some)

lemma keeps_packet:
  assumes "etherparse_ok ep" "family_ok s" "\<And>p. is_reply ep s fl tt sq d p \<Longrightarrow> keeps P (k p)"
  shows "keeps P (with_packet (tcp_create_rev_packet b ep s fl tt sq d) s1 out k)"
proof -
  obtain p where "tcp_create_rev_packet b ep s fl tt sq d = Some (Inr p)" "is_reply ep s fl tt sq d p"
    using tcp_create_rev_packet_ok [OF assms(1,2)] .
  with assms(3) show ?thesis by (simp add: with_packet_def)
qed

lemma keeps_send:
  "P s \<Longrightarrow> keeps P (k (s\<lparr>ts_sent := ts_sent s @ [p]\<rparr>)) \<Longrightarrow> keeps P (send_or_eof cx s out p k)"
  by (simp add: send_or_eof_def mpsc_send_def)

section \<open>The steps of poll\_read\<close>

lemma no_fin_bit: "\<not> bit ACK 0" "\<not> bit NON 0" "\<not> bit (RST OR ACK) 0" "\<not> bit (SYN OR ACK) 0" "\<not> bit (PSH OR ACK) 0"
  by (simp_all add: tcp_flags)

lemmas bare_replies = bare_reply [OF _ no_fin_bit(1)] bare_reply [OF _ no_fin_bit(2)] bare_reply [OF _ no_fin_bit(3)]
  bare_reply [OF _ no_fin_bit(4)]

lemmas send_intros = keeps_packet keeps_send send_inv_frame send_inv_bare send_inv_closing send_inv_family

lemma read_retransmission_send: "send_inv W iss s \<Longrightarrow> keeps (send_inv W iss) (read_retransmission b ep cx s)"
  by (simp add: read_retransmission_def send_inv_def send_tcb_def)

lemma read_send_pending_send:
  assumes "send_inv W iss s"
  shows "keeps (send_inv W iss) (read_send_pending cx s)"
proof (cases "ts_packet_to_send s")
  case (Some p)
  have "send_inv W iss (s\<lparr>ts_packet_to_send := None, ts_sent := ts_sent s @ [p]\<rparr>)"
    using Some assms by (auto simp: out_packets_def send_inv_def family_ok_def)
  with Some assms show ?thesis by (auto simp: read_send_pending_def intro!: send_intros)
qed (simp add: read_send_pending_def assms)

lemma read_closed_send:
  "etherparse_ok ep \<Longrightarrow> send_inv W iss s \<Longrightarrow> keeps (send_inv W iss) (read_closed b ep s)"
  unfolding read_closed_def by (auto intro!: send_intros intro: bare_replies)

lemma read_timeout_send:
  "etherparse_ok ep \<Longrightarrow> send_inv W iss s \<Longrightarrow> keeps (send_inv W iss) (read_timeout b ep cx s)"
  unfolding read_timeout_def Let_def by (auto intro!: send_intros intro: bare_replies)

lemma read_syn_send:
  assumes "etherparse_ok ep" "send_inv W iss s"
  shows "keeps (send_inv W iss) (read_syn b ep s)"
proof -
  have syn: "send_inv W iss (set_state (SynReceived True) (upd_tcb add_seq_one (s\<lparr>ts_packet_to_send := Some p\<rparr>)))"
    if "st_of s = SynReceived False" "bare p" for p
  proof -
    have "send_tcb W iss (change_state (add_seq_one (ts_tcb s)) (SynReceived True))"
      using assms(2) that(1) by (simp add: send_inv_def send_tcb_def tcb_setters get_state_def)
    then show ?thesis
      using send_inv_tcb [OF send_inv_bare(1) [OF assms(2) that(2)], of "change_state (add_seq_one (ts_tcb s)) (SynReceived True)"] that(1)
      by (simp add: upd_tcb_def fin_free_def)
  qed
  show ?thesis
    using assms unfolding read_syn_def
    by (auto intro!: keeps_packet syn intro: send_inv_family bare_replies)
qed

lemma read_deliver_send:
  assumes "etherparse_ok ep" "send_inv W iss s"
  shows "keeps (send_inv W iss) (read_deliver b ep cx cap s)"
proof -
  obtain d t where g: "get_unordered_packets (ts_tcb s) = (d, t)" by force
  then have "send_tcb W iss t = send_tcb W iss (ts_tcb s)" "get_state t = st_of s"
    by (auto simp: get_unordered_packets_def get_state_def)
  with assms(2) have s: "send_inv W iss (s\<lparr>ts_tcb := t\<rparr>)" by (intro send_inv_tcb) (auto simp: send_inv_def)
  have fam: "family_ok (upd_tcb f (s\<lparr>ts_tcb := t\<rparr>))" for f
    using send_inv_family [OF assms(2)] by (simp add: family_ok_def)
  show ?thesis
  proof (cases "ts_shutdown s = ShutdownNone \<and> d \<noteq> None \<and> length (the d) \<le> cap")
    case True
    with s g assms(1) show ?thesis
      by (auto simp: read_deliver_def put_slice_def Let_def intro!: keeps_packet keeps_send fam send_inv_frame send_inv_bare)
         (rule bare_replies, assumption)
  next
    case False
    with s g show ?thesis by (auto simp: read_deliver_def put_slice_def Let_def split: option.splits)
  qed
qed

lemma read_fin_send:
  assumes "etherparse_ok ep" "send_inv W iss s"
  shows "keeps (send_inv W iss) (read_fin b ep s)"
proof -
  have r: "tcb_retransmission (ts_tcb s) = None" using assms(2) by (simp add: send_inv_def send_tcb_def)
  have 1: "send_inv W iss (set_state (FinWait2 True) (upd_tcb (\<lambda>t. add_ack (add_seq_one t) 1) (s\<lparr>ts_packet_to_send := Some p\<rparr>)))"
    if "st_of s = FinWait1 True" "is_reply ep s (FIN OR ACK) tt None [] p" for p tt
    using send_inv_fin [OF assms(2) _ that(2), where t = "change_state (add_ack (add_seq_one (ts_tcb s)) 1) (FinWait2 True)"
        and st = "FinWait2 True"] that(1) r
    by (simp add: upd_tcb_def tcb_setters get_state_def)
  have 2: "send_inv W iss (set_state (FinWait1 False) (upd_tcb add_seq_one (s\<lparr>ts_packet_to_send := Some p\<rparr>)))"
    if "st_of s = Established" "is_reply ep s (FIN OR ACK) tt None [] p" for p tt
    using send_inv_fin [OF assms(2) _ that(2), where t = "change_state (add_seq_one (ts_tcb s)) (FinWait1 False)"
        and st = "FinWait1 False"] that(1) r
    by (simp add: upd_tcb_def tcb_setters get_state_def)
  show ?thesis
    using assms 1 2 unfolding read_fin_def by (auto intro!: keeps_packet intro: send_inv_family)
qed

lemma before_recv_send:
  assumes "etherparse_ok ep" "send_inv W iss s"
  shows "keeps (send_inv W iss) (before_recv b ep cx cap s)"
  unfolding before_recv_def using assms
  by (intro keeps_then read_retransmission_send read_send_pending_send read_closed_send read_timeout_send
      read_syn_send read_deliver_send read_fin_send)

section \<open>One received packet\<close>

text \<open>An acknowledgement in range.\<close>

lemma send_tcb_ack:
  assumes "send_tcb W iss t" "tcb_state t = Established" "check_pkt_type t h d \<noteq> Invalid"
    "change_last_ack b t (tcp_acknowledgment_number (inner h)) = Some t'"
  shows "send_tcb W iss t'" "tcb_state t' = Established"
proof -
  let ?a = "tcp_acknowledgment_number (inner h)"
  obtain n where n: "n \<le> length W" "sender_rel t (drop n W)" "unat (tcb_last_ack t) = unat iss + 1 + n"
    using assms(1,2) by (auto simp: send_tcb_def)
  note len = sender_rel_length [OF n(2)]
  then have "seq_unwrapped t" by (simp add: seq_unwrapped_def word_le_nat_alt)
  note le = check_pkt_type_valid [OF this assms(3)]
  obtain ps where ps: "t' = t\<lparr>tcb_last_ack := ?a, tcb_inflight_packets := ps\<rparr>"
      "sender_rel t' (drop (unat ?a - unat (tcb_last_ack t)) (drop n W))"
    using change_last_ack_refines [OF n(2) le, of b] assms(4) by auto
  let ?n = "n + (unat ?a - unat (tcb_last_ack t))"
  have "?n \<le> length W" "sender_rel t' (drop ?n W)" "unat (tcb_last_ack t') = unat iss + 1 + ?n"
    using ps le len n(1,3) by (simp_all add: add.commute)
  then show "send_tcb W iss t'" "tcb_state t' = Established"
    using assms(1,2) ps(1) by (auto simp: send_tcb_def)
qed

lemma send_inv_ack:
  assumes "send_inv W iss s" "st_of s = Established" "check_pkt_type (ts_tcb s) h d \<noteq> Invalid"
    "change_last_ack b (ts_tcb s) (tcp_acknowledgment_number (inner h)) = Some t"
  shows "send_inv W iss (s\<lparr>ts_tcb := t\<rparr>)"
  using send_tcb_ack [OF send_inv_send_tcb [OF assms(1)] _ assms(3,4)] assms(2)
  by (intro send_inv_tcb [OF assms(1)]) (simp_all add: get_state_def)

lemma send_inv_window:
  assumes "send_inv W iss s" "change_send_window b (ts_tcb s) x = Some t"
  shows "send_inv W iss (s\<lparr>ts_tcb := t\<rparr>)"
  using send_tcb_window [OF assms(2), of W iss] send_inv_send_tcb [OF assms(1)]
  by (intro send_inv_tcb [OF assms(1)]) (simp_all add: get_state_def)

lemma send_inv_ack_window:
  assumes "send_inv W iss s" "st_of s = Established" "check_pkt_type (ts_tcb s) h d \<noteq> Invalid"
    "change_last_ack b (ts_tcb s) (tcp_acknowledgment_number (inner h)) = Some t" "change_send_window b t x = Some t'"
  shows "send_inv W iss (s\<lparr>ts_tcb := t'\<rparr>)"
  using send_inv_window [OF send_inv_ack [OF assms(1-4)], of b x t'] assms(5) by simp

lemma fragment_take: "prefix d (drop n W) \<Longrightarrow> n \<le> length W \<Longrightarrow> fragment W n (take k d)"
  using prefix_length_le [of d "drop n W"] by (auto simp: fragment_def prefix_def min_def)

text \<open>The packet that is sent again carries the first unacknowledged bytes.\<close>

lemma send_inv_retransmit:
  assumes "etherparse_ok ep" "send_inv W iss s" "st_of s = Established"
    "poll_flush b ep cx (upd_tcb (\<lambda>t. t\<lparr>tcb_retransmission := Some (tcb_last_ack (ts_tcb s))\<rparr>) s) = Some (s', r)"
  shows "send_inv W iss s'"
proof -
  let ?s = "upd_tcb (\<lambda>t. t\<lparr>tcb_retransmission := Some (tcb_last_ack (ts_tcb s))\<rparr>) s"
  have same: "upd_tcb (\<lambda>t. t\<lparr>tcb_retransmission := None\<rparr>) ?s = s"
    using send_inv_send_tcb [OF assms(2)] by (simp add: upd_tcb_def send_tcb_def)
  obtain n where n: "n \<le> length W" "sender_rel (ts_tcb s) (drop n W)" "unat (tcb_last_ack (ts_tcb s)) = unat iss + 1 + n"
    using send_inv_Established [OF assms(2,3)] .
  have sent: "send_inv W iss (s\<lparr>ts_sent := ts_sent s @ [q]\<rparr>)"
    if q: "find (\<lambda>p. if_seq p = tcb_last_ack (ts_tcb s)) (tcb_inflight_packets (ts_tcb s)) = Some p"
      "is_reply ep s (PSH OR ACK) (TTL b) (Some (if_seq p)) (if_payload p) q" for p q
  proof -
    have p: "p \<in> set (tcb_inflight_packets (ts_tcb s))" "if_seq p = tcb_last_ack (ts_tcb s)"
      using q(1) by (auto simp: find_Some_iff)
    have "prefix (if_payload p) (drop n W)"
      using n(2) p chain_first unfolding sender_rel_def tiles_def by (metis mset_eq_setD)
    then have "fragment W n (take (payload_room s) (if_payload p))" by (rule fragment_take) (rule n(1))
    then have "fragment W n (np_payload q)" using q(2) by (simp add: is_reply_def)
    then have "segment_of W (unat iss + 1) q \<and> \<not> has_fin q"
      using q(2) p(2) n(3) no_fin_bit(5) by (auto simp: is_reply_def segment_of_def has_fin_def)
    with assms(2) show ?thesis by (auto simp: send_inv_def out_packets_def family_ok_def)
  qed
  show ?thesis
  proof (cases "find (\<lambda>p. if_seq p = tcb_last_ack (ts_tcb s)) (tcb_inflight_packets (ts_tcb s))")
    case None
    with assms(3,4) same show ?thesis by (simp add: poll_flush_def get_state_def)
  next
    case (Some p)
    obtain q where q: "tcp_create_rev_packet b ep s (PSH OR ACK) (TTL b) (Some (if_seq p)) (if_payload p) = Some (Inr q)"
        "is_reply ep s (PSH OR ACK) (TTL b) (Some (if_seq p)) (if_payload p) q"
      using tcp_create_rev_packet_ok [OF assms(1) send_inv_family [OF assms(2)]] .
    with Some assms(2-4) same sent [OF Some q(2)] show ?thesis
      by (auto simp: poll_flush_def get_state_def mpsc_send_def split: if_splits)
  qed
qed

lemma recv_syn_received_send:
  assumes "send_inv W iss s" "st_of s = SynReceived True" "unat iss + 1 < 2 ^ 32"
    "check_pkt_type (ts_tcb s) h d \<noteq> Invalid" "tcp_acknowledgment_number (inner h) \<noteq> iss"
  shows "keeps (send_inv W iss) (recv_syn_received b h s)"
proof -
  let ?a = "tcp_acknowledgment_number (inner h)" and ?t = "ts_tcb s"
  have t: "tcb_seq ?t = iss + 1" "tcb_last_ack ?t = iss" "tcb_inflight_packets ?t = []" "W = []"
      "tcb_retransmission ?t = None" "tcb_state ?t = SynReceived True"
    using send_inv_send_tcb [OF assms(1)] assms(2) by (simp_all add: send_tcb_def get_state_def)
  have "seq_unwrapped ?t" using t unat_succ [OF assms(3)] by (simp add: seq_unwrapped_def word_le_nat_alt)
  from check_pkt_type_valid [OF this assms(4)] t assms(5)
  have a: "?a = iss + 1" unfolding word_unat_eq_iff unat_succ [OF assms(3)] by simp
  have "send_inv W iss (set_state Established (s\<lparr>ts_tcb := t'\<rparr>))"
    if w: "change_send_window b (?t\<lparr>tcb_last_ack := ?a\<rparr>) x = Some t'" for t' x
  proof -
    obtain av where "t' = ?t\<lparr>tcb_last_ack := ?a, tcb_avg_send_window := av, tcb_send_window := x\<rparr>"
      using change_send_window_frame [OF w] by auto
    then have "send_tcb W iss (change_state t' Established)"
      using t a unat_succ [OF assms(3)] by (simp add: send_tcb_def sender_rel_def tiles_def change_state_def)
    from send_inv_tcb [OF assms(1) this] assms(2) show ?thesis by (simp add: upd_tcb_def fin_free_def)
  qed
  with assms(1) t(6) show ?thesis
    by (auto simp: recv_syn_received_def change_last_ack_not_established intro!: keeps_upd_tcb_opt)
qed

lemma recv_established_ack_send:
  assumes "etherparse_ok ep" "send_inv W iss s" "st_of s = Established" "check_pkt_type (ts_tcb s) h d \<noteq> Invalid"
  shows "keeps (send_inv W iss) (recv_established_ack b ep cx h d s)"
proof (cases "check_pkt_type (ts_tcb s) h d")
  case RetransmissionRequest
  note a = check_pkt_type_retransmission(1) [OF RetransmissionRequest]
  show ?thesis
    unfolding recv_established_ack_def Let_def RetransmissionRequest packet_status.case
  proof (intro keeps_upd_tcb_opt)
    fix t assume t: "change_send_window b (ts_tcb s) (tcp_window_size (inner h)) = Some t"
    let ?r = "poll_flush b ep cx (upd_tcb (\<lambda>tcb. tcb\<lparr>tcb_retransmission := Some (tcp_acknowledgment_number (inner h))\<rparr>) (s\<lparr>ts_tcb := t\<rparr>))"
    have s: "send_inv W iss (s\<lparr>ts_tcb := t\<rparr>)" using send_inv_window [OF assms(2) t] .
    have e: "st_of (s\<lparr>ts_tcb := t\<rparr>) = Established" "tcp_acknowledgment_number (inner h) = tcb_last_ack (ts_tcb (s\<lparr>ts_tcb := t\<rparr>))"
      using send_tcb_window [OF t] assms(3) a by (simp_all add: get_state_def)
    show "keeps (send_inv W iss) (do { (s, r) \<leftarrow> ?r;
        case r of Pending \<Rightarrow> Some (Return s [] Pending) | Ready x \<Rightarrow> Some (Continue s) })"
    proof (cases ?r)
      case (Some x)
      obtain s' y where x: "x = (s', y)" by (cases x)
      have "send_inv W iss s'" using send_inv_retransmit [OF assms(1) s e(1), of b cx s' y] Some x e(2) by simp
      with Some x show ?thesis by (cases y) simp_all
    qed simp
  qed
next
  case NewPacket
  show ?thesis
    unfolding recv_established_ack_def Let_def NewPacket packet_status.case
    using send_inv_ack [OF assms(2-4)]
    by (auto intro!: keeps_upd_tcb_opt send_inv_frame(2) send_inv_window [of W iss "upd_tcb _ _"] send_inv_frame(8))
next
  case KeepAlive
  note s = send_inv_ack_window [OF assms(2-4)]
  have "keeps (send_inv W iss) (with_packet (tcp_create_rev_packet b ep s' ACK (TTL b) None []) s' []
      (\<lambda>p. Some (Continue (s'\<lparr>ts_packet_to_send := Some p\<rparr>))))" if "send_inv W iss s'" for s'
    using that assms(1) by (auto intro!: keeps_packet send_inv_family [OF that] send_inv_bare bare_replies(1))
  then show ?thesis
    unfolding recv_established_ack_def Let_def KeepAlive packet_status.case
    by (intro keeps_upd_tcb_opt) (simp add: s)
next
  case Ack
  show ?thesis
    unfolding recv_established_ack_def Let_def Ack packet_status.case
    using send_inv_window [OF send_inv_ack [OF assms(2-4)]]
    by (auto intro!: keeps_upd_tcb_opt send_inv_frame(2))
qed (use assms send_inv_window [OF assms(2)] in \<open>auto simp: recv_established_ack_def intro!: keeps_upd_tcb_opt send_inv_frame(2)\<close>)

lemma send_inv_peer_fin:
  assumes "send_inv W iss s" "st_of s = Established" "bare p"
  shows "send_inv W iss (set_state (FinWait1 True) ((upd_tcb (\<lambda>t. add_ack t 1) s)\<lparr>ts_packet_to_send := Some p\<rparr>))"
proof -
  have seq: "unat (tcb_seq (ts_tcb s)) = unat iss + 1 + length W" using send_inv_Established [OF assms(1,2)] by metis
  have "send_inv W iss ((upd_tcb (\<lambda>t. add_ack t 1) s)\<lparr>ts_packet_to_send := Some p\<rparr>)"
    using assms(1,3) by (intro send_inv_bare(1) send_inv_frame(7))
  then show ?thesis
    using seq assms(2) send_inv_send_tcb [OF assms(1)]
    by (elim send_inv_upd) (simp_all add: send_tcb_def tcb_setters fin_free_def get_state_def)
qed

lemma recv_established_send:
  assumes "etherparse_ok ep" "send_inv W iss s" "st_of s = Established" "check_pkt_type (ts_tcb s) h d \<noteq> Invalid"
  shows "keeps (send_inv W iss) (recv_established b ep cx h d s)"
proof -
  consider "flags h = ACK" | "flags h \<noteq> ACK" "flags h = (FIN OR ACK)"
    | "flags h \<noteq> ACK" "flags h \<noteq> (FIN OR ACK)" "flags h = (PSH OR ACK)"
    | "flags h \<noteq> ACK" "flags h \<noteq> (FIN OR ACK)" "flags h \<noteq> (PSH OR ACK)" by blast
  then show ?thesis
  proof cases
    case 1
    with recv_established_ack_send [OF assms] show ?thesis by (simp add: recv_established_def)
  next
    case 2
    have "family_ok (upd_tcb f s)" for f using send_inv_family [OF assms(2)] by (simp add: family_ok_def)
    with 2 assms(1) show ?thesis
      by (auto simp: recv_established_def Let_def intro!: keeps_packet send_inv_peer_fin [OF assms(2,3)] bare_replies(1))
  next
    case 3
    then show ?thesis
      using assms(2) send_inv_ack [OF assms(2-4), of b] send_inv_ack_window [OF assms(2-4), of b]
      by (auto simp: recv_established_def intro!: keeps_upd_tcb_opt send_inv_frame(8))
  qed (simp add: recv_established_def assms(2))
qed

lemma recv_fin_wait1_send:
  assumes "etherparse_ok ep" "send_inv W iss s" "st_of s = FinWait1 False"
  shows "keeps (send_inv W iss) (recv_fin_wait1 b ep h s)"
proof -
  have r: "tcb_retransmission (ts_tcb s) = None" "tcb_state (ts_tcb s) = FinWait1 False"
    using send_inv_send_tcb [OF assms(2)] assms(3) by (simp_all add: send_tcb_def get_state_def)
  have a: "send_inv W iss (set_state (FinWait2 True) (s'\<lparr>ts_tcb := t\<rparr>))"
    if "send_inv W iss s'" "tcb_retransmission t = None" for s' t
  proof -
    have "send_tcb W iss (change_state t (FinWait2 True))"
      using that(2) by (simp add: send_tcb_def change_state_def)
    from send_inv_tcb [OF that(1) this] show ?thesis by (simp add: upd_tcb_def fin_free_def)
  qed
  have fam: "family_ok (upd_tcb f s)" for f using send_inv_family [OF assms(2)] by (simp add: family_ok_def)
  consider "flags h = ACK" | "flags h \<noteq> ACK" "flags h = (FIN OR ACK)" | "flags h \<noteq> ACK" "flags h \<noteq> (FIN OR ACK)" by blast
  then show ?thesis
  proof cases
    case 1
    have "send_inv W iss (set_state (FinWait2 True) (upd_tcb (\<lambda>t. add_ack t 1) (s\<lparr>ts_tcb := (ts_tcb s)\<lparr>tcb_last_ack := x\<rparr>\<rparr>)))" for x
      using a [OF assms(2), of "add_ack ((ts_tcb s)\<lparr>tcb_last_ack := x\<rparr>) 1"] r(1) by (simp add: upd_tcb_def add_ack_def)
    with 1 r(2) show ?thesis by (simp add: recv_fin_wait1_def change_last_ack_not_established upd_tcb_opt_def)
  next
    case 2
    have p: "send_inv W iss ((upd_tcb (\<lambda>t. add_ack t 1) s)\<lparr>ts_packet_to_send := Some p\<rparr>)" if "bare p" for p
      using send_inv_bare(1) [OF send_inv_frame(7) [OF assms(2)] that] .
    have w: "tcb_retransmission t = None" if "change_send_window b (add_ack (ts_tcb s) 1) x = Some t" for t x
      using change_send_window_frame [OF that] r by (auto simp: add_ack_def)
    show ?thesis
      unfolding recv_fin_wait1_def if_not_P [OF 2(1)] if_P [OF 2(2)] Let_def
    proof (intro keeps_packet [OF assms(1) fam] keeps_upd_tcb_opt)
      fix q t assume q: "is_reply ep (upd_tcb (\<lambda>tcb. add_ack tcb 1) s) ACK (TTL b) None [] q"
        "change_send_window b (ts_tcb ((upd_tcb (\<lambda>tcb. add_ack tcb 1) s)\<lparr>ts_packet_to_send := Some q\<rparr>)) (tcp_window_size (inner h)) = Some t"
      from a [OF p [OF bare_replies(1) [OF q(1)]] w] q(2)
      show "keeps (send_inv W iss) (Some (Continue (set_state (FinWait2 True)
          ((upd_tcb (\<lambda>tcb. add_ack tcb 1) s)\<lparr>ts_packet_to_send := Some q, ts_tcb := t\<rparr>))))" by simp
    qed
  qed (simp add: recv_fin_wait1_def assms(2))
qed

text \<open>The peer acknowledges at least the SYN/ACK; see \<open>unacknowledged_syn_panics\<close> for why this is needed.\<close>

lemma recv_packet_send:
  assumes "etherparse_ok ep" "send_inv W iss s" "good_packet iss m p" "unat iss + 1 < 2 ^ 32"
  shows "keeps (send_inv W iss) (recv_packet b ep cx p s)"
proof -
  from assms(3) obtain h where h: "np_transport p = Tcp h" "tcp_acknowledgment_number h \<noteq> iss"
    by (auto simp: good_packet_def split: transport_header.splits)
  let ?t = "wrapper_from h"
  have i: "transport_protocol p = ProtoTcp ?t" "tcp_acknowledgment_number (inner ?t) \<noteq> iss"
    using h by (simp_all add: transport_protocol_def inner_def wrapper_from_def)
  note fam = send_inv_family [OF assms(2)]
  have rst: "send_inv W iss (shutdown_ready (set_state Closed (s\<lparr>ts_packet_to_send := Some q\<rparr>)))" if "bare q" for q
    using that by (auto intro!: send_inv_frame send_inv_closing send_inv_bare assms(2))
  have fw2: "keeps (send_inv W iss) (recv_fin_wait2 b ep ?t s)"
    using assms(1,2) fam unfolding recv_fin_wait2_def
    by (auto intro!: keeps_packet send_inv_closing send_inv_bare bare_replies(1))
  show ?thesis
    using assms(1,2) fam fw2 recv_syn_received_send [OF assms(2) _ assms(4) _ i(2)] recv_established_send [OF assms(1,2)]
      recv_fin_wait1_send [OF assms(1,2)]
    unfolding recv_packet_def i(1) by (auto intro!: keeps_packet rst bare_replies(2))
qed

section \<open>Writing\<close>

text \<open>What \<open>poll_write\<close> took from the caller's buffer.\<close>

definition accepted :: "bytes \<Rightarrow> (io_error + nat) poll \<Rightarrow> bytes" where
  "accepted buf r = (case r of Ready (Inr n) \<Rightarrow> take n buf | _ \<Rightarrow> [])"

lemma accepted_simps [simp]:
  "accepted buf Pending = []" "accepted buf (Ready (Inl e)) = []" "accepted buf (Ready (Inr n)) = take n buf"
  by (simp_all add: accepted_def)

lemma length_accepted: "length (accepted buf r) \<le> length buf"
  by (auto simp: accepted_def split: poll.splits sum.splits)

lemma fragment_append: "fragment W off d \<Longrightarrow> fragment (W @ e) off d"
  by (simp add: fragment_def)

lemma segment_of_append: "segment_of W base p \<Longrightarrow> \<not> has_fin p \<Longrightarrow> segment_of (W @ d) base p"
  by (auto simp: segment_of_def has_fin_def intro: fragment_append split: transport_header.splits)

lemma send_inv_push:
  assumes "send_inv W iss s" "st_of s = Established" "is_reply ep s (PSH OR ACK) (TTL b) None buf p"
    "unat iss + 1 + length W + length buf < 2 ^ 32"
  shows "send_inv (W @ np_payload p) iss
     (upd_tcb (\<lambda>t. add_inflight_packet t (get_seq (ts_tcb s)) (np_payload p)) (s\<lparr>ts_sent := ts_sent s @ [p]\<rparr>))"
proof -
  let ?d = "np_payload p" and ?base = "unat iss + 1"
  obtain n where n: "n \<le> length W" "sender_rel (ts_tcb s) (drop n W)" "unat (tcb_last_ack (ts_tcb s)) = ?base + n"
      "unat (tcb_seq (ts_tcb s)) = ?base + length W"
    using send_inv_Established [OF assms(1,2)] .
  obtain h where h: "np_transport p = Tcp h" "unat (tcp_sequence_number h) = ?base + length W" "\<not> tcp_fin h"
    using assms(3) n(4) no_fin_bit(5) by (auto simp: is_reply_def get_seq_def)
  have tt: "ttl p \<noteq> 0" using assms(3) TTL_pos [of b] by (simp add: is_reply_def)
  have "length ?d \<le> length buf" using assms(3) by (simp add: is_reply_def)
  then have room: "length ?d < send_room (ts_tcb s)" using n(4) assms(4) by (simp add: send_room_def)
  have "sender_rel (push_bytes (ts_tcb s) ?d) (drop n (W @ ?d))"
    using sender_rel_push(1) [OF n(2) room] n(1) by simp
  then have t: "send_tcb (W @ ?d) iss (add_inflight_packet (ts_tcb s) (get_seq (ts_tcb s)) ?d)"
    using n(1,3) send_inv_send_tcb [OF assms(1)] assms(2)
    by (auto simp: send_tcb_def push_bytes_def add_inflight_packet_def get_state_def intro!: exI [of _ n])
  have new: "segment_of (W @ ?d) ?base p" "\<not> has_fin p" "\<forall>i. length W \<le> i \<and> i < length (W @ ?d) \<longrightarrow> covers ?base i p"
    using h tt by (auto simp: segment_of_def has_fin_def covers_def fragment_def)
  have old: "segment_of (W @ ?d) ?base q \<and> \<not> has_fin q" if "q \<in> out_packets s" for q
    using assms(1,2) that segment_of_append unfolding send_inv_def fin_free_def by fastforce
  have cov: "\<exists>q \<in> set (ts_sent s @ [p]). covers ?base i q" if i: "i < length (W @ ?d)" for i
  proof (cases "i < length W")
    case True
    with assms(1) show ?thesis by (auto simp: send_inv_def)
  next
    case False
    with new(3) i show ?thesis by auto
  qed
  show ?thesis
    unfolding send_inv_def
  proof (intro conjI ballI allI impI)
    fix q assume "q \<in> out_packets (upd_tcb (\<lambda>t. add_inflight_packet t (get_seq (ts_tcb s)) ?d) (s\<lparr>ts_sent := ts_sent s @ [p]\<rparr>))"
    then have "q \<in> out_packets s \<or> q = p" by (auto simp: out_packets_def)
    with old new show "segment_of (W @ ?d) ?base q" "\<not> has_fin q" by blast+
  qed (use t cov send_inv_family [OF assms(1)] in \<open>simp_all add: family_ok_def\<close>)
qed

lemma write_packet_send:
  assumes "etherparse_ok ep" "send_inv W iss s" "st_of s = Established"
    "unat iss + 1 + length W + length buf < 2 ^ 32" "write_packet b ep cx s buf = Some (s', r)"
  shows "send_inv (W @ accepted buf r) iss s'"
proof -
  obtain p where p: "tcp_create_rev_packet b ep s (PSH OR ACK) (TTL b) None buf = Some (Inr p)"
      "is_reply ep s (PSH OR ACK) (TTL b) None buf p"
    using tcp_create_rev_packet_ok [OF assms(1) send_inv_family [OF assms(2)]] .
  have "take (length (np_payload p)) buf = np_payload p" using p(2) by (simp add: is_reply_def min_def)
  with p(1) assms(2,5) send_inv_push [OF assms(2,3) p(2) assms(4)] show ?thesis
    by (auto simp: write_packet_def Let_def mpsc_send_def split: if_splits)
qed

lemma poll_write_send:
  assumes "etherparse_ok ep" "send_inv W iss s" "unat iss + 1 + length W + length buf < 2 ^ 32"
    "poll_write b ep cx s buf = Some (s', r)"
  shows "send_inv (W @ accepted buf r) iss s'"
proof -
  let ?s = "upd_tcb (reset_timeout (cx_now cx)) s"
  have s: "send_inv W iss ?s" using assms(2) by (rule send_inv_frame)
  have none: "tcb_retransmission (ts_tcb ?s) = None" using send_inv_send_tcb [OF s] by (simp add: send_tcb_def)
  let ?full = "ucast (get_send_window (ts_tcb ?s)) < get_avg_send_window (ts_tcb ?s) div 2 \<or> is_send_buffer_full (ts_tcb ?s)"
  show ?thesis
  proof (cases "st_of s = Established")
    case False
    with assms(2,4) show ?thesis by (auto simp: poll_write_def)
  next
    case est: True
    show ?thesis
    proof (cases ?full)
      case True
      with assms(4) est s show ?thesis by (auto simp: poll_write_def Let_def intro: send_inv_frame)
    next
      case False
      with assms(4) est none have "write_packet b ep cx ?s buf = Some (s', r)"
        unfolding poll_write_def Let_def by simp
      with write_packet_send [OF assms(1) s _ assms(3)] est show ?thesis by simp
    qed
  qed
qed

section \<open>Whole runs\<close>

text \<open>A run of calls with the bytes it takes from the application.\<close>

fun do_call_in :: "build \<Rightarrow> 'x etherparse \<Rightarrow> 'x call \<Rightarrow> 'x tcp_stream \<Rightarrow> ('x tcp_stream \<times> bytes) option" where
  "do_call_in b ep (WriteCall cx buf) s = map_option (\<lambda>(s, r). (s, accepted buf r)) (poll_write b ep cx s buf)"
| "do_call_in b ep call s = map_option (\<lambda>s. (s, [])) (do_call b ep call s)"

fun do_calls_in :: "build \<Rightarrow> 'x etherparse \<Rightarrow> 'x call list \<Rightarrow> 'x tcp_stream \<Rightarrow> ('x tcp_stream \<times> bytes) option" where
  "do_calls_in b ep [] s = Some (s, [])"
| "do_calls_in b ep (c # cs) s =
     do { (s1, in1) \<leftarrow> do_call_in b ep c s;
          (s2, in2) \<leftarrow> do_calls_in b ep cs s1;
          Some (s2, in1 @ in2) }"

lemma do_call_in_fst: "map_option fst (do_call_in b ep call s) = do_call b ep call s"
  by (cases call) (auto simp: option.map_comp comp_def split_def option.map_ident)

lemma do_call_in_length: "do_call_in b ep call s = Some (s', d) \<Longrightarrow> length d \<le> call_written call"
  by (cases call) (auto simp: length_accepted)

lemma poll_read_send:
  assumes "etherparse_ok ep" "send_inv W iss s" "unat iss + 1 < 2 ^ 32"
    "list_all (pred_option (good_packet iss m)) rs" "poll_read b ep cx cap rs s = Some (s', out, r)"
  shows "send_inv W iss s'"
  using assms(5) [unfolded poll_read_def] assms(2)
proof (rule poll_read_loop_keeps)
  show "keeps (send_inv W iss) (before_recv b ep cx cap t)" if "send_inv W iss t" for t
    using before_recv_send [OF assms(1) that] .
  show "keeps (send_inv W iss) (recv_packet b ep cx p t)" if "send_inv W iss t" "Some p \<in> set rs" for p t
    using recv_packet_send [OF assms(1) that(1) _ assms(3)] good_packets [OF assms(4)] that(2) by blast
qed

lemma do_call_in_send:
  assumes "etherparse_ok ep" "send_inv W iss s" "good_call iss m call"
    "unat iss + 1 + length W + call_written call < 2 ^ 32" "do_call_in b ep call s = Some (s', d)"
  shows "send_inv (W @ d) iss s'"
proof (cases call)
  case (ReadCall cx cap rs)
  with assms poll_read_send [OF assms(1,2)] show ?thesis by auto
next
  case (WriteCall cx buf)
  with assms poll_write_send [OF assms(1,2)] show ?thesis by auto
next
  case (FlushCall cx)
  have "tcb_retransmission (ts_tcb s) = None" using send_inv_send_tcb [OF assms(2)] by (simp add: send_tcb_def)
  with FlushCall assms(2,5) show ?thesis by (auto simp: poll_flush_def split: if_splits)
next
  case (ShutdownCall cx rs)
  let ?s = "if ts_shutdown s = ShutdownNone then shutdown_pending (cx_waker cx) s else s"
  have "send_inv W iss ?s" using assms(2) send_inv_frame(4) [OF assms(2)] by simp
  with ShutdownCall assms poll_read_send [OF assms(1), of W iss ?s m rs b cx 1] show ?thesis
    by (auto simp: poll_shutdown_def Let_def split: if_splits)
qed

lemma do_calls_in_send:
  assumes "etherparse_ok ep" "send_inv W iss s" "list_all (good_call iss m) calls"
    "unat iss + 1 + length W + sum_list (map call_written calls) < 2 ^ 32" "do_calls b ep calls s = Some s'"
  shows "\<exists>d. do_calls_in b ep calls s = Some (s', d) \<and> send_inv (W @ d) iss s'"
  using assms(2-)
proof (induction calls arbitrary: W s)
  case (Cons c cs)
  obtain s1 where s1: "do_call b ep c s = Some s1" "do_calls b ep cs s1 = Some s'"
    using Cons.prems(4) by (auto simp: bind_eq_Some_conv)
  obtain d where d: "do_call_in b ep c s = Some (s1, d)"
    using s1(1) do_call_in_fst [of b ep c s] by (cases "do_call_in b ep c s") auto
  have "send_inv (W @ d) iss s1"
    using do_call_in_send [OF assms(1) Cons.prems(1) _ _ d, of m] Cons.prems(2,3) by simp
  moreover have "unat iss + 1 + length (W @ d) + sum_list (map call_written cs) < 2 ^ 32"
    using Cons.prems(3) do_call_in_length [OF d] by simp
  ultimately obtain e where "do_calls_in b ep cs s1 = Some (s', e)" "send_inv ((W @ d) @ e) iss s'"
    using Cons.IH [of "W @ d" s1] Cons.prems(2) s1(2) by auto
  with d show ?case by simp
qed simp

text \<open>The run of a stream created for a SYN, for the theorem below and for the whole stack.\<close>

lemma tcp_sends_segments:
  assumes "etherparse_ok ep" "same_family (sa_ip dst) (sa_ip src)"
    "tcp_stream_new b ep cx rnd src dst tcp mtu tmo = Some (sent, Inr s)"
    "list_all (good_call (iss_of b rnd) m) calls"
    "unat (iss_of b rnd) + 1 + sum_list (map call_written calls) < 2 ^ 32"
    "1 + sum_list (map call_received calls) < 2 ^ 47"
  obtains s' W where "do_calls_in b ep calls s = Some (s', W)" "do_calls b ep calls s = Some s'"
    "send_inv W (iss_of b rnd) s'"
proof -
  have inv: "sess_inv (iss_of b rnd) m 0 1 s" using tcp_stream_new_inv [OF assms(3,2)] .
  obtain s' where s': "do_calls b ep calls s = Some s'"
    using do_calls_ok [OF assms(1) inv assms(4) _ assms(6), of b] assms(5) by auto
  obtain ack where "s = \<lparr>ts_src_addr = src, ts_dst_addr = dst, ts_sent = [], ts_packet_to_send = None,
      ts_tcb = tcb_new b rnd (cx_now cx) ack tmo, ts_mtu = mtu,
      ts_shutdown = ShutdownNone, ts_write_notify = None, ts_wakes = []\<rparr>"
    using tcp_stream_new_Inr [OF assms(3)] by blast
  then have "send_inv [] (iss_of b rnd) s"
    using assms(2) by (simp add: send_inv_def send_tcb_def out_packets_def family_ok_def tcb_new_def iss_of_def)
  from do_calls_in_send [OF assms(1) this assms(4) _ s'] assms(5) that s' show thesis by auto
qed

lemma do_calls_reachable:
  "do_calls b ep calls s = Some s' \<Longrightarrow> reachable init (tcp_step b ep) s \<Longrightarrow> reachable init (tcp_step b ep) s'"
proof (induction calls arbitrary: s)
  case (Cons c cs)
  then obtain s1 where "do_call b ep c s = Some s1" "do_calls b ep cs s1 = Some s'" by (auto simp: bind_eq_Some_conv)
  with Cons show ?case by (blast intro: reach_step call_returns)
qed simp

lemma send_inv_unacked:
  assumes "send_inv W iss s" "st_of s = Established"
  shows "sender_rel (ts_tcb s) (drop (unat (get_last_ack (ts_tcb s)) - (unat iss + 1)) W)"
  using send_inv_Established [OF assms] by (metis add_diff_cancel_left' get_last_ack_def)

text \<open>The packets of a run belong to the session of the stream.\<close>

lemma run_packets:
  assumes "etherparse_ok ep" "same_family (sa_ip dst) (sa_ip src)"
    "tcp_stream_new b ep cx rnd src dst tcp mtu tmo = Some (sent, Inr s)"
    "do_calls b ep calls s = Some s'" "q \<in> set (ts_sent s')"
  shows "reverse_network_tuple q = \<lparr>nt_src = src, nt_dst = dst, nt_tcp = True\<rparr>" "\<exists>bs. to_bytes ep q = Inr bs"
proof -
  have "tcp_init b ep src dst mtu s" unfolding tcp_init_def using assms(3) by blast
  then have "reachable (tcp_init b ep src dst mtu) (tcp_step b ep) s'"
    by (intro do_calls_reachable [OF assms(4)] reach_init)
  from tcp_session_packets [OF this assms(1,2,5)]
  show "reverse_network_tuple q = \<lparr>nt_src = src, nt_dst = dst, nt_tcp = True\<rparr>" "\<exists>bs. to_bytes ep q = Inr bs" by blast+
qed

text \<open>
  C3: a TCP stream sends what the application wrote. Take a stream created for a SYN and any
  run of reads, writes, flushes and shutdowns, with any timing, failures and arriving
  packets, under the conditions of the no-panic theorem, and let \<open>W\<close> be the bytes that
  the \<open>poll_write\<close> calls accepted, in order. Every packet the stream has handed to the
  stack, sent for the first time or again after any partial acknowledgements, carries the
  bytes of \<open>W\<close> that belong at its sequence number; a FIN has no payload and the
  number just after \<open>W\<close>. Every byte of \<open>W\<close> is in some packet, and while the
  connection is established, the send buffer holds exactly the bytes of \<open>W\<close> after
  the last acknowledgement.
\<close>

theorem tcp_sends_in_order:
  assumes "etherparse_ok ep" "same_family (sa_ip dst) (sa_ip src)"
    "tcp_stream_new b ep cx rnd src dst tcp mtu tmo = Some (sent, Inr s)"
    "list_all (good_call (iss_of b rnd) m) calls"
    "unat (iss_of b rnd) + 1 + sum_list (map call_written calls) < 2 ^ 32"
    "1 + sum_list (map call_received calls) < 2 ^ 47" "base = unat (iss_of b rnd) + 1"
  shows "\<exists>s' W. do_calls_in b ep calls s = Some (s', W) \<and>
     (\<forall>p \<in> set (ts_sent s'). segment_of W base p) \<and>
     (\<forall>i < length W. \<exists>p \<in> set (ts_sent s'). covers base i p) \<and>
     (st_of s' = Established \<longrightarrow> sender_rel (ts_tcb s') (drop (unat (get_last_ack (ts_tcb s')) - base) W))"
proof -
  obtain s' W where run: "do_calls_in b ep calls s = Some (s', W)" "do_calls b ep calls s = Some s'"
      "send_inv W (iss_of b rnd) s'"
    using tcp_sends_segments [OF assms(1-6)] .
  with send_inv_unacked [OF run(3)] show ?thesis
    by (auto simp: send_inv_def out_packets_def assms(7))
qed

lemma sample_tcp_window: "tcp_window_size (sample_tcp sq ak fl win) = win"
  by (simp add: sample_tcp_def)

text \<open>Evaluation: the handshake with a window of 65535, and three bytes written.\<close>

definition sample_writing :: "unit call list" where
  "sample_writing =
     [ReadCall sample_cx 16 [], ReadCall sample_cx 16 [Some (sample_segment 8 101 ACK 65535 [])],
      WriteCall sample_cx [1, 2, 3]]"

lemma sample_writing_ok:
  "list_all (good_call (iss_of sample_build rnd) 8) sample_writing"
  "unat (iss_of sample_build rnd) + 1 + sum_list (map call_written sample_writing) < 2 ^ 32"
  "1 + sum_list (map call_received sample_writing) < 2 ^ 47" "101 = unat (iss_of sample_build rnd) + 1"
  by (simp_all add: sample_writing_def good_packet_def sample_segment_def sample_tcp_def iss_of_def sample_build_def)

lemma sample_writing_run:
  assumes "etherparse_ok ep" "same_family (sa_ip dst) (sa_ip src)"
    "tcp_stream_new sample_build ep cx rnd src dst tcp mtu tmo = Some (sent, Inr s)" "100 \<le> unat mtu"
  obtains s' where "do_calls_in sample_build ep sample_writing s = Some (s', [1, 2, 3])"
proof -
  let ?p = "sample_segment 8 101 ACK 65535 []" and ?iss = "iss_of sample_build rnd"
  have h: "\<forall>d. \<not> cx_sleep_ready sample_cx d" "cx_send_ok sample_cx n" "unat ?iss + 1 < 2 ^ 32"
    "np_transport ?p = Tcp (sample_tcp 8 101 ACK 65535)" "flags (wrapper_from (sample_tcp 8 101 ACK 65535)) = ACK"
    "tcp_acknowledgment_number (sample_tcp 8 101 ACK 65535) = ?iss + 1" for n
    by (simp_all add: sample_cx_def iss_of_def sample_build_def sample_segment_def)
       (simp_all add: sample_tcp_def tcp_flags flags_def inner_def wrapper_from_def Let_def)
  obtain s1 s2 q where r: "poll_read sample_build ep sample_cx 16 [] s = Some (s1, [], Pending)"
    "poll_read sample_build ep sample_cx 16 [Some ?p] s1 = Some (s2, [], Pending)" "st_of s2 = Established"
    "sender_rel (ts_tcb s2) []" "get_send_window (ts_tcb s2) = 65535"
    using handshake_run [OF assms(1-3) h(1,2,3,4-6), of 16] by (metis sample_tcp_window)
  let ?calls = "[ReadCall sample_cx 16 [], ReadCall sample_cx 16 [Some ?p]]"
  have run: "do_calls sample_build ep ?calls s = Some s2" using r(1,2) by simp
  have "sess_inv ?iss 8 0 (Suc (Suc 0)) s2"
    using do_calls_ok [OF assms(1) tcp_stream_new_inv [OF assms(3,2)], of 8 ?calls sample_build] run
      sample_writing_ok(1) h(3) by (simp add: sample_writing_def)
  then have inv: "family_ok s2" "tcb_retransmission (ts_tcb s2) = None" "unat (get_avg_send_window (ts_tcb s2)) \<le> 65535"
    "unat (tcb_seq (ts_tcb s2)) \<le> unat ?iss + 1"
    using r(3) by (auto simp: sess_inv_def tcb_inv_def window_ok_def get_avg_send_window_def sender_ok_def get_state_def)
  have "tcp_init sample_build ep src dst mtu s" unfolding tcp_init_def using assms(3) by blast
  then have "ts_mtu s2 = mtu"
    using tcp_life.inv_reachable [OF do_calls_reachable [OF run reach_init]] by (simp add: life_inv_def)
  have "\<not> write_blocked (ts_tcb s2) []" using inv(3) r(5) by (simp add: write_blocked_def)
  moreover have "3 = min (length [1, 2, 3 :: u8]) (payload_room s2)" 
    using r(5) assms(4) \<open>ts_mtu s2 = mtu\<close> by (auto simp: payload_room_def tcp_headers_len_def split: ip_addr.splits)
  moreover have "length [1, 2, 3 :: u8] < send_room (ts_tcb s2)" using inv(4) sample_writing_ok(4) [of rnd] by (simp add: send_room_def)
  ultimately obtain s3 where "poll_write sample_build ep sample_cx s2 [1, 2, 3] = Some (s3, Ready (Inr 3))"
    using poll_write_sends [OF assms(1) inv(1) r(4) inv(2) _ h(2), of "[1, 2, 3]" 3 sample_build] by metis
  with r(1,2) that show thesis by (simp add: sample_writing_def numeral_3_eq_3)
qed

theorem tcp_sends_in_order_witness:
  "\<exists>s'. do_calls_in sample_build sample_ep sample_writing (sample_stream (SynReceived False)) = Some (s', [1, 2, 3]) \<and>
     (\<forall>p \<in> set (ts_sent s'). segment_of [1, 2, 3] 101 p) \<and> (\<forall>i < 3. \<exists>p \<in> set (ts_sent s'). covers 101 i p)"
proof -
  have fam: "same_family (sa_ip sample_dst) (sa_ip sample_src)" by (simp add: same_family_def)
  obtain s' where "do_calls_in sample_build sample_ep sample_writing (sample_stream (SynReceived False)) = Some (s', [1, 2, 3])"
    using sample_writing_run [OF sample_etherparse_ok fam sample_new] by auto
  with tcp_sends_in_order [OF sample_etherparse_ok fam sample_new sample_writing_ok] show ?thesis
    by (auto simp: numeral_3_eq_3)
qed

end
