(* ===== verification/Tcp_Ack.thy ===== *)
theory Tcp_Ack
  imports Tcp_Write
begin

text \<open>
  What an acknowledgement does for the sender: a duplicate one makes it send the first
  unacknowledged packet again, a new one wakes a writer that waits for room.
\<close>

section \<open>Retransmission\<close>




text \<open>A sender for evaluation: three bytes outstanding.\<close>

definition sample_busy :: "unit tcp_stream" where
  "sample_busy = upd_tcb (\<lambda>t. push_bytes t [1, 2, 3]) (sample_stream Established)"

lemma sample_busy_simps:
  "sender_rel (ts_tcb sample_busy) [1, 2, 3]" "family_ok sample_busy" "window_ok 1 (ts_tcb sample_busy)"
  "tcb_retransmission (ts_tcb sample_busy) = None" "ts_packet_to_send sample_busy = None"
  "ts_shutdown sample_busy = ShutdownNone" "tcb_unordered_packets (ts_tcb sample_busy) = []" "ts_sent sample_busy = []"
  "get_last_ack (ts_tcb sample_busy) = 100" "get_send_window (ts_tcb sample_busy) = 65535" "get_seq (ts_tcb sample_busy) = 103"
proof -
  have "length [1, 2, 3 :: u8] < send_room (ts_tcb (sample_stream Established))"
    by (simp add: send_room_def sample_stream_def change_state_def tcb_new_def sample_build_def)
  from sender_rel_push(1) [OF sample_sender this] show "sender_rel (ts_tcb sample_busy) [1, 2, 3]"
    by (simp add: sample_busy_def)
  show "family_ok sample_busy" using sample_family_ok [of Established] by (simp add: sample_busy_def family_ok_def)
qed (simp_all add: sample_busy_def sample_stream_def push_bytes_def add_inflight_packet_def change_state_def tcb_new_def
    window_ok_def tcb_getters sample_build_def)


section \<open>Waking the writer\<close>

text \<open>A bare acknowledgement of outstanding bytes.\<close>

lemma check_pkt_type_new_ack:
  assumes "tcb_last_ack t < tcp_acknowledgment_number (inner h)" "tcp_acknowledgment_number (inner h) \<le> tcb_seq t"
  shows "check_pkt_type t h [] = Ack"
proof -
  have "tcb_last_ack t \<le> tcb_seq t" using assms by simp
  from ack_window_unwrapped [OF this, of "tcp_acknowledgment_number (inner h)"] assms
  have "\<not> (tcb_seq t - tcp_acknowledgment_number (inner h) > tcb_seq t - tcb_last_ack t \<or>
      (tcp_acknowledgment_number (inner h) \<noteq> tcb_seq t \<and> saturating_sub (tcb_seq t) (tcp_acknowledgment_number (inner h)) = 0))"
    by (meson less_imp_le)
  moreover have "tcb_last_ack t \<noteq> tcp_acknowledgment_number (inner h)" using assms(1) by (metis less_irrefl)
  ultimately show ?thesis using assms(1) unfolding check_pkt_type_def Let_def by presburger
qed

lemma recv_new_ack:
  assumes "sender_rel (ts_tcb s) ds" "window_ok c (ts_tcb s)" "c < 2 ^ 47"
    "np_transport p = Tcp h" "flags (wrapper_from h) = ACK" "np_payload p = []"
    "unat (get_last_ack (ts_tcb s)) < unat (tcp_acknowledgment_number h)"
    "unat (tcp_acknowledgment_number h) \<le> unat (get_seq (ts_tcb s))"
  obtains t where "recv_packet b ep cx p s = Some (Continue (notify_writer (s\<lparr>ts_tcb := t\<rparr>)))"
    "sender_rel t (drop (unat (tcp_acknowledgment_number h) - unat (get_last_ack (ts_tcb s))) ds)"
    "tcb_send_window t = tcp_window_size h" "tcb_retransmission t = tcb_retransmission (ts_tcb s)"
    "tcb_unordered_packets t = tcb_unordered_packets (ts_tcb s)"
proof -
  let ?a = "tcp_acknowledgment_number h" and ?t = "ts_tcb s"
  note h = ack_only [OF assms(4,5)]
  have st: "tcb_state ?t = Established" using assms(1) by (simp add: sender_rel_def)
  have lo: "tcb_last_ack ?t < ?a" and hi: "?a \<le> tcb_seq ?t"
    using assms(7,8) unfolding word_le_nat_alt word_less_nat_alt tcb_getters by blast+
  then have ack: "check_pkt_type ?t (wrapper_from h) [] = Ack" using check_pkt_type_new_ack [of ?t "wrapper_from h"] h(3) by simp
  obtain ps where ps: "change_last_ack b ?t ?a = Some (?t\<lparr>tcb_last_ack := ?a, tcb_inflight_packets := ps\<rparr>)"
      "sender_rel (?t\<lparr>tcb_last_ack := ?a, tcb_inflight_packets := ps\<rparr>) (drop (unat ?a - unat (get_last_ack ?t)) ds)"
    using change_last_ack_refines [OF assms(1), of ?a b] assms(7,8) by (auto simp: tcb_getters)
  let ?t1 = "?t\<lparr>tcb_last_ack := ?a, tcb_inflight_packets := ps\<rparr>"
  have "window_ok c ?t1" using assms(2) by (simp add: window_ok_def)
  then obtain av where av: "change_send_window b ?t1 (tcp_window_size h) =
      Some (?t1\<lparr>tcb_avg_send_window := av, tcb_send_window := tcp_window_size h\<rparr>)"
    using window_ok_change [OF _ assms(3)] by metis
  let ?t2 = "?t1\<lparr>tcb_avg_send_window := av, tcb_send_window := tcp_window_size h\<rparr>"
  have "recv_packet b ep cx p s = Some (Continue (notify_writer (s\<lparr>ts_tcb := ?t2\<rparr>)))"
    using st ack ps(1) av assms(5,6) h
    by (simp add: recv_packet_def recv_established_def recv_established_ack_def upd_tcb_opt_def get_state_def)
  then show thesis by (rule that) (use ps(2) in \<open>simp_all add: sender_rel_def\<close>)
qed

text \<open>
  C17: a writer that has to wait is woken. When \<open>poll_write\<close> of an established stream
  returns \<open>Pending\<close>, and then \<open>poll_read\<close> receives a bare acknowledgement of some of the
  outstanding bytes, the waker of the writer is woken, exactly once; the acknowledged bytes
  have left the send buffer and the peer's new window is in effect.
\<close>

theorem blocked_writer_woken:
  assumes "sender_rel (ts_tcb s) ds" "write_blocked (ts_tcb s) ds" "window_ok c (ts_tcb s)" "c < 2 ^ 47"
    "tcb_retransmission (ts_tcb s) = None" "ts_packet_to_send s = None" "ts_shutdown s = ShutdownNone"
    "tcb_unordered_packets (ts_tcb s) = []" "\<forall>d. \<not> cx_sleep_ready cx' d"
    "np_transport p = Tcp h" "flags (wrapper_from h) = ACK" "np_payload p = []"
    "unat (get_last_ack (ts_tcb s)) < unat (tcp_acknowledgment_number h)"
    "unat (tcp_acknowledgment_number h) \<le> unat (get_seq (ts_tcb s))"
  shows "\<exists>s1 s2. poll_write b ep cx s buf = Some (s1, Pending) \<and>
     poll_read b ep cx' cap [Some p] s1 = Some (s2, [], Pending) \<and>
     ts_wakes s2 = ts_wakes s @ [cx_waker cx] \<and> ts_write_notify s2 = None \<and> ts_sent s2 = ts_sent s \<and>
     sender_rel (ts_tcb s2) (drop (unat (tcp_acknowledgment_number h) - unat (get_last_ack (ts_tcb s))) ds) \<and>
     get_send_window (ts_tcb s2) = tcp_window_size h"
proof -
  let ?s1 = "(upd_tcb (reset_timeout (cx_now cx)) s)\<lparr>ts_write_notify := Some (cx_waker cx)\<rparr>"
  let ?i = "idle cx' ?s1"
  have est: "st_of s = Established" using assms(1) by (simp add: sender_rel_def get_state_def)
  have rel: "sender_rel (ts_tcb (upd_tcb (reset_timeout (cx_now cx)) s)) ds"
    "write_blocked (ts_tcb (upd_tcb (reset_timeout (cx_now cx)) s)) ds"
    using assms(1,2) by (simp_all add: sender_rel_def reset_timeout_def write_blocked_def tcb_getters get_avg_send_window_def)
  have w: "poll_write b ep cx s buf = Some (?s1, Pending)"
    using est write_blocked_iff [OF rel(1)] rel(2) unfolding poll_write_def Let_def by simp
  have t: "sender_rel (ts_tcb ?i) ds" "window_ok c (ts_tcb ?i)" "tcb_retransmission (ts_tcb ?i) = None"
    "get_last_ack (ts_tcb ?i) = get_last_ack (ts_tcb s)" "get_seq (ts_tcb ?i) = get_seq (ts_tcb s)"
    "tcb_unordered_packets (ts_tcb ?i) = []" "ts_packet_to_send ?i = None" "ts_shutdown ?i = ShutdownNone"
    "ts_write_notify ?i = Some (cx_waker cx)" "ts_wakes ?i = ts_wakes s" "ts_sent ?i = ts_sent s"
    using assms(1,3,5-8) by (simp_all add: idle_def sender_rel_def window_ok_def reset_timeout_def change_recv_window_def
        tcb_getters)
  obtain t2 where t2: "recv_packet b ep cx' p ?i = Some (Continue (notify_writer (?i\<lparr>ts_tcb := t2\<rparr>)))"
    "sender_rel t2 (drop (unat (tcp_acknowledgment_number h) - unat (get_last_ack (ts_tcb ?i))) ds)"
    "tcb_send_window t2 = tcp_window_size h" "tcb_retransmission t2 = tcb_retransmission (ts_tcb ?i)"
    "tcb_unordered_packets t2 = tcb_unordered_packets (ts_tcb ?i)"
    using recv_new_ack [OF t(1,2) assms(4,10-12) assms(13) [folded t(4)] assms(14) [folded t(5)]] .
  let ?s2 = "notify_writer (?i\<lparr>ts_tcb := t2\<rparr>)"
  have b1: "before_recv b ep cx' cap ?s1 = Some (Proceed ?i)"
    using assms(5-9) est by (intro before_recv_idle) (simp_all add: get_state_def reset_timeout_def)
  have b2: "before_recv b ep cx' cap ?s2 = Some (Proceed (idle cx' ?s2))"
    using t2 t(3,6-8) assms(9) by (intro before_recv_idle) (simp_all add: get_state_def sender_rel_def)
  have "poll_read b ep cx' cap [Some p] ?s1 = Some (idle cx' ?s2, [], Pending)"
    by (simp add: poll_read_def poll_read_loop.simps [of b ep cx' cap "[Some p]" ?s1]
        poll_read_loop.simps [of b ep cx' cap "[]" ?s2] b1 b2 t2(1))
  moreover have "ts_wakes (idle cx' ?s2) = ts_wakes s @ [cx_waker cx]" "ts_sent (idle cx' ?s2) = ts_sent s"
    "ts_write_notify (idle cx' ?s2) = None"
    using t(9-11) by (simp_all add: idle_def notify_writer_def)
  moreover have "sender_rel (ts_tcb (idle cx' ?s2)) (drop (unat (tcp_acknowledgment_number h) - unat (get_last_ack (ts_tcb s))) ds)"
    "get_send_window (ts_tcb (idle cx' ?s2)) = tcp_window_size h"
    using t2(2,3) t(4) by (simp_all add: idle_def sender_rel_def reset_timeout_def change_recv_window_def tcb_getters)
  ultimately show ?thesis using w by blast
qed

text \<open>The same sender after the peer has shrunk its window.\<close>

definition sample_blocked :: "unit tcp_stream" where
  "sample_blocked = upd_tcb (\<lambda>t. t\<lparr>tcb_send_window := 512, tcb_avg_send_window := (65535, 1)\<rparr>) sample_busy"

lemma sample_blocked_simps:
  "sender_rel (ts_tcb sample_blocked) [1, 2, 3]" "write_blocked (ts_tcb sample_blocked) [1, 2, 3]"
  "window_ok 1 (ts_tcb sample_blocked)" "tcb_retransmission (ts_tcb sample_blocked) = None"
  "ts_packet_to_send sample_blocked = None" "ts_shutdown sample_blocked = ShutdownNone"
  "tcb_unordered_packets (ts_tcb sample_blocked) = []" "ts_wakes sample_blocked = []"
  "get_last_ack (ts_tcb sample_blocked) = 100" "get_seq (ts_tcb sample_blocked) = 103"
  using sample_busy_simps
  by (simp_all add: sample_blocked_def sender_rel_def write_blocked_def window_ok_def tcb_getters)
    (simp add: sample_busy_def sample_stream_def)

theorem blocked_writer_woken_witness:
  "\<exists>s1 s2. poll_write sample_build sample_ep sample_cx sample_blocked [4] = Some (s1, Pending) \<and>
     poll_read sample_build sample_ep sample_cx 16 [Some (sample_segment 8 102 ACK 600 [])] s1 = Some (s2, [], Pending) \<and>
     ts_wakes s2 = [1] \<and> sender_rel (ts_tcb s2) [3] \<and> get_send_window (ts_tcb s2) = 600"
proof -
  let ?h = "sample_tcp 8 102 ACK 600"
  have p: "np_transport (sample_segment 8 102 ACK 600 []) = Tcp ?h" "flags (wrapper_from ?h) = ACK"
    "np_payload (sample_segment 8 102 ACK 600 []) = []"
    "unat (get_last_ack (ts_tcb sample_blocked)) < unat (tcp_acknowledgment_number ?h)"
    "unat (tcp_acknowledgment_number ?h) \<le> unat (get_seq (ts_tcb sample_blocked))"
    unfolding sample_blocked_simps
    by (simp_all add: sample_segment_def sample_tcp_def flags_def inner_def Let_def wrapper_from_def tcp_flags)
  have v: "tcp_acknowledgment_number ?h = 102" "tcp_window_size ?h = 600" "cx_waker sample_cx = 1"
    by (simp_all add: sample_tcp_def sample_cx_def)
  have d: "drop (unat (102 :: u32) - unat (100 :: u32)) [1, 2, 3 :: u8] = [3]" by simp
  have c: "\<forall>d. \<not> cx_sleep_ready sample_cx d" "(1 :: nat) < 2 ^ 47" by (simp_all add: sample_cx_def)
  from blocked_writer_woken [OF sample_blocked_simps(1-3) c(2) sample_blocked_simps(4-7) c(1) p,
      of sample_build sample_ep sample_cx "[4]" 16]
  show ?thesis unfolding sample_blocked_simps(8,9) append_Nil v d by metis
qed

end
