(* ===== verification/Tcp_Close.thy ===== *)
theory Tcp_Close
  imports Tcp_Life
begin

text \<open>
  How a TCP connection ends: by a reset of the peer, by a timeout, by an orderly
  shutdown, and by a close of the peer.
\<close>

section \<open>Passes over a quiet stream\<close>

text \<open>What is waiting to be sent goes out first.\<close>

definition drained :: "'x tcp_stream \<Rightarrow> 'x tcp_stream" where
  "drained s = (case ts_packet_to_send s of
     None \<Rightarrow> s
   | Some p \<Rightarrow> s\<lparr>ts_packet_to_send := None, ts_sent := ts_sent s @ [p]\<rparr>)"

lemma drained_simps [simp]:
  "ts_tcb (drained s) = ts_tcb s" "ts_packet_to_send (drained s) = None" "ts_shutdown (drained s) = ts_shutdown s"
  "ts_src_addr (drained s) = ts_src_addr s" "ts_dst_addr (drained s) = ts_dst_addr s" "ts_mtu (drained s) = ts_mtu s"
  by (simp_all add: drained_def split: option.splits)

lemma drained_none: "ts_packet_to_send s = None \<Longrightarrow> drained s = s"
  by (simp add: drained_def)

lemma idle_simps [simp]:
  "st_of (idle cx s) = st_of s" "ts_packet_to_send (idle cx s) = ts_packet_to_send s"
  "ts_shutdown (idle cx s) = ts_shutdown s" "ts_sent (idle cx s) = ts_sent s"
  "ts_src_addr (idle cx s) = ts_src_addr s" "ts_dst_addr (idle cx s) = ts_dst_addr s" "ts_mtu (idle cx s) = ts_mtu s"
  "tcb_retransmission (ts_tcb (idle cx s)) = tcb_retransmission (ts_tcb s)"
  "tcb_unordered_packets (ts_tcb (idle cx s)) = tcb_unordered_packets (ts_tcb s)"
  "tcb_seq (ts_tcb (idle cx s)) = tcb_seq (ts_tcb s)" "tcb_ack (ts_tcb (idle cx s)) = tcb_ack (ts_tcb s)"
  "tcb_last_ack (ts_tcb (idle cx s)) = tcb_last_ack (ts_tcb s)"
  "tcb_avg_send_window (ts_tcb (idle cx s)) = tcb_avg_send_window (ts_tcb s)"
  by (simp_all add: idle_def get_state_def reset_timeout_def change_recv_window_def)

lemma before_recv_start:
  assumes "tcb_retransmission (ts_tcb s) = None"
    "ts_packet_to_send s \<noteq> None \<longrightarrow> cx_send_ok cx (length (ts_sent s))"
  shows "before_recv b ep cx cap s =
    then_do (read_closed b ep (drained s)) (\<lambda>s.
    then_do (read_timeout b ep cx s) (\<lambda>s.
    then_do (read_syn b ep s) (\<lambda>s.
    then_do (read_deliver b ep cx cap s) (\<lambda>s.
    read_fin b ep s))))"
  using assms
  by (cases "ts_packet_to_send s")
     (simp_all add: before_recv_def then_do_def read_retransmission_def read_send_pending_def send_or_eof_def
      mpsc_send_def drained_def)

lemma before_recv_open:
  assumes "tcb_retransmission (ts_tcb s) = None"
    "ts_packet_to_send s \<noteq> None \<longrightarrow> cx_send_ok cx (length (ts_sent s))"
    "st_of s \<in> {SynReceived True, Established, FinWait1 False, FinWait1 True, FinWait2 True}"
    "\<not> cx_sleep_ready cx (tcb_timeout (ts_tcb s))" "tcb_unordered_packets (ts_tcb s) = []"
  shows "before_recv b ep cx cap s = read_fin b ep (idle cx (drained s))"
proof -
  have "read_deliver b ep cx cap (idle cx (drained s)) = Some (Proceed (idle cx (drained s)))"
    using assms(5) by (simp add: read_deliver_def get_unordered_packets_def)
  then show ?thesis
    using assms(3,4) unfolding before_recv_start [OF assms(1,2)]
    by (auto simp: then_do_def read_closed_def read_timeout_def read_syn_def Let_def
        change_recv_window_def idle_def get_state_def reset_timeout_def)
qed

lemma before_recv_quiet:
  assumes "tcb_retransmission (ts_tcb s) = None"
    "ts_packet_to_send s \<noteq> None \<longrightarrow> cx_send_ok cx (length (ts_sent s))"
    "st_of s \<in> {SynReceived True, FinWait1 False, FinWait2 True} \<or> st_of s = Established \<and> ts_shutdown s = ShutdownNone"
    "\<not> cx_sleep_ready cx (tcb_timeout (ts_tcb s))" "tcb_unordered_packets (ts_tcb s) = []"
  shows "before_recv b ep cx cap s = Some (Proceed (idle cx (drained s)))"
proof -
  have "before_recv b ep cx cap s = read_fin b ep (idle cx (drained s))"
    using assms by (intro before_recv_open) auto
  also have "\<dots> = Some (Proceed (idle cx (drained s)))"
    using assms(3) by (auto simp: read_fin_def shutdown_is_pending_def)
  finally show ?thesis .
qed

text \<open>The loop, pass by pass.\<close>

lemma loop_return:
  assumes "before_recv b ep cx cap s = Some (Return s' out r)"
  shows "poll_read_loop b ep cx cap rs s = Some (s', out, r)"
  by (simp add: poll_read_loop.simps [of b ep cx cap rs s] assms)

lemma loop_continue:
  assumes "before_recv b ep cx cap s = Some (Continue s')"
  shows "poll_read_loop b ep cx cap rs s = poll_read_loop b ep cx cap rs s'"
  by (simp add: poll_read_loop.simps [of b ep cx cap rs s] assms)

lemma loop_packet:
  assumes "before_recv b ep cx cap s = Some (Proceed s1)" "recv_packet b ep cx p s1 = Some (Continue s')"
  shows "poll_read_loop b ep cx cap (Some p # rs) s = poll_read_loop b ep cx cap rs s'"
  by (simp add: poll_read_loop.simps [of b ep cx cap "Some p # rs" s] assms)

text \<open>A read of a closed stream sends what is still waiting: the packet that ends the session.\<close>

lemma closed_read:
  assumes "st_of s = Closed" "tcb_retransmission (ts_tcb s) = None"
    "ts_packet_to_send s \<noteq> None \<longrightarrow> cx_send_ok cx (length (ts_sent s))"
  shows "poll_read b ep cx cap rs s = Some (shutdown_ready (drained s), [], Ready (Inr ()))"
proof -
  have "before_recv b ep cx cap s = Some (Return (shutdown_ready (drained s)) [] (Ready (Inr ())))"
    using assms by (subst before_recv_start) (simp_all add: then_do_def read_closed_def)
  then show ?thesis unfolding poll_read_def by (rule loop_return)
qed

section \<open>Reset\<close>

text \<open>
  C24: a reset ends the connection and its session. Any TCP packet with the RST flag,
  whatever its sequence number, that reaches a half-open or established stream with
  nothing else to do makes \<open>poll_read\<close> fail with \<open>ConnectionReset\<close> and closes the
  stream. The next \<open>poll_read\<close> reports the end of the stream and hands the stack a
  packet with TTL 0 whose reversed tuple is the session's key, and a shutdown then
  succeeds at once.
\<close>

theorem reset_ends_session:
  assumes "etherparse_ok ep" "family_ok s" "st_of s = SynReceived True \<or> st_of s = Established"
    "tcb_retransmission (ts_tcb s) = None" "ts_packet_to_send s = None" "ts_shutdown s = ShutdownNone"
    "tcb_unordered_packets (ts_tcb s) = []" "\<not> cx_sleep_ready cx (tcb_timeout (ts_tcb s))"
    "np_transport p = Tcp h" "tcp_rst h" "cx_send_ok cx (length (ts_sent s))"
  shows "\<exists>s1 s2 q. poll_read b ep cx cap (Some p # rs) s = Some (s1, [], Ready (Inl (Simple ConnectionReset))) \<and>
     st_of s1 = Closed \<and> ts_sent s1 = ts_sent s \<and>
     poll_read b ep cx cap' rs' s1 = Some (s2, [], Ready (Inr ())) \<and> st_of s2 = Closed \<and>
     ts_sent s2 = ts_sent s @ [q] \<and> ttl q = 0 \<and>
     reverse_network_tuple q = \<lparr>nt_src = ts_src_addr s, nt_dst = ts_dst_addr s, nt_tcp = True\<rparr> \<and>
     poll_shutdown b ep cx rs' s2 = Some (s2, Ready (Inr ()))"
proof -
  let ?s = "idle cx (drained s)"
  have b: "before_recv b ep cx cap s = Some (Proceed ?s)"
    using assms(3-8) by (intro before_recv_quiet) auto
  have fam: "family_ok ?s" using assms(2) by (simp add: family_ok_def)
  obtain q where q: "tcp_create_rev_packet b ep ?s NON DROP_TTL None [] = Some (Inr q)"
      "is_reply ep ?s NON DROP_TTL None [] q"
    using tcp_create_rev_packet_ok [OF assms(1) fam] .
  let ?s1 = "shutdown_ready (set_state Closed (?s\<lparr>ts_packet_to_send := Some q\<rparr>))"
  let ?s2 = "shutdown_ready (drained ?s1)"
  have sent: "ts_sent (drained s) = ts_sent s" using assms(5) by (simp add: drained_def)
  have "recv_packet b ep cx p ?s = Some (Return ?s1 [] (Ready (Inl (Simple ConnectionReset))))"
    using assms(9,10) q(1) by (simp add: recv_packet_def transport_protocol_def flags_rst with_packet_def
        inner_def wrapper_from_def)
  then have "poll_read b ep cx cap (Some p # rs) s = Some (?s1, [], Ready (Inl (Simple ConnectionReset)))"
    by (simp add: poll_read_def poll_read_loop.simps [of b ep cx cap "Some p # rs" s] b)
  moreover have "poll_read b ep cx cap' rs' ?s1 = Some (?s2, [], Ready (Inr ()))"
    using assms(4,11) sent by (intro closed_read) simp_all
  moreover have "ts_sent ?s2 = ts_sent s @ [q]" using sent by (simp add: drained_def)
  moreover have "ttl q = 0" "reverse_network_tuple q = \<lparr>nt_src = ts_src_addr s, nt_dst = ts_dst_addr s, nt_tcp = True\<rparr>"
    using q(2) by (auto simp: is_reply_def DROP_TTL_def reverse_network_tuple_def is_tcp_def)
  moreover have "poll_shutdown b ep cx rs' ?s2 = Some (?s2, Ready (Inr ()))" by (simp add: poll_shutdown_def)
  ultimately show ?thesis using sent by (auto intro!: exI [of _ ?s1] exI [of _ ?s2] exI [of _ q])
qed

lemma sample_idle:
  "tcb_retransmission (ts_tcb (sample_stream st)) = None" "ts_packet_to_send (sample_stream st) = None"
  "ts_shutdown (sample_stream st) = ShutdownNone" "tcb_unordered_packets (ts_tcb (sample_stream st)) = []"
  "ts_sent (sample_stream st) = []"
  by (simp_all add: sample_stream_def change_state_def tcb_new_def)

theorem reset_ends_session_witness:
  "\<exists>s1 s2 q. poll_read sample_build sample_ep sample_cx 16 [Some (sample_segment 8 0 RST 0 [])]
          (sample_stream Established) = Some (s1, [], Ready (Inl (Simple ConnectionReset))) \<and>
      poll_read sample_build sample_ep sample_cx 16 [] s1 = Some (s2, [], Ready (Inr ())) \<and>
      ts_sent s2 = [q] \<and> ttl q = 0"
proof -
  have "\<not> cx_sleep_ready sample_cx (tcb_timeout (ts_tcb (sample_stream Established)))"
    "tcp_rst (sample_tcp 8 0 RST 0)" "cx_send_ok sample_cx (length (ts_sent (sample_stream Established)))"
    by (simp_all add: sample_cx_def sample_tcp_def tcp_flags)
  from reset_ends_session [OF sample_etherparse_ok sample_family_ok _ sample_idle(1-4) this(1) _ this(2,3),
      of "sample_segment 8 0 RST 0 []"]
  show ?thesis by (simp add: sample_state sample_idle sample_segment_def) metis
qed

section \<open>Timeout\<close>

text \<open>
  C25: when the timer of an open or closing stream has elapsed, \<open>poll_read\<close> sends one
  RST/ACK packet that acknowledges everything delivered, closes the stream and
  fails with \<open>TimedOut\<close>, whatever is waiting to be received.
\<close>

theorem timeout_resets:
  assumes "etherparse_ok ep" "family_ok s" "st_of s \<noteq> Closed" "st_of s \<noteq> FinWait2 False"
    "tcb_retransmission (ts_tcb s) = None" "ts_packet_to_send s = None"
    "cx_sleep_ready cx (tcb_timeout (ts_tcb s))" "cx_send_ok cx (length (ts_sent s))"
  shows "\<exists>s' q h. poll_read b ep cx cap rs s = Some (s', [], Ready (Inl (Simple TimedOut))) \<and>
     st_of s' = Closed \<and> ts_shutdown s' = ShutdownReady \<and> ts_sent s' = ts_sent s @ [q] \<and>
     np_transport q = Tcp h \<and> flags (wrapper_from h) = (RST OR ACK) \<and> ttl q = TTL b \<and>
     tcp_sequence_number h = get_seq (ts_tcb s) \<and> tcp_acknowledgment_number h = get_ack (ts_tcb s)"
proof -
  let ?s = "upd_tcb (\<lambda>t. change_recv_window t (of_nat (get_available_read_buffer_size t))) s"
  have fam: "family_ok ?s" using assms(2) by (simp add: family_ok_def)
  obtain q where q: "tcp_create_rev_packet b ep ?s (RST OR ACK) (TTL b) None [] = Some (Inr q)"
      "is_reply ep ?s (RST OR ACK) (TTL b) None [] q"
    using tcp_create_rev_packet_ok [OF assms(1) fam] .
  then obtain h where h: "np_transport q = Tcp h" "ttl q = TTL b" "tcp_sequence_number h = get_seq (ts_tcb s)"
      "tcp_acknowledgment_number h = get_ack (ts_tcb s)"
    by (auto simp: is_reply_def change_recv_window_def tcb_getters)
  have fl: "flags (wrapper_from h) = (RST OR ACK)"
    using is_reply_flags [OF q(2) h(1)] by (simp add: tcp_flags)
  let ?s' = "shutdown_ready (set_state Closed (?s\<lparr>ts_sent := ts_sent s @ [q]\<rparr>))"
  have "drained s = s" using assms(6) by (simp add: drained_def)
  then have "before_recv b ep cx cap s = Some (Return ?s' [] (Ready (Inl (Simple TimedOut))))"
    using assms(3-8) q(1)
    by (subst before_recv_start) (simp_all add: then_do_def read_closed_def read_timeout_def with_packet_def
        send_or_eof_def mpsc_send_def Let_def change_recv_window_def)
  then have "poll_read b ep cx cap rs s = Some (?s', [], Ready (Inl (Simple TimedOut)))"
    by (simp add: poll_read_def poll_read_loop.simps [of b ep cx cap rs s])
  with h fl show ?thesis by simp
qed

theorem timeout_resets_witness:
  "\<exists>s'. poll_read sample_build sample_ep (sample_cx\<lparr>cx_sleep_ready := (\<lambda>d. d \<le> 60)\<rparr>) 16 []
          (sample_stream Established) = Some (s', [], Ready (Inl (Simple TimedOut))) \<and> st_of s' = Closed"
proof -
  let ?cx = "sample_cx\<lparr>cx_sleep_ready := (\<lambda>d. d \<le> 60)\<rparr>"
  have "cx_sleep_ready ?cx (tcb_timeout (ts_tcb (sample_stream Established)))"
    "cx_send_ok ?cx (length (ts_sent (sample_stream Established)))"
    by (simp_all add: sample_cx_def sample_stream_def change_state_def tcb_new_def)
  from timeout_resets [OF sample_etherparse_ok sample_family_ok _ _ sample_idle(1,2) this]
  show ?thesis by (simp add: sample_state) metis
qed

section \<open>Orderly shutdown\<close>

lemma is_reply_header:
  assumes "is_reply ep s fl tt sq d p"
  obtains h where "np_transport p = Tcp h" "flags (wrapper_from h) = fl AND 31" "ttl p = tt"
    "tcp_sequence_number h = (case sq of Some q \<Rightarrow> q | None \<Rightarrow> get_seq (ts_tcb s))"
    "tcp_acknowledgment_number h = get_ack (ts_tcb s)"
proof -
  from assms obtain h where "np_transport p = Tcp h" "ttl p = tt"
    "tcp_sequence_number h = (case sq of Some q \<Rightarrow> q | None \<Rightarrow> get_seq (ts_tcb s))"
    "tcp_acknowledgment_number h = get_ack (ts_tcb s)"
    by (auto simp: is_reply_def)
  with that is_reply_flags [OF assms] show thesis by blast
qed

text \<open>The first pass sends the FIN (it goes out with the second pass).\<close>

lemma shutdown_first_pass:
  assumes "etherparse_ok ep" "family_ok s" "st_of s = Established" "tcb_last_ack (ts_tcb s) = tcb_seq (ts_tcb s)"
    "tcb_retransmission (ts_tcb s) = None" "ts_packet_to_send s = None" "ts_shutdown s = ShutdownPending w"
    "tcb_unordered_packets (ts_tcb s) = []" "\<not> cx_sleep_ready cx (tcb_timeout (ts_tcb s))"
  obtains f where "is_reply ep (idle cx s) (FIN OR ACK) (TTL b) None [] f"
    "before_recv b ep cx cap s = Some (Continue (set_state (FinWait1 False)
       (upd_tcb add_seq_one ((idle cx s)\<lparr>ts_packet_to_send := Some f\<rparr>))))"
proof -
  have d: "drained s = s" using assms(6) by (simp add: drained_def)
  have fam: "family_ok (idle cx s)" using assms(2) by (simp add: family_ok_def)
  obtain f where f: "tcp_create_rev_packet b ep (idle cx s) (FIN OR ACK) (TTL b) None [] = Some (Inr f)"
      "is_reply ep (idle cx s) (FIN OR ACK) (TTL b) None [] f"
    using tcp_create_rev_packet_ok [OF assms(1) fam] .
  have "before_recv b ep cx cap s = read_fin b ep (idle cx s)"
    using before_recv_open [of s cx b ep cap] assms(3,5,6,8,9) d by simp
  with f(1) assms(3,4,7) have "before_recv b ep cx cap s = Some (Continue (set_state (FinWait1 False)
       (upd_tcb add_seq_one ((idle cx s)\<lparr>ts_packet_to_send := Some f\<rparr>))))"
    by (simp add: read_fin_def shutdown_is_pending_def with_packet_def get_last_ack_def get_seq_def)
  with that f(2) show thesis by blast
qed

text \<open>The acknowledgement of the FIN, and the FIN of the peer.\<close>

lemma recv_fin_acked:
  assumes "st_of s = FinWait1 False" "tcb_last_ack (ts_tcb s) \<le> tcb_seq (ts_tcb s)"
    "np_transport p = Tcp h" "flags (wrapper_from h) = ACK" "tcp_acknowledgment_number h = tcb_seq (ts_tcb s)"
  shows "recv_packet b ep cx p s = Some (Continue (s\<lparr>ts_tcb :=
     change_state (add_ack ((ts_tcb s)\<lparr>tcb_last_ack := tcb_seq (ts_tcb s)\<rparr>) 1) (FinWait2 True)\<rparr>))"
proof -
  note h = ack_only [OF assms(3,4)]
  have "check_pkt_type (ts_tcb s) (wrapper_from h) (np_payload p) \<noteq> Invalid"
    using assms(2,5) h(3) by (intro check_pkt_type_in_window) simp_all
  with assms h show ?thesis
    by (simp add: recv_packet_def recv_fin_wait1_def upd_tcb_opt_def upd_tcb_def get_state_def
        change_last_ack_not_established)
qed

lemma recv_peer_fin:
  assumes "st_of s = FinWait2 True" "tcb_last_ack (ts_tcb s) \<le> tcb_seq (ts_tcb s)"
    "np_transport p = Tcp h" "flags (wrapper_from h) = (FIN OR ACK)"
    "tcp_acknowledgment_number h = tcb_seq (ts_tcb s)"
    "tcp_create_rev_packet b ep s ACK (TTL b) None [] = Some (Inr a)"
  shows "recv_packet b ep cx p s = Some (Continue (set_state (FinWait2 False) (s\<lparr>ts_packet_to_send := Some a\<rparr>)))"
proof -
  have h: "transport_protocol p = ProtoTcp (wrapper_from h)" "flags (wrapper_from h) AND RST = 0"
    "inner (wrapper_from h) = h"
    using assms(3,4) by (simp_all add: transport_protocol_def tcp_flags inner_def wrapper_from_def)
  have "check_pkt_type (ts_tcb s) (wrapper_from h) (np_payload p) \<noteq> Invalid"
    using assms(2,5) h(3) by (intro check_pkt_type_in_window) simp_all
  moreover have "(FIN OR ACK) \<noteq> ACK" by (simp add: tcp_flags)
  ultimately show ?thesis
    using assms(1,4,6) h(1,2) by (simp add: recv_packet_def recv_fin_wait2_def with_packet_def)
qed

lemma sent_simps:
  "ts_packet_to_send s = Some p \<Longrightarrow> ts_sent (drained s) = ts_sent s @ [p]"
  "ts_wakes (drained s) = ts_wakes s" "ts_wakes (idle cx s) = ts_wakes s"
  "ts_wakes (set_state st s) = ts_wakes s" "ts_sent (set_state st s) = ts_sent s"
  "ts_shutdown s = ShutdownPending w \<Longrightarrow> ts_wakes (shutdown_ready s) = ts_wakes s @ [w]"
  by (simp_all add: drained_def idle_def shutdown_ready_def split: option.splits)

lemma before_recv_last:
  assumes "st_of s = FinWait2 False" "tcb_retransmission (ts_tcb s) = None"
    "ts_packet_to_send s \<noteq> None \<longrightarrow> cx_send_ok cx (length (ts_sent s))"
    "tcp_create_rev_packet b ep (drained s) NON DROP_TTL None [] = Some (Inr z)"
  shows "before_recv b ep cx cap s = Some (Return (shutdown_ready (set_state Closed
     ((drained s)\<lparr>ts_packet_to_send := Some z\<rparr>))) [] (Ready (Inl (Simple ConnectionAborted))))"
  using assms by (subst before_recv_start) (simp_all add: then_do_def read_closed_def with_packet_def)

text \<open>
  A stream in \<open>FinWait1\<close>, its FIN not sent yet: it goes out, is acknowledged, and
  the FIN of the peer is answered.
\<close>

lemma fin_exchange:
  assumes "etherparse_ok ep" "family_ok s" "st_of s = FinWait1 False"
    "tcb_last_ack (ts_tcb s) \<le> tcb_seq (ts_tcb s)" "tcb_retransmission (ts_tcb s) = None"
    "ts_packet_to_send s = Some f" "ts_shutdown s = ShutdownPending w"
    "tcb_unordered_packets (ts_tcb s) = []" "\<forall>d. \<not> cx_sleep_ready cx d" "\<forall>n. cx_send_ok cx n"
    "np_transport p1 = Tcp h1" "flags (wrapper_from h1) = ACK" "tcp_acknowledgment_number h1 = tcb_seq (ts_tcb s)"
    "np_transport p2 = Tcp h2" "flags (wrapper_from h2) = (FIN OR ACK)"
    "tcp_acknowledgment_number h2 = tcb_seq (ts_tcb s)"
  obtains s' a ha z where
    "poll_read_loop b ep cx cap [Some p1, Some p2] s = Some (s', [], Ready (Inl (Simple ConnectionAborted)))"
    "ts_sent s' = ts_sent s @ [f, a]" "np_transport a = Tcp ha" "flags (wrapper_from ha) = ACK"
    "tcp_acknowledgment_number ha = get_ack (ts_tcb s) + 1" "st_of s' = Closed"
    "ts_packet_to_send s' = Some z" "ttl z = 0" "ts_wakes s' = ts_wakes s @ [w]" "ts_shutdown s' = ShutdownReady"
proof -
  let ?i1 = "idle cx (drained s)"
  let ?s2 = "?i1\<lparr>ts_tcb := change_state (add_ack ((ts_tcb ?i1)\<lparr>tcb_last_ack := tcb_seq (ts_tcb ?i1)\<rparr>) 1) (FinWait2 True)\<rparr>"
  let ?i2 = "idle cx (drained ?s2)"
  have b1: "before_recv b ep cx cap s = Some (Proceed ?i1)"
    using assms by (intro before_recv_quiet) simp_all
  have r1: "recv_packet b ep cx p1 ?i1 = Some (Continue ?s2)"
    using assms(3,4,11-13) by (intro recv_fin_acked [of ?i1 p1 h1]) simp_all
  have t2: "tcb_seq (ts_tcb ?s2) = tcb_seq (ts_tcb s)" "tcb_last_ack (ts_tcb ?s2) = tcb_seq (ts_tcb s)"
    "get_ack (ts_tcb ?s2) = get_ack (ts_tcb s) + 1" "st_of ?s2 = FinWait2 True"
    "tcb_retransmission (ts_tcb ?s2) = None" "tcb_unordered_packets (ts_tcb ?s2) = []"
    "ts_packet_to_send ?s2 = None" "ts_shutdown ?s2 = ShutdownPending w" "ts_sent ?s2 = ts_sent s @ [f]"
    "ts_wakes ?s2 = ts_wakes s" "family_ok ?s2"
    using assms(2,5-8)
    by (simp_all add: change_state_def add_ack_def get_ack_def get_state_def family_ok_def drained_def idle_def
        reset_timeout_def change_recv_window_def)
  have b2: "before_recv b ep cx cap ?s2 = Some (Proceed ?i2)"
    using t2 assms(9,10) by (intro before_recv_quiet) simp_all
  have d2: "drained ?s2 = ?s2" using t2(7) by (simp add: drained_def)
  have fam2: "family_ok ?i2" using t2(11) by (simp add: family_ok_def)
  obtain a where a: "tcp_create_rev_packet b ep ?i2 ACK (TTL b) None [] = Some (Inr a)" "is_reply ep ?i2 ACK (TTL b) None [] a"
    using tcp_create_rev_packet_ok [OF assms(1) fam2] .
  let ?s3 = "set_state (FinWait2 False) (?i2\<lparr>ts_packet_to_send := Some a\<rparr>)"
  have r2: "recv_packet b ep cx p2 ?i2 = Some (Continue ?s3)"
    using t2 assms(14-16) a(1) by (intro recv_peer_fin [of ?i2 p2 h2]) simp_all
  have fam3: "family_ok (drained ?s3)" using fam2 by (simp add: family_ok_def)
  obtain z where z: "tcp_create_rev_packet b ep (drained ?s3) NON DROP_TTL None [] = Some (Inr z)"
      "is_reply ep (drained ?s3) NON DROP_TTL None [] z"
    using tcp_create_rev_packet_ok [OF assms(1) fam3] .
  let ?s' = "shutdown_ready (set_state Closed ((drained ?s3)\<lparr>ts_packet_to_send := Some z\<rparr>))"
  have b3: "before_recv b ep cx cap ?s3 = Some (Return ?s' [] (Ready (Inl (Simple ConnectionAborted))))"
    using t2(5) assms(10) z(1) by (intro before_recv_last) simp_all
  have "poll_read_loop b ep cx cap [Some p1, Some p2] s = Some (?s', [], Ready (Inl (Simple ConnectionAborted)))"
    using loop_return [OF b3] loop_packet [OF b2 r2] loop_packet [OF b1 r1] by (simp only:)
  moreover obtain ha where "np_transport a = Tcp ha" "flags (wrapper_from ha) = ACK AND 31"
      "tcp_acknowledgment_number ha = get_ack (ts_tcb ?i2)"
    using is_reply_header [OF a(2)] by metis
  moreover have "get_ack (ts_tcb ?i2) = get_ack (ts_tcb s) + 1" using t2(3) by (simp add: get_ack_def)
  moreover have "ttl z = 0" using is_reply_header [OF z(2)] DROP_TTL_def by metis
  moreover have "st_of ?s' = Closed" "ts_packet_to_send ?s' = Some z" "ts_shutdown ?s' = ShutdownReady"
    by simp_all
  moreover have "ts_sent ?s' = ts_sent s @ [f, a]" "ts_wakes ?s' = ts_wakes s @ [w]"
    using t2(8-10) d2 by (simp_all add: sent_simps)
  moreover have "ACK AND 31 = ACK" by (simp add: tcp_flags)
  ultimately show thesis using that by metis
qed

text \<open>
  C22: an orderly shutdown, in one call. On an established stream with everything
  acknowledged and nothing waiting, \<open>poll_shutdown\<close> sends a FIN/ACK with the next
  sequence number; when the peer acknowledges it and sends its own FIN, that is
  acknowledged (one past the last byte delivered), the stream is closed, the packet
  that ends the session is left for the next call, and the task waiting for the
  shutdown is woken. The call itself reports \<open>ConnectionAborted\<close>; from then on
  \<open>poll_shutdown\<close> succeeds.
\<close>

theorem orderly_shutdown:
  assumes "etherparse_ok ep" "family_ok s" "st_of s = Established" "tcb_last_ack (ts_tcb s) = tcb_seq (ts_tcb s)"
    "unat (get_seq (ts_tcb s)) + 1 < 2 ^ 32"
    "tcb_retransmission (ts_tcb s) = None" "ts_packet_to_send s = None" "ts_shutdown s = ShutdownNone"
    "tcb_unordered_packets (ts_tcb s) = []" "\<forall>d. \<not> cx_sleep_ready cx d" "\<forall>n. cx_send_ok cx n"
    "np_transport p1 = Tcp h1" "flags (wrapper_from h1) = ACK" "tcp_acknowledgment_number h1 = get_seq (ts_tcb s) + 1"
    "np_transport p2 = Tcp h2" "flags (wrapper_from h2) = (FIN OR ACK)"
    "tcp_acknowledgment_number h2 = get_seq (ts_tcb s) + 1"
  shows "\<exists>s' f hf a ha z. poll_shutdown b ep cx [Some p1, Some p2] s =
       Some (s', Ready (Inl (Simple ConnectionAborted))) \<and>
     ts_sent s' = ts_sent s @ [f, a] \<and>
     np_transport f = Tcp hf \<and> flags (wrapper_from hf) = (FIN OR ACK) \<and>
     tcp_sequence_number hf = get_seq (ts_tcb s) \<and>
     np_transport a = Tcp ha \<and> flags (wrapper_from ha) = ACK \<and>
     tcp_acknowledgment_number ha = get_ack (ts_tcb s) + 1 \<and>
     st_of s' = Closed \<and> ts_packet_to_send s' = Some z \<and> ttl z = 0 \<and>
     ts_wakes s' = ts_wakes s @ [cx_waker cx] \<and>
     poll_shutdown b ep cx rs s' = Some (s', Ready (Inr ()))"
proof -
  let ?q = "tcb_seq (ts_tcb s)"
  let ?s0 = "shutdown_pending (cx_waker cx) s"
  have s0: "ts_tcb ?s0 = ts_tcb s" "family_ok ?s0" "ts_shutdown ?s0 = ShutdownPending (cx_waker cx)"
    "ts_packet_to_send ?s0 = None" "ts_sent ?s0 = ts_sent s" "ts_wakes ?s0 = ts_wakes s"
    using assms(2,7) by (simp_all add: shutdown_pending_def family_ok_def)
  obtain f where f: "is_reply ep (idle cx ?s0) (FIN OR ACK) (TTL b) None [] f"
      "before_recv b ep cx 1 ?s0 = Some (Continue (set_state (FinWait1 False)
         (upd_tcb add_seq_one ((idle cx ?s0)\<lparr>ts_packet_to_send := Some f\<rparr>))))"
    using shutdown_first_pass [OF assms(1) s0(2), of "cx_waker cx" cx b 1] assms(3,4,6,9,10) s0 by metis
  let ?s1 = "set_state (FinWait1 False) (upd_tcb add_seq_one ((idle cx ?s0)\<lparr>ts_packet_to_send := Some f\<rparr>))"
  have t1: "tcb_seq (ts_tcb ?s1) = ?q + 1" "tcb_last_ack (ts_tcb ?s1) \<le> ?q + 1" "get_ack (ts_tcb ?s1) = get_ack (ts_tcb s)"
    "tcb_retransmission (ts_tcb ?s1) = None" "tcb_unordered_packets (ts_tcb ?s1) = []" "family_ok ?s1"
    using assms(4-6,9) s0(1,2)
    by (simp_all add: add_seq_one_def change_state_def get_ack_def get_seq_def family_ok_def word_le_nat_alt unat_word_ariths)
  have g: "st_of ?s1 = FinWait1 False" "tcb_last_ack (ts_tcb ?s1) \<le> tcb_seq (ts_tcb ?s1)"
    "tcb_retransmission (ts_tcb ?s1) = None" "ts_packet_to_send ?s1 = Some f"
    "ts_shutdown ?s1 = ShutdownPending (cx_waker cx)" "tcb_unordered_packets (ts_tcb ?s1) = []"
    "tcp_acknowledgment_number h1 = tcb_seq (ts_tcb ?s1)" "tcp_acknowledgment_number h2 = tcb_seq (ts_tcb ?s1)"
    using t1 s0(3) assms(14,17) by (simp_all add: get_seq_def)
  obtain s' a ha z where s':
    "poll_read_loop b ep cx 1 [Some p1, Some p2] ?s1 = Some (s', [], Ready (Inl (Simple ConnectionAborted)))"
    "ts_sent s' = ts_sent ?s1 @ [f, a]" "np_transport a = Tcp ha" "flags (wrapper_from ha) = ACK"
    "tcp_acknowledgment_number ha = get_ack (ts_tcb ?s1) + 1" "st_of s' = Closed"
    "ts_packet_to_send s' = Some z" "ttl z = 0" "ts_wakes s' = ts_wakes ?s1 @ [cx_waker cx]" "ts_shutdown s' = ShutdownReady"
    by (rule fin_exchange [OF assms(1) t1(6) g(1-6) assms(10-13) g(7) assms(15,16) g(8)])
  have "poll_shutdown b ep cx [Some p1, Some p2] s = Some (s', Ready (Inl (Simple ConnectionAborted)))"
    using assms(8) s'(1) loop_continue [OF f(2)] by (simp add: poll_shutdown_def poll_read_def)
  moreover obtain hf where "np_transport f = Tcp hf" "flags (wrapper_from hf) = (FIN OR ACK) AND 31"
      "tcp_sequence_number hf = get_seq (ts_tcb (idle cx ?s0))"
    using is_reply_header [OF f(1)] by (metis option.case(1))
  moreover have "poll_shutdown b ep cx rs s' = Some (s', Ready (Inr ()))" using s'(10) by (simp add: poll_shutdown_def)
  moreover have "ts_wakes ?s1 = ts_wakes s" "ts_sent ?s1 = ts_sent s" "get_seq (ts_tcb (idle cx ?s0)) = get_seq (ts_tcb s)"
    using s0 by (simp_all add: sent_simps get_seq_def)
  ultimately show ?thesis using s' t1(3) by (auto simp: tcp_flags)
qed

theorem orderly_shutdown_witness:
  "\<exists>s' f a. poll_shutdown sample_build sample_ep sample_cx
       [Some (sample_segment 8 101 ACK 0 []), Some (sample_segment 8 101 (FIN OR ACK) 0 [])] (sample_stream Established) =
       Some (s', Ready (Inl (Simple ConnectionAborted))) \<and>
     ts_sent s' = [f, a] \<and> st_of s' = Closed"
proof -
  have "get_seq (ts_tcb (sample_stream Established)) = 100" "tcb_last_ack (ts_tcb (sample_stream Established)) = 100"
    "tcb_seq (ts_tcb (sample_stream Established)) = 100"
    by (simp_all add: sample_stream_def change_state_def tcb_new_def get_seq_def sample_build_def)
  note q = this
  have cx: "\<forall>d. \<not> cx_sleep_ready sample_cx d" "\<forall>n. cx_send_ok sample_cx n" by (simp_all add: sample_cx_def)
  have p: "np_transport (sample_segment 8 101 fl 0 []) = Tcp (sample_tcp 8 101 fl 0)"
    "tcp_acknowledgment_number (sample_tcp 8 101 fl 0) = 101" for fl
    by (simp_all add: sample_segment_def sample_tcp_def)
  have fl: "flags (wrapper_from (sample_tcp 8 101 ACK 0)) = ACK"
    "flags (wrapper_from (sample_tcp 8 101 (FIN OR ACK) 0)) = (FIN OR ACK)"
    by (simp_all add: sample_tcp_def flags_def inner_def Let_def wrapper_from_def tcp_flags)
  have n: "unat (get_seq (ts_tcb (sample_stream Established))) + 1 < 2 ^ 32"
    "tcp_acknowledgment_number (sample_tcp 8 101 fl 0) = get_seq (ts_tcb (sample_stream Established)) + 1" for fl
    using q p(2) by simp_all
  have "tcb_last_ack (ts_tcb (sample_stream Established)) = tcb_seq (ts_tcb (sample_stream Established))"
    using q by simp
  from orderly_shutdown [OF sample_etherparse_ok sample_family_ok sample_state this n(1) sample_idle(1-4) cx
      p(1) fl(1) n(2) p(1) fl(2) n(2), of sample_build]
  show ?thesis unfolding sample_idle(5) append_Nil by metis
qed

section \<open>Close by the peer\<close>

text \<open>The FIN of the peer, the FIN that answers it, and the acknowledgement of that one.\<close>

lemma recv_fin_established:
  assumes "st_of s = Established" "tcb_last_ack (ts_tcb s) \<le> tcp_acknowledgment_number h"
    "tcp_acknowledgment_number h \<le> tcb_seq (ts_tcb s)"
    "np_transport p = Tcp h" "flags (wrapper_from h) = (FIN OR ACK)"
    "tcp_create_rev_packet b ep (upd_tcb (\<lambda>t. add_ack t 1) s) ACK (TTL b) None [] = Some (Inr a)"
  shows "recv_packet b ep cx p s = Some (Continue (set_state (FinWait1 True)
     ((upd_tcb (\<lambda>t. add_ack t 1) s)\<lparr>ts_packet_to_send := Some a\<rparr>)))"
proof -
  have h: "transport_protocol p = ProtoTcp (wrapper_from h)" "flags (wrapper_from h) AND RST = 0"
    "inner (wrapper_from h) = h"
    using assms(4,5) by (simp_all add: transport_protocol_def tcp_flags inner_def wrapper_from_def)
  have "check_pkt_type (ts_tcb s) (wrapper_from h) (np_payload p) \<noteq> Invalid"
    using assms(2,3) h(3) by (intro check_pkt_type_in_window) simp_all
  moreover have "(FIN OR ACK) \<noteq> ACK" by (simp add: tcp_flags)
  ultimately show ?thesis
    using assms(1,5,6) h(1,2) by (simp add: recv_packet_def recv_established_def with_packet_def)
qed

lemma recv_last_ack:
  assumes "st_of s = FinWait2 True" "tcb_last_ack (ts_tcb s) \<le> tcb_seq (ts_tcb s)"
    "np_transport p = Tcp h" "flags (wrapper_from h) = ACK" "tcp_acknowledgment_number h = tcb_seq (ts_tcb s)"
  shows "recv_packet b ep cx p s = Some (Continue (set_state (FinWait2 False) s))"
proof -
  note h = ack_only [OF assms(3,4)]
  have "check_pkt_type (ts_tcb s) (wrapper_from h) (np_payload p) \<noteq> Invalid"
    using assms(2,5) h(3) by (intro check_pkt_type_in_window) simp_all
  with assms h show ?thesis by (simp add: recv_packet_def recv_fin_wait2_def)
qed

lemma before_recv_answer_fin:
  assumes "etherparse_ok ep" "family_ok s" "st_of s = FinWait1 True" "tcb_retransmission (ts_tcb s) = None"
    "ts_packet_to_send s \<noteq> None \<longrightarrow> cx_send_ok cx (length (ts_sent s))"
    "tcb_unordered_packets (ts_tcb s) = []" "\<not> cx_sleep_ready cx (tcb_timeout (ts_tcb s))"
  obtains f where "is_reply ep (idle cx (drained s)) (FIN OR ACK) (TTL b) None [] f"
    "before_recv b ep cx cap s = Some (Continue (set_state (FinWait2 True)
       (upd_tcb (\<lambda>t. add_ack (add_seq_one t) 1) ((idle cx (drained s))\<lparr>ts_packet_to_send := Some f\<rparr>))))"
proof -
  let ?i = "idle cx (drained s)"
  have fam: "family_ok ?i" using assms(2) by (simp add: family_ok_def)
  obtain f where f: "tcp_create_rev_packet b ep ?i (FIN OR ACK) (TTL b) None [] = Some (Inr f)"
      "is_reply ep ?i (FIN OR ACK) (TTL b) None [] f"
    using tcp_create_rev_packet_ok [OF assms(1) fam] .
  have "before_recv b ep cx cap s = read_fin b ep ?i" using assms(3-7) by (intro before_recv_open) simp_all
  with f(1) assms(3) have "before_recv b ep cx cap s = Some (Continue (set_state (FinWait2 True)
       (upd_tcb (\<lambda>t. add_ack (add_seq_one t) 1) (?i\<lparr>ts_packet_to_send := Some f\<rparr>))))"
    by (simp add: read_fin_def with_packet_def upd_tcb_def)
  with that f(2) show thesis by blast
qed

text \<open>The first half: the FIN of the peer is acknowledged and answered.\<close>

lemma peer_fin_answered:
  assumes "etherparse_ok ep" "family_ok s" "st_of s = Established"
    "tcb_retransmission (ts_tcb s) = None" "ts_packet_to_send s = None" "ts_shutdown s = ShutdownNone"
    "tcb_unordered_packets (ts_tcb s) = []" "\<forall>d. \<not> cx_sleep_ready cx d" "\<forall>n. cx_send_ok cx n"
    "np_transport p = Tcp h" "flags (wrapper_from h) = (FIN OR ACK)"
    "tcb_last_ack (ts_tcb s) \<le> tcp_acknowledgment_number h" "tcp_acknowledgment_number h \<le> tcb_seq (ts_tcb s)"
  obtains s' a ha f hf where "\<And>rs. poll_read_loop b ep cx cap (Some p # rs) s = poll_read_loop b ep cx cap rs s'"
    "np_transport a = Tcp ha" "flags (wrapper_from ha) = ACK" "tcp_sequence_number ha = tcb_seq (ts_tcb s)"
    "tcp_acknowledgment_number ha = tcb_ack (ts_tcb s) + 1"
    "np_transport f = Tcp hf" "flags (wrapper_from hf) = (FIN OR ACK)" "tcp_sequence_number hf = tcb_seq (ts_tcb s)"
    "tcp_acknowledgment_number hf = tcb_ack (ts_tcb s) + 1"
    "ts_sent s' = ts_sent s @ [a]" "ts_packet_to_send s' = Some f" "st_of s' = FinWait2 True"
    "tcb_seq (ts_tcb s') = tcb_seq (ts_tcb s) + 1" "tcb_last_ack (ts_tcb s') = tcb_last_ack (ts_tcb s)"
    "tcb_retransmission (ts_tcb s') = None" "tcb_unordered_packets (ts_tcb s') = []"
    "ts_src_addr s' = ts_src_addr s" "ts_dst_addr s' = ts_dst_addr s"
proof -
  let ?i1 = "idle cx s" and ?add = "upd_tcb (\<lambda>t. add_ack t 1)"
  have fam: "family_ok (?add ?i1)" using assms(2) by (simp add: family_ok_def)
  obtain a where a: "tcp_create_rev_packet b ep (?add ?i1) ACK (TTL b) None [] = Some (Inr a)"
      "is_reply ep (?add ?i1) ACK (TTL b) None [] a"
    using tcp_create_rev_packet_ok [OF assms(1) fam] .
  let ?s2 = "set_state (FinWait1 True) ((?add ?i1)\<lparr>ts_packet_to_send := Some a\<rparr>)"
  have b1: "before_recv b ep cx cap s = Some (Proceed ?i1)"
    using before_recv_quiet [of s cx b ep cap] assms(3-8) by (simp add: drained_def)
  have r1: "recv_packet b ep cx p ?i1 = Some (Continue ?s2)"
    using assms(3,10-13) a(1) by (intro recv_fin_established) simp_all
  have t2: "tcb_seq (ts_tcb ?s2) = tcb_seq (ts_tcb s)" "tcb_last_ack (ts_tcb ?s2) = tcb_last_ack (ts_tcb s)"
    "tcb_ack (ts_tcb ?s2) = tcb_ack (ts_tcb s) + 1" "tcb_retransmission (ts_tcb ?s2) = None"
    "tcb_unordered_packets (ts_tcb ?s2) = []" "family_ok ?s2" "ts_sent ?s2 = ts_sent s" "st_of ?s2 = FinWait1 True"
    using fam assms(4,7) by (simp_all add: add_ack_def change_state_def family_ok_def get_state_def)
  have c2: "ts_packet_to_send ?s2 \<noteq> None \<longrightarrow> cx_send_ok cx (length (ts_sent ?s2))" "\<not> cx_sleep_ready cx (tcb_timeout (ts_tcb ?s2))"
    using assms(8,9) by blast+
  obtain f where f: "is_reply ep (idle cx (drained ?s2)) (FIN OR ACK) (TTL b) None [] f"
    "before_recv b ep cx cap ?s2 = Some (Continue (set_state (FinWait2 True)
       (upd_tcb (\<lambda>t. add_ack (add_seq_one t) 1) ((idle cx (drained ?s2))\<lparr>ts_packet_to_send := Some f\<rparr>))))"
    by (rule before_recv_answer_fin [OF assms(1) t2(6,8,4) c2(1) t2(5) c2(2)])
  let ?s3 = "set_state (FinWait2 True) (upd_tcb (\<lambda>t. add_ack (add_seq_one t) 1) ((idle cx (drained ?s2))\<lparr>ts_packet_to_send := Some f\<rparr>))"
  obtain ha where ha: "np_transport a = Tcp ha" "flags (wrapper_from ha) = ACK AND 31" "tcp_sequence_number ha = get_seq (ts_tcb (?add ?i1))"
      "tcp_acknowledgment_number ha = get_ack (ts_tcb (?add ?i1))"
    using is_reply_header [OF a(2)] by (metis option.case(1))
  obtain hf where hf: "np_transport f = Tcp hf" "flags (wrapper_from hf) = (FIN OR ACK) AND 31"
      "tcp_sequence_number hf = get_seq (ts_tcb (idle cx (drained ?s2)))"
      "tcp_acknowledgment_number hf = get_ack (ts_tcb (idle cx (drained ?s2)))"
    using is_reply_header [OF f(1)] by (metis option.case(1))
  have run: "poll_read_loop b ep cx cap (Some p # rs) s = poll_read_loop b ep cx cap rs ?s3" for rs
    using loop_continue [OF f(2)] loop_packet [OF b1 r1] by (simp only:)
  show thesis
    by (rule that [OF run ha(1) _ _ _ hf(1)])
      (use t2 ha(2-4) hf(2-4) in \<open>simp_all add: add_ack_def add_seq_one_def change_state_def get_state_def sent_simps
        tcb_getters tcp_flags\<close>)
qed

text \<open>The second half: the acknowledgement of the stream's own FIN.\<close>

lemma last_ack_closes:
  assumes "etherparse_ok ep" "family_ok s" "st_of s = FinWait2 True" "tcb_last_ack (ts_tcb s) \<le> tcb_seq (ts_tcb s)"
    "tcb_retransmission (ts_tcb s) = None" "tcb_unordered_packets (ts_tcb s) = []" "ts_packet_to_send s = Some f"
    "\<forall>d. \<not> cx_sleep_ready cx d" "\<forall>n. cx_send_ok cx n"
    "np_transport p = Tcp h" "flags (wrapper_from h) = ACK" "tcp_acknowledgment_number h = tcb_seq (ts_tcb s)"
  obtains s' z where "poll_read_loop b ep cx cap [Some p] s = Some (s', [], Ready (Inl (Simple ConnectionAborted)))"
    "ts_sent s' = ts_sent s @ [f]" "st_of s' = Closed" "tcb_retransmission (ts_tcb s') = None" "ts_packet_to_send s' = Some z"
    "ttl z = 0" "reverse_network_tuple z = \<lparr>nt_src = ts_src_addr s, nt_dst = ts_dst_addr s, nt_tcp = True\<rparr>"
proof -
  let ?i = "idle cx (drained s)"
  let ?s4 = "set_state (FinWait2 False) ?i"
  have b1: "before_recv b ep cx cap s = Some (Proceed ?i)"
    using assms(3,5-9) by (intro before_recv_quiet) simp_all
  have r1: "recv_packet b ep cx p ?i = Some (Continue ?s4)"
    using assms(3,4,10-12) by (intro recv_last_ack) simp_all
  have d4: "drained ?s4 = ?s4" by (rule drained_none) simp
  have fam4: "family_ok ?s4" using assms(2) by (simp add: family_ok_def)
  obtain z where z: "tcp_create_rev_packet b ep ?s4 NON DROP_TTL None [] = Some (Inr z)" "is_reply ep ?s4 NON DROP_TTL None [] z"
    using tcp_create_rev_packet_ok [OF assms(1) fam4] .
  let ?s5 = "shutdown_ready (set_state Closed (?s4\<lparr>ts_packet_to_send := Some z\<rparr>))"
  have b2: "before_recv b ep cx cap ?s4 = Some (Return ?s5 [] (Ready (Inl (Simple ConnectionAborted))))"
    using before_recv_last [of ?s4 cx b ep z cap] assms(5) z(1) d4 by simp
  have run: "poll_read_loop b ep cx cap [Some p] s = Some (?s5, [], Ready (Inl (Simple ConnectionAborted)))"
    using loop_return [OF b2] loop_packet [OF b1 r1] by (simp only:)
  have tuple: "ttl z = 0" "reverse_network_tuple z = \<lparr>nt_src = ts_src_addr s, nt_dst = ts_dst_addr s, nt_tcp = True\<rparr>"
    using z(2) by (auto simp: is_reply_def DROP_TTL_def reverse_network_tuple_def is_tcp_def)
  show thesis
    by (rule that [OF run _ _ _ _ tuple]) (use assms(5,7) in \<open>simp_all add: sent_simps change_state_def get_state_def\<close>)
qed

text \<open>
  C23: the peer closes first. When a FIN/ACK that acknowledges a number of the send window
  reaches a quiet established stream, and then an acknowledgement of the stream's own FIN,
  one \<open>poll_read\<close> sends two packets: an ACK and a FIN/ACK, both with the next sequence number
  and acknowledging one past the bytes delivered. The stream is closed, and the call reports
  \<open>ConnectionAborted\<close>; the next \<open>poll_read\<close> reports the end of the stream and
  sends the packet with TTL 0 that makes the stack forget the session.
\<close>

theorem peer_close:
  assumes "etherparse_ok ep" "family_ok s" "st_of s = Established" "unat (get_seq (ts_tcb s)) + 1 < 2 ^ 32"
    "tcb_retransmission (ts_tcb s) = None" "ts_packet_to_send s = None" "ts_shutdown s = ShutdownNone"
    "tcb_unordered_packets (ts_tcb s) = []" "\<forall>d. \<not> cx_sleep_ready cx d" "\<forall>n. cx_send_ok cx n"
    "np_transport p1 = Tcp h1" "flags (wrapper_from h1) = (FIN OR ACK)"
    "tcb_last_ack (ts_tcb s) \<le> tcp_acknowledgment_number h1" "tcp_acknowledgment_number h1 \<le> tcb_seq (ts_tcb s)"
    "np_transport p2 = Tcp h2" "flags (wrapper_from h2) = ACK" "tcp_acknowledgment_number h2 = get_seq (ts_tcb s) + 1"
  shows "\<exists>s1 s2 a ha f hf z. poll_read b ep cx cap [Some p1, Some p2] s = Some (s1, [], Ready (Inl (Simple ConnectionAborted))) \<and>
     ts_sent s1 = ts_sent s @ [a, f] \<and> st_of s1 = Closed \<and>
     np_transport a = Tcp ha \<and> flags (wrapper_from ha) = ACK \<and> tcp_sequence_number ha = get_seq (ts_tcb s) \<and>
     tcp_acknowledgment_number ha = get_ack (ts_tcb s) + 1 \<and>
     np_transport f = Tcp hf \<and> flags (wrapper_from hf) = (FIN OR ACK) \<and> tcp_sequence_number hf = get_seq (ts_tcb s) \<and>
     tcp_acknowledgment_number hf = get_ack (ts_tcb s) + 1 \<and>
     poll_read b ep cx cap' rs s1 = Some (s2, [], Ready (Inr ())) \<and> ts_sent s2 = ts_sent s1 @ [z] \<and> ttl z = 0 \<and>
     reverse_network_tuple z = \<lparr>nt_src = ts_src_addr s, nt_dst = ts_dst_addr s, nt_tcp = True\<rparr>"
proof -
  obtain s3 a ha f hf where s3: "\<And>rs. poll_read_loop b ep cx cap (Some p1 # rs) s = poll_read_loop b ep cx cap rs s3"
    and a: "np_transport a = Tcp ha" "flags (wrapper_from ha) = ACK" "tcp_sequence_number ha = tcb_seq (ts_tcb s)"
      "tcp_acknowledgment_number ha = tcb_ack (ts_tcb s) + 1"
    and f: "np_transport f = Tcp hf" "flags (wrapper_from hf) = (FIN OR ACK)" "tcp_sequence_number hf = tcb_seq (ts_tcb s)"
      "tcp_acknowledgment_number hf = tcb_ack (ts_tcb s) + 1"
    and t3: "ts_sent s3 = ts_sent s @ [a]" "ts_packet_to_send s3 = Some f" "st_of s3 = FinWait2 True"
      "tcb_seq (ts_tcb s3) = tcb_seq (ts_tcb s) + 1" "tcb_last_ack (ts_tcb s3) = tcb_last_ack (ts_tcb s)"
      "tcb_retransmission (ts_tcb s3) = None" "tcb_unordered_packets (ts_tcb s3) = []"
      "ts_src_addr s3 = ts_src_addr s" "ts_dst_addr s3 = ts_dst_addr s"
    by (rule peer_fin_answered [OF assms(1-3,5-14), where b = b and cap = cap]) (rule that)
  have le: "tcb_last_ack (ts_tcb s3) \<le> tcb_seq (ts_tcb s3)"
    using assms(4,13,14) t3(4,5) by (simp add: word_le_nat_alt unat_word_ariths get_seq_def)
  have fam: "family_ok s3" using assms(2) t3(8,9) by (simp add: family_ok_def)
  have "tcp_acknowledgment_number h2 = tcb_seq (ts_tcb s3)" using assms(17) t3(4) by (simp add: get_seq_def)
  from last_ack_closes [OF assms(1) fam t3(3) le t3(6,7,2) assms(9,10,15,16) this]
  obtain s1 z where s1: "poll_read_loop b ep cx cap [Some p2] s3 = Some (s1, [], Ready (Inl (Simple ConnectionAborted)))"
    "ts_sent s1 = ts_sent s3 @ [f]" "st_of s1 = Closed" "tcb_retransmission (ts_tcb s1) = None" "ts_packet_to_send s1 = Some z"
    "ttl z = 0" "reverse_network_tuple z = \<lparr>nt_src = ts_src_addr s3, nt_dst = ts_dst_addr s3, nt_tcp = True\<rparr>"
    by metis
  have "poll_read b ep cx cap [Some p1, Some p2] s = Some (s1, [], Ready (Inl (Simple ConnectionAborted)))"
    using s3 s1(1) by (simp add: poll_read_def)
  moreover have "poll_read b ep cx cap' rs s1 = Some (shutdown_ready (drained s1), [], Ready (Inr ()))"
    using s1(3,4) assms(10) by (intro closed_read) simp_all
  moreover have "ts_sent (shutdown_ready (drained s1)) = ts_sent s1 @ [z]" using s1(5) by (simp add: sent_simps)
  ultimately show ?thesis using s1 t3 a f unfolding get_seq_def get_ack_def by auto
qed

theorem peer_close_witness:
  "\<exists>s1 s2 a f z. poll_read sample_build sample_ep sample_cx 16
       [Some (sample_segment 8 100 (FIN OR ACK) 0 []), Some (sample_segment 9 101 ACK 0 [])] (sample_stream Established) =
       Some (s1, [], Ready (Inl (Simple ConnectionAborted))) \<and> ts_sent s1 = [a, f] \<and> st_of s1 = Closed \<and>
     poll_read sample_build sample_ep sample_cx 16 [] s1 = Some (s2, [], Ready (Inr ())) \<and> ts_sent s2 = [a, f, z] \<and> ttl z = 0"
proof -
  let ?s = "sample_stream Established"
  have q: "get_seq (ts_tcb ?s) = 100" "tcb_last_ack (ts_tcb ?s) = 100" "tcb_seq (ts_tcb ?s) = 100"
    by (simp_all add: sample_stream_def change_state_def tcb_new_def get_seq_def sample_build_def)
  have cx: "\<forall>d. \<not> cx_sleep_ready sample_cx d" "\<forall>n. cx_send_ok sample_cx n" by (simp_all add: sample_cx_def)
  have p: "np_transport (sample_segment n m fl 0 []) = Tcp (sample_tcp n m fl 0)"
    "tcp_acknowledgment_number (sample_tcp n m fl 0) = m" for n m fl
    by (simp_all add: sample_segment_def sample_tcp_def)
  have fl: "flags (wrapper_from (sample_tcp 8 100 (FIN OR ACK) 0)) = (FIN OR ACK)"
    "flags (wrapper_from (sample_tcp 9 101 ACK 0)) = ACK"
    by (simp_all add: sample_tcp_def flags_def inner_def Let_def wrapper_from_def tcp_flags)
  have n: "unat (get_seq (ts_tcb ?s)) + 1 < 2 ^ 32" "tcb_last_ack (ts_tcb ?s) \<le> tcp_acknowledgment_number (sample_tcp 8 100 (FIN OR ACK) 0)"
    "tcp_acknowledgment_number (sample_tcp 8 100 (FIN OR ACK) 0) \<le> tcb_seq (ts_tcb ?s)"
    "tcp_acknowledgment_number (sample_tcp 9 101 ACK 0) = get_seq (ts_tcb ?s) + 1"
    using q p(2) by simp_all
  from peer_close [OF sample_etherparse_ok sample_family_ok sample_state n(1) sample_idle(1-4) cx
      p(1) fl(1) n(2,3) p(1) fl(2) n(4), where b = sample_build and cap = 16 and cap' = 16 and rs = "[]"]
  show ?thesis unfolding sample_idle(5) append_Nil by (metis append_Cons append_Nil)
qed

end
