(* ===== verification/Wintun.thy ===== *)
theory Wintun
  imports Runtime
begin

text \<open>
  The module \<open>wintun\<close> of \<open>src/examples/tun_wintun.rs\<close>: the TUN device of the Windows
  example, over the crate wintun. A session of that crate gives buffers to send packets in
  (the argument \<open>alloc\<close>) and received packets (the argument of a turn of the reader thread).
\<close>

section \<open>State and operations\<close>

text \<open>
  \<open>WinTunDevice\<close>: the packets given to \<open>send_packet\<close> of the session, the packets in the
  unbounded channel between the reader thread and the device, and whether that thread still runs;
  when it ends, its sender is dropped and the channel is closed.
\<close>

record wintun_device =
  wd_sent :: "bytes list"
  wd_receiver :: "bytes list"
  wd_task :: bool

text \<open>\<open>new\<close> unwraps the results of five calls into wintun: load, create, address, netmask and session.\<close>

definition wintun_new :: "bool \<Rightarrow> bool \<Rightarrow> bool \<Rightarrow> bool \<Rightarrow> bool \<Rightarrow> wintun_device option" where
  "wintun_new loaded created address netmask started =
     (if loaded \<and> created \<and> address \<and> netmask \<and> started
      then Some \<lparr>wd_sent = [], wd_receiver = [], wd_task = True\<rparr> else None)"

text \<open>
  One turn of the reader thread, which ends when it panics: on an error of
  \<open>receive_blocking\<close> (the device holds the receiver, so the send succeeds).
\<close>

definition wintun_reader :: "io_error + bytes \<Rightarrow> wintun_device \<Rightarrow> wintun_device" where
  "wintun_reader r d =
     (if wd_task d then
        (case r of
           Inl _ \<Rightarrow> d\<lparr>wd_task := False\<rparr>
         | Inr packet \<Rightarrow> d\<lparr>wd_receiver := wd_receiver d @ [packet]\<rparr>)
      else d)"

definition wintun_poll_recv :: "wintun_device \<Rightarrow> wintun_device \<times> bytes option poll" where
  "wintun_poll_recv d =
     (case wd_receiver d of
        packet # rest \<Rightarrow> (d\<lparr>wd_receiver := rest\<rparr>, Ready (Some packet))
      | [] \<Rightarrow> (d, if wd_task d then Pending else Ready None))"

definition wintun_poll_read :: "nat \<Rightarrow> wintun_device \<Rightarrow> (wintun_device \<times> bytes \<times> (io_error + unit) poll) option" where
  "wintun_poll_read cap d =
     (case wintun_poll_recv d of
        (d, Pending) \<Rightarrow> Some (d, [], Pending)
      | (d, Ready (Some packet)) \<Rightarrow>
          (case put_slice cap packet of None \<Rightarrow> None | Some out \<Rightarrow> Some (d, out, Ready (Inr ())))
      | (d, Ready None) \<Rightarrow> Some (d, [], Ready (Inr ())))"

text \<open>
  \<open>alloc n\<close> is the length of the buffer that \<open>allocate_send_packet n\<close> gives; \<open>copy_from_slice\<close>
  panics when the lengths differ.
\<close>

definition wintun_poll_write ::
  "(u16 \<Rightarrow> io_error + nat) \<Rightarrow> bytes \<Rightarrow> wintun_device \<Rightarrow> (wintun_device \<times> (io_error + nat) poll) option" where
  "wintun_poll_write alloc buf d =
     (case alloc (of_nat (length buf)) of
        Inl e \<Rightarrow> Some (d, Ready (Inl e))
      | Inr n \<Rightarrow>
          if n = length buf then Some (d\<lparr>wd_sent := wd_sent d @ [buf]\<rparr>, Ready (Inr (length buf))) else None)"

definition wintun_poll_flush :: "wintun_device \<Rightarrow> wintun_device \<times> (io_error + unit) poll" where
  "wintun_poll_flush d = (d, Ready (Inr ()))"

definition wintun_poll_shutdown :: "wintun_device \<Rightarrow> wintun_device \<times> (io_error + unit) poll" where
  "wintun_poll_shutdown d = (d, Ready (Inr ()))"

section \<open>Runs of the device\<close>

text \<open>Turns of the reader thread, interleaved with reads and writes of the stack's task.\<close>

datatype wintun_event =
    ReaderTurn "io_error + bytes"
  | DeviceReadCall nat
  | DeviceWriteCall bytes

text \<open>The device after the events, and what the successful reads gave.\<close>

fun wintun_run ::
  "(u16 \<Rightarrow> io_error + nat) \<Rightarrow> wintun_event list \<Rightarrow> wintun_device \<Rightarrow> (wintun_device \<times> bytes list) option" where
  "wintun_run alloc [] d = Some (d, [])"
| "wintun_run alloc (ReaderTurn r # es) d = wintun_run alloc es (wintun_reader r d)"
| "wintun_run alloc (DeviceReadCall cap # es) d =
     (case wintun_poll_read cap d of
        None \<Rightarrow> None
      | Some (d, out, r) \<Rightarrow>
          map_option (\<lambda>(d, outs). (d, if r = Ready (Inr ()) then out # outs else outs)) (wintun_run alloc es d))"
| "wintun_run alloc (DeviceWriteCall buf # es) d =
     (case wintun_poll_write alloc buf d of
        None \<Rightarrow> None
      | Some (d, _) \<Rightarrow> wintun_run alloc es d)"

fun reader_packets :: "wintun_event list \<Rightarrow> bytes list" where
  "reader_packets (ReaderTurn (Inr packet) # es) = packet # reader_packets es"
| "reader_packets (_ # es) = reader_packets es"
| "reader_packets [] = []"

fun written_packets :: "(u16 \<Rightarrow> io_error + nat) \<Rightarrow> wintun_event list \<Rightarrow> bytes list" where
  "written_packets alloc (DeviceWriteCall buf # es) =
     (case alloc (of_nat (length buf)) of Inl _ \<Rightarrow> written_packets alloc es | Inr _ \<Rightarrow> buf # written_packets alloc es)"
| "written_packets alloc (_ # es) = written_packets alloc es"
| "written_packets alloc [] = []"

text \<open>Packets and writes of at most 65535 bytes, and a read buffer as large.\<close>

fun wintun_event_ok :: "wintun_event \<Rightarrow> bool" where
  "wintun_event_ok (ReaderTurn r) \<longleftrightarrow> (\<exists>packet. r = Inr packet \<and> length packet \<le> 65535)"
| "wintun_event_ok (DeviceReadCall cap) \<longleftrightarrow> 65535 \<le> cap"
| "wintun_event_ok (DeviceWriteCall buf) \<longleftrightarrow> length buf \<le> 65535"

lemma wintun_poll_read_alive:
  assumes "wd_task d" "\<forall>x \<in> set (wd_receiver d). length x \<le> cap"
  shows "wintun_poll_read cap d =
    (case wd_receiver d of
       [] \<Rightarrow> Some (d, [], Pending)
     | x # xs \<Rightarrow> Some (d\<lparr>wd_receiver := xs\<rparr>, x, Ready (Inr ())))"
  using assms by (simp add: wintun_poll_read_def wintun_poll_recv_def put_slice_def split: list.splits)

text \<open>When the reader thread has ended, every read of the empty channel succeeds with no bytes.\<close>

lemma wintun_poll_read_closed:
  "\<not> wd_task d \<Longrightarrow> wd_receiver d = [] \<Longrightarrow> wintun_poll_read cap d = Some (d, [], Ready (Inr ()))"
  by (simp add: wintun_poll_read_def wintun_poll_recv_def)

lemma wintun_poll_write_fits:
  assumes "\<forall>n k. alloc n = Inr k \<longrightarrow> k = unat n" "length buf \<le> 65535"
  shows "wintun_poll_write alloc buf d =
    (case alloc (of_nat (length buf)) of
       Inl e \<Rightarrow> Some (d, Ready (Inl e))
     | Inr _ \<Rightarrow> Some (d\<lparr>wd_sent := wd_sent d @ [buf]\<rparr>, Ready (Inr (length buf))))"
proof (cases "alloc (of_nat (length buf))")
  case (Inr k)
  have "unat (of_nat (length buf) :: u16) = length buf" using assms(2) by (simp add: unat_of_nat take_bit_nat_eq_self)
  with assms(1) Inr have "k = length buf" by metis
  with Inr show ?thesis by (simp add: wintun_poll_write_def)
qed (simp add: wintun_poll_write_def)

lemma wintun_run_ok:
  assumes "\<forall>n k. alloc n = Inr k \<longrightarrow> k = unat n" "list_all wintun_event_ok es" "wd_task d"
    "\<forall>x \<in> set (wd_receiver d). length x \<le> 65535"
  shows "\<exists>d' outs. wintun_run alloc es d = Some (d', outs) \<and> wd_task d' \<and>
     outs @ wd_receiver d' = wd_receiver d @ reader_packets es \<and> wd_sent d' = wd_sent d @ written_packets alloc es"
  using assms(2-)
proof (induction es arbitrary: d)
  case Nil
  then show ?case by simp
next
  case (Cons e es)
  show ?case
  proof (cases e)
    case (ReaderTurn r)
    with Cons.prems obtain x where x: "r = Inr x" "length x \<le> 65535" by auto
    with Cons.prems Cons.IH [of "d\<lparr>wd_receiver := wd_receiver d @ [x]\<rparr>"] ReaderTurn show ?thesis
      by (auto simp: wintun_reader_def)
  next
    case (DeviceReadCall cap)
    with Cons.prems have cap: "\<forall>x \<in> set (wd_receiver d). length x \<le> cap" by fastforce
    show ?thesis
    proof (cases "wd_receiver d")
      case Nil
      with Cons.prems Cons.IH [of d] DeviceReadCall wintun_poll_read_alive [OF Cons.prems(2) cap] show ?thesis by auto
    next
      case (Cons x xs)
      with Cons.prems Cons.IH [of "d\<lparr>wd_receiver := xs\<rparr>"] DeviceReadCall wintun_poll_read_alive [OF Cons.prems(2) cap]
      show ?thesis by auto
    qed
  next
    case (DeviceWriteCall buf)
    with Cons.prems wintun_poll_write_fits [OF assms(1)] have
      "wintun_poll_write alloc buf d = (case alloc (of_nat (length buf)) of
         Inl e \<Rightarrow> Some (d, Ready (Inl e)) | Inr _ \<Rightarrow> Some (d\<lparr>wd_sent := wd_sent d @ [buf]\<rparr>, Ready (Inr (length buf))))"
      by simp
    with Cons.prems Cons.IH [of d] Cons.IH [of "d\<lparr>wd_sent := wd_sent d @ [buf]\<rparr>"] DeviceWriteCall show ?thesis
      by (cases "alloc (of_nat (length buf))") auto
  qed
qed

text \<open>
  C32: the Windows device. In any interleaving of its reader thread with the reads and
  writes of the stack's task, all of at most 65535 bytes, and as long as the session delivers:
  nothing panics, the packets the reader received come out of \<open>poll_read\<close> whole, each once and in
  order, and exactly the writes for which the session gave a buffer are sent, whole and in order.
  Only the size limit matters: a longer write for which a buffer is given panics, since its
  length is cut to 16 bits.
\<close>

theorem wintun_device_io:
  assumes "\<forall>n k. alloc n = Inr k \<longrightarrow> k = unat n" "list_all wintun_event_ok es" "wintun_new True True True True True = Some d"
  shows "(\<exists>d' outs. wintun_run alloc es d = Some (d', outs) \<and>
       outs @ wd_receiver d' = reader_packets es \<and> wd_sent d' = written_packets alloc es) \<and>
     (\<forall>buf d k. 65535 < length buf \<and> alloc (of_nat (length buf)) = Inr k \<longrightarrow> wintun_poll_write alloc buf d = None)"
proof (rule conjI)
  show "\<exists>d' outs. wintun_run alloc es d = Some (d', outs) \<and>
       outs @ wd_receiver d' = reader_packets es \<and> wd_sent d' = written_packets alloc es"
    using wintun_run_ok [OF assms(1,2), of d] assms(3) by (auto simp: wintun_new_def)
  show "\<forall>buf d k. 65535 < length buf \<and> alloc (of_nat (length buf)) = Inr k \<longrightarrow> wintun_poll_write alloc buf d = None"
  proof (intro allI impI, elim conjE)
    fix buf :: bytes and d k assume l: "65535 < length buf" and a: "alloc (of_nat (length buf)) = Inr k"
    then have "k = unat (of_nat (length buf) :: u16)" using assms(1) by blast
    with l have "k \<noteq> length buf" using unat_u16_le [of "of_nat (length buf)"] by simp
    with a show "wintun_poll_write alloc buf d = None" by (simp add: wintun_poll_write_def)
  qed
qed

theorem wintun_device_io_witness:
  "\<exists>d d' outs. wintun_new True True True True True = Some d \<and>
     wintun_run (\<lambda>n. Inr (unat n)) [ReaderTurn (Inr [1]), DeviceWriteCall [2, 3], DeviceReadCall 65539, ReaderTurn (Inr [4])] d =
       Some (d', outs) \<and> outs @ wd_receiver d' = [[1], [4]] \<and> wd_sent d' = [[2, 3]]"
proof -
  let ?es = "[ReaderTurn (Inr [1]), DeviceWriteCall [2, 3], DeviceReadCall 65539, ReaderTurn (Inr [4])]"
    and ?alloc = "\<lambda>n :: u16. Inr (unat n) :: io_error + nat"
  have "\<forall>n k. ?alloc n = Inr k \<longrightarrow> k = unat n" "list_all wintun_event_ok ?es" by simp_all
  from wintun_device_io [OF this] show ?thesis by (auto simp: wintun_new_def)
qed

end
