(* ===== verification/Tcp_Wrapper.thy ===== *)
theory Tcp_Wrapper
  imports Tcp_Life
begin

text \<open>
  \<open>src/src/stream/tcp_wrapper.rs\<close>: the handle of a TCP stream that applications hold.
  It forwards every call to the stream inside; when it is dropped, the stream moves to a
  task of its own that shuts the connection down, for at most two seconds, and then
  drops the stream.
\<close>

section \<open>State and operations\<close>

record 'x tcp_handle =
  th_inner :: "'x tcp_stream option"
  th_peer_addr :: socket_addr
  th_local_addr :: socket_addr
  th_stream_sender :: sender

definition handle_new ::
  "build \<Rightarrow> 'x etherparse \<Rightarrow> cx \<Rightarrow> u32 \<Rightarrow> sender \<Rightarrow> socket_addr \<Rightarrow> socket_addr \<Rightarrow> 'x tcp_header_wrapper \<Rightarrow>
   u16 \<Rightarrow> nat \<Rightarrow> ('x network_packet list \<times> (ip_stack_error + 'x tcp_handle)) option" where
  "handle_new b ep cx rnd ch local_addr peer_addr tcp mtu tcp_timeout =
     map_option (\<lambda>(sent, r). (sent, case r of
         Inl e \<Rightarrow> Inl e
       | Inr strm \<Rightarrow> Inr \<lparr>th_inner = Some strm, th_peer_addr = peer_addr, th_local_addr = local_addr,
                           th_stream_sender = ch\<rparr>))
       (tcp_stream_new b ep cx rnd local_addr peer_addr tcp mtu tcp_timeout)"

definition handle_local_addr :: "'x tcp_handle \<Rightarrow> socket_addr" where
  [simp]: "handle_local_addr h = th_local_addr h"

definition handle_peer_addr :: "'x tcp_handle \<Rightarrow> socket_addr" where
  [simp]: "handle_peer_addr h = th_peer_addr h"

definition handle_stream_sender :: "'x tcp_handle \<Rightarrow> sender" where
  "handle_stream_sender h = th_stream_sender h"

definition handle_poll_read ::
  "build \<Rightarrow> 'x etherparse \<Rightarrow> cx \<Rightarrow> nat \<Rightarrow> 'x network_packet option list \<Rightarrow> 'x tcp_handle \<Rightarrow>
   ('x tcp_handle \<times> bytes \<times> (io_error + unit) poll) option" where
  "handle_poll_read b ep cx cap rs h =
     (case th_inner h of
        Some strm \<Rightarrow>
          map_option (\<lambda>(strm, out, r). (h\<lparr>th_inner := Some strm\<rparr>, out, r)) (poll_read b ep cx cap rs strm)
      | None \<Rightarrow> Some (h, [], Ready (Inl (Simple NotConnected))))"

definition handle_poll_write ::
  "build \<Rightarrow> 'x etherparse \<Rightarrow> cx \<Rightarrow> bytes \<Rightarrow> 'x tcp_handle \<Rightarrow> ('x tcp_handle \<times> (io_error + nat) poll) option" where
  "handle_poll_write b ep cx buf h =
     (case th_inner h of
        Some strm \<Rightarrow>
          map_option (\<lambda>(strm, r). (h\<lparr>th_inner := Some strm\<rparr>, r)) (poll_write b ep cx strm buf)
      | None \<Rightarrow> Some (h, Ready (Inl (Simple NotConnected))))"

definition handle_poll_flush ::
  "build \<Rightarrow> 'x etherparse \<Rightarrow> cx \<Rightarrow> 'x tcp_handle \<Rightarrow> ('x tcp_handle \<times> (io_error + unit) poll) option" where
  "handle_poll_flush b ep cx h =
     (case th_inner h of
        Some strm \<Rightarrow> map_option (\<lambda>(strm, r). (h\<lparr>th_inner := Some strm\<rparr>, r)) (poll_flush b ep cx strm)
      | None \<Rightarrow> Some (h, Ready (Inl (Simple NotConnected))))"

definition handle_poll_shutdown ::
  "build \<Rightarrow> 'x etherparse \<Rightarrow> cx \<Rightarrow> 'x network_packet option list \<Rightarrow> 'x tcp_handle \<Rightarrow>
   ('x tcp_handle \<times> (io_error + unit) poll) option" where
  "handle_poll_shutdown b ep cx rs h =
     (case th_inner h of
        Some strm \<Rightarrow> map_option (\<lambda>(strm, r). (h\<lparr>th_inner := Some strm\<rparr>, r)) (poll_shutdown b ep cx rs strm)
      | None \<Rightarrow> Some (h, Ready (Inl (Simple NotConnected))))"

text \<open>
  \<open>impl Drop\<close>: the stream is taken out of the handle and given to a spawned task. The
  task polls \<open>shutdown\<close> under \<open>timeout\<close>: each poll is \<open>poll_shutdown\<close>, and if that is
  pending, whether the two seconds have passed (the flag). When the task ends, it drops
  the stream. The second component of the result says whether the task has ended.
\<close>

type_synonym 'x task_poll = "cx \<times> 'x network_packet option list \<times> bool"

fun drop_task ::
  "build \<Rightarrow> 'x etherparse \<Rightarrow> 'x task_poll list \<Rightarrow> 'x tcp_stream \<Rightarrow> ('x tcp_stream \<times> bool) option" where
  "drop_task b ep [] s = Some (s, False)"
| "drop_task b ep ((cx, rs, elapsed) # polls) s =
     (case poll_shutdown b ep cx rs s of
        None \<Rightarrow> None
      | Some (s, r) \<Rightarrow>
          if r \<noteq> Pending \<or> elapsed then map_option (\<lambda>s. (s, True)) (tcp_drop b ep cx s)
          else drop_task b ep polls s)"

definition handle_drop ::
  "build \<Rightarrow> 'x etherparse \<Rightarrow> 'x task_poll list \<Rightarrow> 'x tcp_handle \<Rightarrow> ('x tcp_handle \<times> ('x tcp_stream \<times> bool) option) option" where
  "handle_drop b ep polls h =
     (case th_inner h of
        Some strm \<Rightarrow> map_option (\<lambda>r. (h\<lparr>th_inner := None\<rparr>, Some r)) (drop_task b ep polls strm)
      | None \<Rightarrow> Some (h, None))"

section \<open>Dropping a handle\<close>

lemma tcp_drop_ok:
  assumes "etherparse_ok ep" "family_ok s" "\<forall>n. cx_send_ok cx n"
  obtains q where "tcp_drop b ep cx s = Some (s\<lparr>ts_sent := ts_sent s @ [q]\<rparr>)" "ttl q = 0"
    "reverse_network_tuple q = \<lparr>nt_src = ts_src_addr s, nt_dst = ts_dst_addr s, nt_tcp = True\<rparr>"
proof -
  obtain q where q: "tcp_create_rev_packet b ep s NON DROP_TTL None [] = Some (Inr q)"
      "is_reply ep s NON DROP_TTL None [] q"
    using tcp_create_rev_packet_ok [OF assms(1,2)] .
  with assms(3) that [of q] show thesis
    by (auto simp: tcp_drop_def mpsc_send_def is_reply_def DROP_TTL_def reverse_network_tuple_def is_tcp_def)
qed

lemma drop_task_ends:
  assumes "etherparse_ok ep" "sess_inv iss m w c s" "unat iss + 1 + w < 2 ^ 32"
    "\<forall>(cx, rs, e) \<in> set polls. (\<forall>n. cx_send_ok cx n) \<and> list_all (pred_option (good_packet iss m)) rs"
    "c + sum_list (map (\<lambda>(cx, rs, e). length rs) polls) < 2 ^ 47" "\<exists>(cx, rs, e) \<in> set polls. e"
  shows "\<exists>s' sent q. drop_task b ep polls s = Some (s', True) \<and> ts_sent s' = ts_sent s @ sent @ [q] \<and> ttl q = 0 \<and>
     reverse_network_tuple q = \<lparr>nt_src = ts_src_addr s, nt_dst = ts_dst_addr s, nt_tcp = True\<rparr>"
  using assms(2,4-6)
proof (induction polls arbitrary: s c)
  case (Cons poll polls)
  obtain cx rs e where poll: "poll = (cx, rs, e)" by (cases poll)
  have send: "\<forall>n. cx_send_ok cx n" and good: "good_call iss m (ShutdownCall cx rs)" using Cons.prems(2) poll by auto
  have bounds: "c + length rs < 2 ^ 47" using Cons.prems(3) poll by simp
  then obtain s1 r where s1: "poll_shutdown b ep cx rs s = Some (s1, r)" "sess_inv iss m w (c + length rs) s1"
    using do_call_ok [OF _ assms(1) Cons.prems(1) good, of b] assms(3) by auto
  have "live b ep s s1" using do_call_live [of b ep "ShutdownCall cx rs" s s1] s1(1) by simp
  then obtain pre where l: "ts_sent s1 = ts_sent s @ pre" "ts_src_addr s1 = ts_src_addr s" "ts_dst_addr s1 = ts_dst_addr s"
    by (auto simp: live_def prefix_def)
  have fam: "family_ok s1" using s1(2) by (simp add: sess_inv_def)
  show ?case
  proof (cases "r \<noteq> Pending \<or> e")
    case True
    obtain q where "tcp_drop b ep cx s1 = Some (s1\<lparr>ts_sent := ts_sent s1 @ [q]\<rparr>)" "ttl q = 0"
      "reverse_network_tuple q = \<lparr>nt_src = ts_src_addr s1, nt_dst = ts_dst_addr s1, nt_tcp = True\<rparr>"
      using tcp_drop_ok [OF assms(1) fam send] .
    with True poll s1(1) l show ?thesis by auto
  next
    case False
    with poll Cons.prems(4) have "\<exists>(cx, rs, e) \<in> set polls. e" by auto
    with Cons.IH [OF s1(2)] Cons.prems(2,3) poll
    obtain s' sent q where "drop_task b ep polls s1 = Some (s', True)" "ts_sent s' = ts_sent s1 @ sent @ [q]" "ttl q = 0"
      "reverse_network_tuple q = \<lparr>nt_src = ts_src_addr s1, nt_dst = ts_dst_addr s1, nt_tcp = True\<rparr>"
      by (auto simp: add.assoc)
    with False poll s1(1) l show ?thesis by auto
  qed
qed simp

lemma handle_new_Inr:
  assumes "handle_new b ep cx rnd ch src dst tcp mtu tmo = Some (sent, Inr h)"
  obtains s where "tcp_stream_new b ep cx rnd src dst tcp mtu tmo = Some (sent, Inr s)"
    "h = \<lparr>th_inner = Some s, th_peer_addr = dst, th_local_addr = src, th_stream_sender = ch\<rparr>"
proof -
  from assms obtain r where r: "tcp_stream_new b ep cx rnd src dst tcp mtu tmo = Some (sent, r)"
    by (auto simp: handle_new_def)
  with assms that show thesis by (cases r) (auto simp: handle_new_def)
qed

lemma do_calls_live: "do_calls b ep calls s = Some s' \<Longrightarrow> live b ep s s'"
  by (induction calls arbitrary: s) (auto simp: live_refl bind_eq_Some_conv intro: do_call_live live_trans)

text \<open>
  C20: dropping the handle of a TCP stream ends its session. Whatever the application did
  with the stream before (under the conditions that keep it from panicking), and whatever
  arrives while it is shut down, once the two seconds have passed the spawned task has
  ended, without a panic, and the last packet the stream sent has TTL 0 and the session's
  key as its reversed tuple, so that the stack forgets the session.
\<close>

theorem handle_drop_ends_session:
  assumes "etherparse_ok ep" "same_family (sa_ip dst) (sa_ip src)"
    "handle_new b ep cx rnd ch src dst tcp mtu tmo = Some (sent0, Inr h)" "th_inner h = Some s0"
    "list_all (good_call (iss_of b rnd) m) calls" "do_calls b ep calls s0 = Some s"
    "unat (iss_of b rnd) + 1 + sum_list (map call_written calls) < 2 ^ 32"
    "\<forall>(cx, rs, e) \<in> set polls. (\<forall>n. cx_send_ok cx n) \<and> list_all (pred_option (good_packet (iss_of b rnd) m)) rs"
    "1 + sum_list (map call_received calls) + sum_list (map (\<lambda>(cx, rs, e). length rs) polls) < 2 ^ 47"
    "\<exists>(cx, rs, e) \<in> set polls. e"
  shows "\<exists>h' s' sent q. handle_drop b ep polls (h\<lparr>th_inner := Some s\<rparr>) = Some (h', Some (s', True)) \<and>
     th_inner h' = None \<and> ts_sent s' = ts_sent s @ sent @ [q] \<and> ttl q = 0 \<and>
     reverse_network_tuple q = \<lparr>nt_src = src, nt_dst = dst, nt_tcp = True\<rparr>"
proof -
  from assms(3,4) have new: "tcp_stream_new b ep cx rnd src dst tcp mtu tmo = Some (sent0, Inr s0)"
    using handle_new_Inr by fastforce
  have inv: "sess_inv (iss_of b rnd) m (sum_list (map call_written calls)) (1 + sum_list (map call_received calls)) s"
    using do_calls_ok [OF assms(1) tcp_stream_new_inv [OF new assms(2)] assms(5), of b] assms(6,7,9) by simp
  have "ts_src_addr s0 = src" "ts_dst_addr s0 = dst" using tcp_stream_new_Inr [OF new] by force+
  then have addr: "ts_src_addr s = src" "ts_dst_addr s = dst"
    using do_calls_live [OF assms(6)] by (simp_all add: live_def)
  obtain s' sent q where "drop_task b ep polls s = Some (s', True)" "ts_sent s' = ts_sent s @ sent @ [q]" "ttl q = 0"
    "reverse_network_tuple q = \<lparr>nt_src = ts_src_addr s, nt_dst = ts_dst_addr s, nt_tcp = True\<rparr>"
    using drop_task_ends [OF assms(1) inv assms(7,8,9,10), of b] by blast
  with addr show ?thesis by (simp add: handle_drop_def)
qed

theorem handle_drop_ends_session_witness:
  "\<exists>h' s' sent q. handle_drop sample_build sample_ep [(sample_cx, [], True)]
       \<lparr>th_inner = Some (sample_stream (SynReceived False)), th_peer_addr = sample_dst, th_local_addr = sample_src,
        th_stream_sender = 3\<rparr> = Some (h', Some (s', True)) \<and> ts_sent s' = sent @ [q] \<and> ttl q = 0"
proof -
  let ?h = "\<lparr>th_inner = Some (sample_stream (SynReceived False)), th_peer_addr = sample_dst, th_local_addr = sample_src,
        th_stream_sender = 3\<rparr>"
  have new: "handle_new sample_build sample_ep sample_cx 0 3 sample_src sample_dst (wrapper_from (sample_tcp 7 0 SYN 64)) 1500 60 =
      Some ([], Inr ?h)"
    by (simp add: handle_new_def sample_new)
  have fam: "same_family (sa_ip sample_dst) (sa_ip sample_src)" by (simp add: same_family_def)
  have h: "th_inner ?h = Some (sample_stream (SynReceived False))" "list_all (good_call (iss_of sample_build 0) 8) []"
    "do_calls sample_build sample_ep [] (sample_stream (SynReceived False)) = Some (sample_stream (SynReceived False))"
    "unat (iss_of sample_build 0) + 1 + sum_list (map call_written ([] :: unit call list)) < 2 ^ 32"
    "\<forall>(cx, rs, e) \<in> set [(sample_cx, [], True)]. (\<forall>n. cx_send_ok cx n) \<and>
        list_all (pred_option (good_packet (iss_of sample_build 0) 8)) (rs :: unit network_packet option list)"
    "1 + sum_list (map call_received ([] :: unit call list)) +
        sum_list (map (\<lambda>(cx, rs, e). length rs) [(sample_cx, [] :: unit network_packet option list, True)]) < (2 :: nat) ^ 47"
    "\<exists>(cx, rs, e) \<in> set [(sample_cx, [] :: unit network_packet option list, True)]. e"
    by (simp_all add: iss_of_def sample_build_def sample_cx_def)
  have sent: "ts_sent (sample_stream (SynReceived False)) = []" by (simp add: sample_stream_def)
  from handle_drop_ends_session [OF sample_etherparse_ok fam new h(1-7)] show ?thesis
    unfolding sent by (simp only: tcp_handle.update_convs append_Nil) metis
qed

end
