(* ===== verification/Udp.thy ===== *)
theory Udp
  imports Runtime
begin

text \<open>
  \<open>src/src/stream/udp.rs\<close>: UDP streams. A stream starts with the payload of the packet
  that opened it; later packets arrive over its channel. The second half is what an
  application sees: the contract of \<open>create_rev_packet\<close>, and sequences of reads and
  writes.
\<close>

section \<open>State\<close>

text \<open>
  \<open>us_sent\<close> is what has been sent on \<open>pkt_sender\<close>, oldest first; \<open>us_timeout\<close> is the
  deadline of the \<open>Sleep\<close>. What \<open>stream_receiver\<close> answers is an argument of
  \<open>udp_poll_read\<close>.
\<close>

record 'x udp_stream =
  us_src_addr :: socket_addr
  us_dst_addr :: socket_addr
  us_stream_sender :: sender
  us_sent :: "'x network_packet list"
  us_first_payload :: "bytes option"
  us_timeout :: nat
  us_udp_timeout :: nat
  us_mtu :: u16

definition udp_stream_new ::
  "cx \<Rightarrow> sender \<Rightarrow> socket_addr \<Rightarrow> socket_addr \<Rightarrow> bytes \<Rightarrow> u16 \<Rightarrow> nat \<Rightarrow> 'x udp_stream" where
  "udp_stream_new cx ch src dst payload mtu udp_timeout =
     \<lparr>us_src_addr = src, us_dst_addr = dst, us_stream_sender = ch, us_sent = [], us_first_payload = Some payload,
      us_timeout = cx_now cx + udp_timeout, us_udp_timeout = udp_timeout, us_mtu = mtu\<rparr>"

definition udp_stream_sender :: "'x udp_stream \<Rightarrow> sender" where
  "udp_stream_sender s = us_stream_sender s"

definition udp_local_addr :: "'x udp_stream \<Rightarrow> socket_addr" where
  "udp_local_addr s = us_src_addr s"

definition udp_peer_addr :: "'x udp_stream \<Rightarrow> socket_addr" where
  "udp_peer_addr s = us_dst_addr s"

definition udp_reset_timeout :: "cx \<Rightarrow> 'x udp_stream \<Rightarrow> 'x udp_stream" where
  "udp_reset_timeout cx s = s\<lparr>us_timeout := cx_now cx + us_udp_timeout s\<rparr>"

section \<open>Packets\<close>

definition UHS :: nat where "UHS = 8"

definition udp_create_rev_packet ::
  "'x etherparse \<Rightarrow> 'x udp_stream \<Rightarrow> u8 \<Rightarrow> bytes \<Rightarrow> (io_error + 'x network_packet) option" where
  "udp_create_rev_packet ep s tt payload =
     (case (sa_ip (us_dst_addr s), sa_ip (us_src_addr s)) of
        (V4 dst, V4 src) \<Rightarrow>
          try_then (Some (ok_or_io ValueTooBigErrorU16 (ipv4_new ep 0 tt IpNumber_UDP dst src)))
            (\<lambda>ip_h. let line_buffer = saturating_sub (us_mtu s) (of_nat (ipv4_header_len ep ip_h + UHS));
                        payload = take (unat line_buffer) payload
             in try_then (Some (ok_or_io ValueTooBigErrorUsize
                    (ipv4_set_payload_len ep ip_h (length payload + UHS))))
               (\<lambda>ip_h. try_then (Some (ok_or_io ValueTooBigErrorUsize
                    (udp_with_ipv4_checksum ep (sa_port (us_dst_addr s)) (sa_port (us_src_addr s)) ip_h payload)))
                 (\<lambda>udp_header. Some (Inr \<lparr>np_ip = Ipv4 ip_h, np_transport = Udp udp_header,
                                          np_payload = payload\<rparr>))))
      | (V6 dst, V6 src) \<Rightarrow>
          (let ip_h = \<lparr>ipv6_traffic_class = 0, ipv6_flow_label = 0, ipv6_payload_length = 0,
                       ipv6_next_header = IpNumber_UDP, ipv6_hop_limit = tt,
                       ipv6_source = dst, ipv6_destination = src\<rparr>;
               line_buffer = saturating_sub (us_mtu s) (of_nat (ipv6_header_len ep ip_h + UHS));
               payload = take (unat line_buffer) payload;
               ip_h = ip_h\<lparr>ipv6_payload_length := of_nat (length payload + UHS)\<rparr>
           in try_then (Some (ok_or_io ValueTooBigErrorUsize
                  (udp_with_ipv6_checksum ep (sa_port (us_dst_addr s)) (sa_port (us_src_addr s)) ip_h payload)))
                (\<lambda>udp_header. Some (Inr \<lparr>np_ip = Ipv6 ip_h, np_transport = Udp udp_header,
                                         np_payload = payload\<rparr>)))
      | _ \<Rightarrow> None)"

section \<open>AsyncRead and AsyncWrite\<close>

text \<open>
  \<open>poll_read\<close> into a buffer with \<open>cap\<close> bytes left; \<open>r\<close> is what \<open>poll_recv\<close> answers
  if it is called. The result is the stream, the bytes put into the buffer, and the poll.
\<close>

definition udp_poll_read ::
  "cx \<Rightarrow> nat \<Rightarrow> 'x network_packet option poll \<Rightarrow> 'x udp_stream \<Rightarrow>
   ('x udp_stream \<times> bytes \<times> (io_error + unit) poll) option" where
  "udp_poll_read cx cap r s =
     (case us_first_payload s of
        Some p \<Rightarrow>
          do { out \<leftarrow> put_slice cap p; Some (s\<lparr>us_first_payload := None\<rparr>, out, Ready (Inr ())) }
      | None \<Rightarrow>
          if cx_sleep_ready cx (us_timeout s) then Some (s, [], Ready (Inl (Simple TimedOut)))
          else
            (let s = udp_reset_timeout cx s in
             case r of
               Ready (Some p) \<Rightarrow> do { out \<leftarrow> put_slice cap (np_payload p); Some (s, out, Ready (Inr ())) }
             | Ready None \<Rightarrow> Some (s, [], Ready (Inr ()))
             | Pending \<Rightarrow> Some (s, [], Pending)))"

definition udp_poll_write ::
  "build \<Rightarrow> 'x etherparse \<Rightarrow> cx \<Rightarrow> bytes \<Rightarrow> 'x udp_stream \<Rightarrow>
   ('x udp_stream \<times> (io_error + nat) poll) option" where
  "udp_poll_write b ep cx buf s =
     (let s = udp_reset_timeout cx s in
      case udp_create_rev_packet ep s (TTL b) buf of
        None \<Rightarrow> None
      | Some (Inl e) \<Rightarrow> Some (s, Ready (Inl e))
      | Some (Inr packet) \<Rightarrow>
          (case mpsc_send cx (us_sent s) packet of
             None \<Rightarrow> Some (s, Ready (Inl (Simple UnexpectedEof)))
           | Some sent \<Rightarrow> Some (s\<lparr>us_sent := sent\<rparr>, Ready (Inr (length (np_payload packet))))))"

definition udp_poll_flush :: "'x udp_stream \<Rightarrow> 'x udp_stream \<times> (io_error + unit) poll" where
  "udp_poll_flush s = (s, Ready (Inr ()))"

definition udp_poll_shutdown :: "'x udp_stream \<Rightarrow> 'x udp_stream \<times> (io_error + unit) poll" where
  "udp_poll_shutdown s = (s, Ready (Inr ()))"

section \<open>Replies\<close>

definition udp_headers_len :: "'x udp_stream \<Rightarrow> nat" where
  "udp_headers_len s = (case sa_ip (us_dst_addr s) of V4 _ \<Rightarrow> 28 | V6 _ \<Rightarrow> 48)"

definition udp_room :: "'x udp_stream \<Rightarrow> nat" where
  "udp_room s = unat (us_mtu s) - udp_headers_len s"

definition is_datagram ::
  "'x etherparse \<Rightarrow> 'x udp_stream \<Rightarrow> u8 \<Rightarrow> bytes \<Rightarrow> 'x network_packet \<Rightarrow> bool" where
  "is_datagram ep s tt payload p \<longleftrightarrow>
     src_addr p = us_dst_addr s \<and> dst_addr p = us_src_addr s \<and> transport_protocol p = ProtoUdp \<and>
     ttl p = tt \<and> np_payload p = take (udp_room s) payload \<and>
     wire_len ep p = udp_headers_len s + length (np_payload p)"

lemma udp_create_rev_packet_V4:
  assumes ok: "etherparse_ok ep"
    and dst: "us_dst_addr s = \<lparr>sa_ip = V4 d, sa_port = dp\<rparr>"
    and src: "us_src_addr s = \<lparr>sa_ip = V4 r, sa_port = sp\<rparr>"
  shows "\<exists>p. udp_create_rev_packet ep s tt payload = Some (Inr p) \<and> is_datagram ep s tt payload p"
proof -
  let ?pl = "take (udp_room s) payload"
  obtain i where i: "ipv4_new ep 0 tt IpNumber_UDP d r = Some i" "ipv4_time_to_live i = tt"
      "ipv4_source i = d" "ipv4_destination i = r" "ipv4_header_len ep i = 20"
    using ipv4_new_ok [OF ok] by metis
  have room: "unat (saturating_sub (us_mtu s) 28) = udp_room s"
    by (simp add: udp_room_def udp_headers_len_def dst unat_saturating_sub)
  have fit: "length ?pl + 28 \<le> 65535"
    using unat_u16_le [of "us_mtu s"] by (auto simp: udp_room_def udp_headers_len_def dst)
  from fit obtain x where x: "ipv4_set_payload_len ep i (length ?pl + 8) = Some (i\<lparr>ipv4_rest := x\<rparr>)"
      "ipv4_header_len ep (i\<lparr>ipv4_rest := x\<rparr>) = 20"
    using ipv4_set_payload_len_ok [OF ok, of i "length ?pl + 8"] i(5) by auto
  have "8 + length ?pl \<le> 65535" using fit by simp
  from udp_with_checksum_ok(1) [OF ok this, of dp sp "i\<lparr>ipv4_rest := x\<rparr>"]
  obtain h where h: "udp_with_ipv4_checksum ep dp sp (i\<lparr>ipv4_rest := x\<rparr>) ?pl = Some h"
    "udp_source_port h = dp" "udp_destination_port h = sp" by blast
  have "udp_create_rev_packet ep s tt payload =
      Some (Inr \<lparr>np_ip = Ipv4 (i\<lparr>ipv4_rest := x\<rparr>), np_transport = Udp h, np_payload = ?pl\<rparr>)"
    using i x(1) h(1) by (simp add: udp_create_rev_packet_def Let_def dst src UHS_def room)
  then show ?thesis
    using i x h dst src
    by (simp add: is_datagram_def src_addr_def dst_addr_def ttl_def wire_len_def ip_len_def transport_len_def
        udp_headers_len_def transport_protocol_def)
qed

lemma udp_create_rev_packet_V6:
  assumes ok: "etherparse_ok ep"
    and dst: "us_dst_addr s = \<lparr>sa_ip = V6 d, sa_port = dp\<rparr>"
    and src: "us_src_addr s = \<lparr>sa_ip = V6 r, sa_port = sp\<rparr>"
  shows "\<exists>p. udp_create_rev_packet ep s tt payload = Some (Inr p) \<and> is_datagram ep s tt payload p"
proof -
  let ?pl = "take (udp_room s) payload"
  let ?i = "\<lparr>ipv6_traffic_class = 0, ipv6_flow_label = 0, ipv6_payload_length = of_nat (length ?pl + 8),
              ipv6_next_header = IpNumber_UDP, ipv6_hop_limit = tt, ipv6_source = d, ipv6_destination = r\<rparr>"
  have room: "unat (saturating_sub (us_mtu s) 48) = udp_room s"
    by (simp add: udp_room_def udp_headers_len_def dst unat_saturating_sub)
  have "8 + length ?pl \<le> 65535"
    using unat_u16_le [of "us_mtu s"] by (auto simp: udp_room_def udp_headers_len_def dst)
  from udp_with_checksum_ok(2) [OF ok this, of dp sp ?i]
  obtain h where h: "udp_with_ipv6_checksum ep dp sp ?i ?pl = Some h"
    "udp_source_port h = dp" "udp_destination_port h = sp" by blast
  have "udp_create_rev_packet ep s tt payload =
      Some (Inr \<lparr>np_ip = Ipv6 ?i, np_transport = Udp h, np_payload = ?pl\<rparr>)"
    using h(1) by (simp add: udp_create_rev_packet_def Let_def dst src UHS_def room ipv6_header_len_ok [OF ok])
  then show ?thesis
    using h dst src
    by (simp add: is_datagram_def src_addr_def dst_addr_def ttl_def wire_len_def ip_len_def transport_len_def
        udp_headers_len_def transport_protocol_def ipv6_header_len_ok [OF ok])
qed

lemma udp_create_rev_packet_ok:
  assumes "etherparse_ok ep" "same_family (sa_ip (us_dst_addr s)) (sa_ip (us_src_addr s))"
  obtains p where "udp_create_rev_packet ep s tt payload = Some (Inr p)" "is_datagram ep s tt payload p"
proof -
  obtain da dp where d: "us_dst_addr s = \<lparr>sa_ip = da, sa_port = dp\<rparr>" by (cases "us_dst_addr s")
  obtain ra sp where r: "us_src_addr s = \<lparr>sa_ip = ra, sa_port = sp\<rparr>" by (cases "us_src_addr s")
  from assms(2) d r consider (4) x y where "da = V4 x" "ra = V4 y" | (6) x y where "da = V6 x" "ra = V6 y"
    by (auto simp: same_family_def split: ip_addr.splits)
  then show thesis
  proof cases
    case 4
    from udp_create_rev_packet_V4 [OF assms(1) d [unfolded 4(1)] r [unfolded 4(2)]] that
    show thesis by blast
  next
    case 6
    from udp_create_rev_packet_V6 [OF assms(1) d [unfolded 6(1)] r [unfolded 6(2)]] that
    show thesis by blast
  qed
qed

interpretation udp_reply: reply_builder
  "\<lambda>(ep :: 'x etherparse) s (tt, payload). udp_create_rev_packet ep s tt payload"
  us_src_addr us_dst_addr False "\<lambda>s. max (unat (us_mtu s)) (udp_headers_len s)"
proof unfold_locales
  fix ep :: "'x etherparse" and s :: "'x udp_stream" and a :: "u8 \<times> bytes"
  assume ok: "etherparse_ok ep" and fam: "same_family (sa_ip (us_dst_addr s)) (sa_ip (us_src_addr s))"
  obtain tt payload where a: "a = (tt, payload)" by (cases a)
  obtain p where p: "udp_create_rev_packet ep s tt payload = Some (Inr p)" "is_datagram ep s tt payload p"
    using udp_create_rev_packet_ok [OF ok fam] .
  then show "\<exists>p. (case a of (tt, payload) \<Rightarrow> udp_create_rev_packet ep s tt payload) = Some (Inr p) \<and>
     src_addr p = us_dst_addr s \<and> dst_addr p = us_src_addr s \<and> is_tcp p = False \<and>
     wire_len ep p \<le> max (unat (us_mtu s)) (udp_headers_len s)"
    using a by (auto simp: is_datagram_def udp_room_def transport_protocol_def is_tcp_def
        split: transport_header.splits)
qed

text \<open>A stream for evaluation, and a datagram it receives.\<close>

definition sample_udp :: "bytes \<Rightarrow> u16 \<Rightarrow> unit udp_stream" where
  "sample_udp first mtu = udp_stream_new sample_cx 0 \<lparr>sa_ip = V4 0x0A000001, sa_port = 5353\<rparr>
     \<lparr>sa_ip = V4 0x08080808, sa_port = 53\<rparr> first mtu 30"

definition sample_datagram :: "bytes \<Rightarrow> unit network_packet" where
  "sample_datagram d = \<lparr>np_ip = Ipv4 \<lparr>ipv4_time_to_live = 64, ipv4_protocol = IpNumber_UDP,
       ipv4_dont_fragment = True, ipv4_source = 0x0A000001, ipv4_destination = 0x08080808, ipv4_rest = ()\<rparr>,
     np_transport = Udp \<lparr>udp_source_port = 5353, udp_destination_port = 53, udp_rest = ()\<rparr>, np_payload = d\<rparr>"

lemma sample_udp_family: "same_family (sa_ip (us_dst_addr (sample_udp d m))) (sa_ip (us_src_addr (sample_udp d m)))"
  by (simp add: sample_udp_def udp_stream_new_def same_family_def)

text \<open>
  \<open>create_rev_packet\<close> of a UDP stream, whose addresses are of one family, neither
  panics nor fails. The datagram goes from the stream's destination to its source with
  the given TTL, its reversed tuple is the stream's session key, it carries as much of the
  payload as the MTU leaves room for and drops the rest, and serialised it is no longer
  than the MTU or, if the MTU is smaller, the bare headers.
\<close>

lemma udp_create_rev_packet_contract:
  assumes "etherparse_ok ep" "same_family (sa_ip (us_dst_addr s)) (sa_ip (us_src_addr s))"
  shows "\<exists>p bs. udp_create_rev_packet ep s tt payload = Some (Inr p) \<and>
     transport_protocol p = ProtoUdp \<and> ttl p = tt \<and>
     reverse_network_tuple p = \<lparr>nt_src = udp_local_addr s, nt_dst = udp_peer_addr s, nt_tcp = False\<rparr> \<and>
     np_payload p = take (unat (us_mtu s) - udp_headers_len s) payload \<and>
     to_bytes ep p = Inr bs \<and> length bs \<le> max (unat (us_mtu s)) (udp_headers_len s)"
proof -
  obtain p where p: "udp_create_rev_packet ep s tt payload = Some (Inr p)" "is_datagram ep s tt payload p"
    using udp_create_rev_packet_ok [OF assms] .
  then have mk: "(case (tt, payload) of (tt, payload) \<Rightarrow> udp_create_rev_packet ep s tt payload) = Some (Inr p)"
    by simp
  from p(2) udp_reply.reply_key [OF assms mk] udp_reply.reply_fits [OF assms mk] p(1) show ?thesis
    by (auto simp: is_datagram_def udp_room_def udp_local_addr_def udp_peer_addr_def)
qed

lemma udp_create_rev_packet_contract_witness:
  "\<exists>p. udp_create_rev_packet (sample_etherparse (\<lambda>_. None)) (sample_udp [] 30) 64 [1, 2, 3] = Some (Inr p) \<and>
       np_payload p = [1, 2] \<and> ttl p = 64"
proof -
  have "unat (us_mtu (sample_udp [] 30)) - udp_headers_len (sample_udp [] 30) = Suc (Suc 0)"
    by (simp add: sample_udp_def udp_stream_new_def udp_headers_len_def)
  then show ?thesis
    using udp_create_rev_packet_contract [OF sample_etherparse_ok sample_udp_family, of "\<lambda>_. None" "[]" 30 64 "[1, 2, 3]"]
    by auto
qed

section \<open>Sequences of calls\<close>

text \<open>
  Reads and writes of the application. A read carries what \<open>poll_recv\<close> answers if it is
  called; the result of a run is the stream, what the reads delivered (one entry for each
  read that returned \<open>Ok\<close>), and the counts the writes returned.
\<close>

datatype 'x udp_call =
    UdpRead cx nat "'x network_packet option poll"
  | UdpWrite cx bytes

fun udp_run ::
  "build \<Rightarrow> 'x etherparse \<Rightarrow> 'x udp_call list \<Rightarrow> 'x udp_stream \<Rightarrow>
   ('x udp_stream \<times> bytes list \<times> nat list) option" where
  "udp_run b ep [] s = Some (s, [], [])"
| "udp_run b ep (UdpRead cx cap r # cs) s =
     (case udp_poll_read cx cap r s of
        None \<Rightarrow> None
      | Some (s, out, res) \<Rightarrow>
          map_option (\<lambda>(s, rds, ns). (s, if res = Ready (Inr ()) then out # rds else rds, ns)) (udp_run b ep cs s))"
| "udp_run b ep (UdpWrite cx buf # cs) s =
     (case udp_poll_write b ep cx buf s of
        None \<Rightarrow> None
      | Some (s, res) \<Rightarrow>
          map_option (\<lambda>(s, rds, ns). (s, rds, case res of Ready (Inr n) \<Rightarrow> n # ns | _ \<Rightarrow> ns)) (udp_run b ep cs s))"

text \<open>No timeout, room for the datagram, the channel not closed (the stream itself holds a sender).\<close>

fun udp_good_call :: "'x udp_call \<Rightarrow> bool" where
  "udp_good_call (UdpRead cx cap r) \<longleftrightarrow>
     (\<forall>d. \<not> cx_sleep_ready cx d) \<and> r \<noteq> Ready None \<and> (\<forall>p. r = Ready (Some p) \<longrightarrow> length (np_payload p) \<le> cap)"
| "udp_good_call (UdpWrite cx buf) \<longleftrightarrow> (\<forall>n. cx_send_ok cx n)"

fun udp_received :: "'x udp_call \<Rightarrow> bytes list" where
  "udp_received (UdpRead cx cap (Ready (Some p))) = [np_payload p]"
| "udp_received _ = []"

fun udp_written :: "'x udp_call \<Rightarrow> bytes list" where
  "udp_written (UdpWrite cx buf) = [buf]"
| "udp_written _ = []"

lemma udp_poll_write_ok:
  assumes "etherparse_ok ep" "same_family (sa_ip (us_dst_addr s)) (sa_ip (us_src_addr s))" "\<forall>n. cx_send_ok cx n"
  obtains s' p where "udp_poll_write b ep cx buf s = Some (s', Ready (Inr (min (length buf) (udp_room s))))"
    "us_sent s' = us_sent s @ [p]" "is_datagram ep s (TTL b) buf p" "us_first_payload s' = us_first_payload s"
    "us_dst_addr s' = us_dst_addr s" "us_src_addr s' = us_src_addr s" "us_mtu s' = us_mtu s"
proof -
  let ?s = "udp_reset_timeout cx s"
  have fam: "same_family (sa_ip (us_dst_addr ?s)) (sa_ip (us_src_addr ?s))"
    using assms(2) by (simp add: udp_reset_timeout_def)
  obtain p where p: "udp_create_rev_packet ep ?s (TTL b) buf = Some (Inr p)" "is_datagram ep ?s (TTL b) buf p"
    using udp_create_rev_packet_ok [OF assms(1) fam] .
  then have "is_datagram ep s (TTL b) buf p"
    by (simp add: is_datagram_def udp_room_def udp_headers_len_def udp_reset_timeout_def)
  with p(1) assms(3) that [of "?s\<lparr>us_sent := us_sent s @ [p]\<rparr>" p] show thesis
    by (simp add: udp_poll_write_def mpsc_send_def is_datagram_def udp_reset_timeout_def min.commute)
qed

lemma udp_poll_read_good:
  assumes "us_first_payload s = None" "udp_good_call (UdpRead cx cap r)"
  shows "udp_poll_read cx cap r s =
     (case r of Ready (Some p) \<Rightarrow> Some (udp_reset_timeout cx s, np_payload p, Ready (Inr ()))
      | _ \<Rightarrow> Some (udp_reset_timeout cx s, [], Pending))"
  using assms by (auto simp: udp_poll_read_def put_slice_def split: poll.splits option.splits)

lemma is_datagram_cong:
  assumes "us_dst_addr s' = us_dst_addr s" "us_src_addr s' = us_src_addr s" "us_mtu s' = us_mtu s"
  shows "is_datagram ep s' = is_datagram ep s" "udp_room s' = udp_room s"
  using assms by (simp_all add: fun_eq_iff is_datagram_def udp_room_def udp_headers_len_def)

lemma is_datagram_key:
  "is_datagram ep s tt d p \<Longrightarrow> np_payload p = take (unat (us_mtu s) - udp_headers_len s) d \<and> ttl p = tt \<and>
     reverse_network_tuple p = \<lparr>nt_src = us_src_addr s, nt_dst = us_dst_addr s, nt_tcp = False\<rparr>"
  by (auto simp: is_datagram_def udp_room_def reverse_network_tuple_def is_tcp_def transport_protocol_def
      split: transport_header.splits)

lemma udp_run_append:
  assumes "udp_run b ep cs s = Some (s1, rds, ns)" "udp_run b ep ds s1 = Some (s2, rds', ns')"
  shows "udp_run b ep (cs @ ds) s = Some (s2, rds @ rds', ns @ ns')"
  using assms
  by (induction b ep cs s arbitrary: rds ns rule: udp_run.induct) (auto split: option.splits poll.splits sum.splits)

lemma udp_run_ok:
  assumes "etherparse_ok ep" "same_family (sa_ip (us_dst_addr s)) (sa_ip (us_src_addr s))"
    "\<forall>c \<in> set cs. udp_good_call c" "us_first_payload s = None \<or> (\<forall>c \<in> set cs. \<exists>cx buf. c = UdpWrite cx buf)"
  obtains s' ps where
    "udp_run b ep cs s = Some (s', concat (map udp_received cs),
       map (\<lambda>d. min (length d) (udp_room s)) (concat (map udp_written cs)))"
    "us_sent s' = us_sent s @ ps" "list_all2 (is_datagram ep s (TTL b)) (concat (map udp_written cs)) ps"
    "us_first_payload s' = us_first_payload s"
    "us_dst_addr s' = us_dst_addr s" "us_src_addr s' = us_src_addr s" "us_mtu s' = us_mtu s"
  using assms
proof (induction cs arbitrary: s thesis)
  case Nil
  then show ?case by simp
next
  case (Cons c cs)
  show ?case
  proof (cases c)
    case (UdpRead cx cap r)
    with Cons.prems(5) have first: "us_first_payload s = None" by auto
    let ?s = "udp_reset_timeout cx s"
    have fam: "same_family (sa_ip (us_dst_addr ?s)) (sa_ip (us_src_addr ?s))" "us_first_payload ?s = None"
      using Cons.prems(3) first by (simp_all add: udp_reset_timeout_def)
    obtain s' ps where ih: "udp_run b ep cs ?s = Some (s', concat (map udp_received cs),
         map (\<lambda>d. min (length d) (udp_room ?s)) (concat (map udp_written cs)))"
      "us_sent s' = us_sent ?s @ ps" "list_all2 (is_datagram ep ?s (TTL b)) (concat (map udp_written cs)) ps"
      "us_first_payload s' = us_first_payload ?s"
      "us_dst_addr s' = us_dst_addr ?s" "us_src_addr s' = us_src_addr ?s" "us_mtu s' = us_mtu ?s"
      using Cons.IH [of ?s] Cons.prems(2,4) fam by auto
    note cong = is_datagram_cong [of ?s s]
    have "udp_good_call c" using Cons.prems(4) by simp
    note rd = udp_poll_read_good [OF first this [unfolded UdpRead]]
    with UdpRead ih cong first rd show ?thesis
      by (intro Cons.prems(1) [of s' ps])
         (auto simp: udp_reset_timeout_def udp_room_def udp_headers_len_def split: poll.splits option.splits)
  next
    case (UdpWrite cx buf)
    with Cons.prems(4) have ok: "\<forall>n. cx_send_ok cx n" by simp
    obtain s1 p where w: "udp_poll_write b ep cx buf s = Some (s1, Ready (Inr (min (length buf) (udp_room s))))"
      "us_sent s1 = us_sent s @ [p]" "is_datagram ep s (TTL b) buf p" "us_first_payload s1 = us_first_payload s"
      "us_dst_addr s1 = us_dst_addr s" "us_src_addr s1 = us_src_addr s" "us_mtu s1 = us_mtu s"
      using udp_poll_write_ok [OF Cons.prems(2,3) ok] .
    obtain s' ps where ih: "udp_run b ep cs s1 = Some (s', concat (map udp_received cs),
         map (\<lambda>d. min (length d) (udp_room s1)) (concat (map udp_written cs)))"
      "us_sent s' = us_sent s1 @ ps" "list_all2 (is_datagram ep s1 (TTL b)) (concat (map udp_written cs)) ps"
      "us_first_payload s' = us_first_payload s1"
      "us_dst_addr s' = us_dst_addr s1" "us_src_addr s' = us_src_addr s1" "us_mtu s' = us_mtu s1"
      using Cons.IH [of s1] Cons.prems(2-5) w(4-6) by auto
    with UdpWrite w is_datagram_cong [of s1 s] show ?thesis
      by (intro Cons.prems(1) [of s' "p # ps"]) simp_all
  qed
qed

text \<open>
  A UDP stream keeps datagram boundaries and order in both directions. Take a new
  stream, any calls that only write, a first read, and then any interleaving of reads and
  writes, without timeouts, with buffers large enough and the stack running. Nothing
  panics. The reads that succeed deliver the payload of the packet that opened the stream
  and then, one datagram per read, what arrived on the channel; each write sends
  exactly one datagram, in order, with the session's key and as much of the data as the
  MTU allows, and returns the number of bytes it carries.
\<close>

lemma udp_session:
  assumes "etherparse_ok ep" "same_family (sa_ip dst) (sa_ip src)"
    "\<forall>c \<in> set (ws @ UdpRead cx cap r # cs). udp_good_call c" "\<forall>c \<in> set ws. \<exists>cx buf. c = UdpWrite cx buf"
    "length first \<le> cap" "s = udp_stream_new cx0 ch src dst first mtu timeout"
  shows "\<exists>s' ps. udp_run b ep (ws @ UdpRead cx cap r # cs) s =
       Some (s', first # concat (map udp_received cs),
             map (\<lambda>d. min (length d) (unat mtu - udp_headers_len s)) (concat (map udp_written (ws @ cs)))) \<and>
     us_sent s' = ps \<and>
     list_all2 (\<lambda>d p. np_payload p = take (unat mtu - udp_headers_len s) d \<and> ttl p = TTL b \<and>
         reverse_network_tuple p = \<lparr>nt_src = src, nt_dst = dst, nt_tcp = False\<rparr>)
       (concat (map udp_written (ws @ cs))) ps"
proof -
  have s: "us_sent s = []" "us_first_payload s = Some first" "us_dst_addr s = dst" "us_src_addr s = src" "us_mtu s = mtu"
    using assms(6) by (simp_all add: udp_stream_new_def)
  note fam = assms(2) [folded s(3,4)]
  have ws: "\<forall>c \<in> set ws. udp_good_call c" and cs: "\<forall>c \<in> set cs. udp_good_call c" using assms(3) by auto
  have none: "concat (map udp_received ws) = []" using assms(4) by auto
  obtain s1 ps where s1: "udp_run b ep ws s = Some (s1, concat (map udp_received ws),
       map (\<lambda>d. min (length d) (udp_room s)) (concat (map udp_written ws)))"
    "us_sent s1 = us_sent s @ ps" "list_all2 (is_datagram ep s (TTL b)) (concat (map udp_written ws)) ps"
    "us_first_payload s1 = us_first_payload s"
    "us_dst_addr s1 = us_dst_addr s" "us_src_addr s1 = us_src_addr s" "us_mtu s1 = us_mtu s"
    using udp_run_ok [OF assms(1) fam ws disjI2, OF assms(4)] .
  let ?s2 = "s1\<lparr>us_first_payload := None\<rparr>"
  have rd: "udp_poll_read cx cap r s1 = Some (?s2, first, Ready (Inr ()))"
    using s1(4) s(2) assms(5) by (simp add: udp_poll_read_def put_slice_def)
  have fam2: "same_family (sa_ip (us_dst_addr ?s2)) (sa_ip (us_src_addr ?s2))" using fam s1 by simp
  have first2: "us_first_payload ?s2 = None" by simp
  obtain s' qs where s': "udp_run b ep cs ?s2 = Some (s', concat (map udp_received cs),
       map (\<lambda>d. min (length d) (udp_room ?s2)) (concat (map udp_written cs)))"
    "us_sent s' = us_sent ?s2 @ qs" "list_all2 (is_datagram ep ?s2 (TTL b)) (concat (map udp_written cs)) qs"
    "us_first_payload s' = us_first_payload ?s2"
    "us_dst_addr s' = us_dst_addr ?s2" "us_src_addr s' = us_src_addr ?s2" "us_mtu s' = us_mtu ?s2"
    using udp_run_ok [OF assms(1) fam2 cs disjI1, OF first2] .
  note cong = is_datagram_cong [of ?s2 s, simplified, OF s1(5-7)]
  have "udp_run b ep (ws @ UdpRead cx cap r # cs) s =
      Some (s', first # concat (map udp_received cs),
        map (\<lambda>d. min (length d) (udp_room s)) (concat (map udp_written (ws @ cs))))"
    using s1(1) rd s'(1) none cong(2) by (simp add: udp_run_append)
  moreover have "list_all2 (is_datagram ep s (TTL b)) (concat (map udp_written (ws @ cs))) (ps @ qs)"
    using s1(3) s'(3) cong(1) by (simp add: list_all2_appendI)
  then have "list_all2 (\<lambda>d p. np_payload p = take (unat mtu - udp_headers_len s) d \<and> ttl p = TTL b \<and>
         reverse_network_tuple p = \<lparr>nt_src = src, nt_dst = dst, nt_tcp = False\<rparr>)
       (concat (map udp_written (ws @ cs))) (ps @ qs)"
    by (rule list_all2_mono) (simp add: is_datagram_key s)
  ultimately show ?thesis using s'(2) s1(2) s(1,5) by (simp add: udp_room_def)
qed


end
