(* ===== verification/Unknown_Transport.thy ===== *)
theory Unknown_Transport
  imports Runtime
begin

text \<open>
  \<open>src/src/stream/unknown.rs\<close>: packets of a transport protocol the stack does not
  handle are given to the application as they are, which may answer with
  \<open>send\<close>. The loop of \<open>send\<close> need not end, so it is a partial function: its result
  is \<open>None\<close> when the loop runs forever, \<open>Some None\<close> when it panics, and otherwise
  \<open>Some\<close> of the handle and the result.
\<close>

section \<open>State and operations\<close>

text \<open>\<open>ut_sent\<close> is what has been sent on \<open>packet_sender\<close>, oldest first.\<close>

record 'x unknown_transport =
  ut_src_addr :: ip_addr
  ut_dst_addr :: ip_addr
  ut_payload :: bytes
  ut_protocol :: ip_number
  ut_mtu :: u16
  ut_sent :: "'x network_packet list"

definition unknown_new ::
  "ip_addr \<Rightarrow> ip_addr \<Rightarrow> bytes \<Rightarrow> 'x ip_header \<Rightarrow> u16 \<Rightarrow> 'x unknown_transport" where
  "unknown_new src dst payload ip mtu =
     (let protocol = (case ip of Ipv4 ip \<Rightarrow> ipv4_protocol ip | Ipv6 ip \<Rightarrow> ipv6_next_header ip)
      in \<lparr>ut_src_addr = src, ut_dst_addr = dst, ut_payload = payload, ut_protocol = protocol,
          ut_mtu = mtu, ut_sent = []\<rparr>)"

definition unknown_src_addr :: "'x unknown_transport \<Rightarrow> ip_addr" where
  [simp]: "unknown_src_addr s = ut_src_addr s"

definition unknown_dst_addr :: "'x unknown_transport \<Rightarrow> ip_addr" where
  [simp]: "unknown_dst_addr s = ut_dst_addr s"

definition unknown_payload :: "'x unknown_transport \<Rightarrow> bytes" where
  [simp]: "unknown_payload s = ut_payload s"

definition unknown_ip_protocol :: "'x unknown_transport \<Rightarrow> ip_number" where
  [simp]: "unknown_ip_protocol s = ut_protocol s"

text \<open>
  \<open>create_rev_packet\<close> takes the packet's payload out of the vector it is given; the
  first component of the result is what it leaves there.
\<close>

definition unknown_create_rev_packet ::
  "build \<Rightarrow> 'x etherparse \<Rightarrow> 'x unknown_transport \<Rightarrow> bytes \<Rightarrow> (bytes \<times> (io_error + 'x network_packet)) option" where
  "unknown_create_rev_packet b ep s payload =
     (case (ut_dst_addr s, ut_src_addr s) of
        (V4 dst, V4 src) \<Rightarrow>
          (case ok_or_io ValueTooBigErrorU16 (ipv4_new ep 0 (TTL b) (ut_protocol s) dst src) of
             Inl e \<Rightarrow> Some (payload, Inl e)
           | Inr ip_h \<Rightarrow>
             (let line_buffer = unat (saturating_sub (ut_mtu s) (of_nat (ipv4_header_len ep ip_h)));
                  (p, payload) = (if length payload > line_buffer
                                  then (take line_buffer payload, drop line_buffer payload)
                                  else (payload, []))
              in case ok_or_io ValueTooBigErrorUsize (ipv4_set_payload_len ep ip_h (length p)) of
                   Inl e \<Rightarrow> Some (payload, Inl e)
                 | Inr ip_h \<Rightarrow>
                     Some (payload, Inr \<lparr>np_ip = Ipv4 ip_h, np_transport = Unknown, np_payload = p\<rparr>)))
      | (V6 dst, V6 src) \<Rightarrow>
          (let ip_h = \<lparr>ipv6_traffic_class = 0, ipv6_flow_label = 0, ipv6_payload_length = 0,
                       ipv6_next_header = IpNumber_UDP, ipv6_hop_limit = TTL b,
                       ipv6_source = dst, ipv6_destination = src\<rparr>;
               line_buffer = unat (saturating_sub (ut_mtu s) (of_nat (ipv6_header_len ep ip_h)));
               payload = take line_buffer payload;
               ip_h = ip_h\<lparr>ipv6_payload_length := of_nat (length payload)\<rparr>;
               (p, payload) = (if length payload > line_buffer
                               then (take line_buffer payload, drop line_buffer payload)
                               else (payload, []))
           in Some (payload, Inr \<lparr>np_ip = Ipv6 ip_h, np_transport = Unknown, np_payload = p\<rparr>))
      | _ \<Rightarrow> None)"

partial_function (option) unknown_send ::
  "build \<Rightarrow> 'x etherparse \<Rightarrow> cx \<Rightarrow> bytes \<Rightarrow> 'x unknown_transport \<Rightarrow>
   ('x unknown_transport \<times> (io_error + unit)) option option" where
  "unknown_send b ep cx payload s =
     (case unknown_create_rev_packet b ep s payload of
        None \<Rightarrow> Some None
      | Some (payload, Inl e) \<Rightarrow> Some (Some (s, Inl e))
      | Some (payload, Inr packet) \<Rightarrow>
          (case mpsc_send cx (ut_sent s) packet of
             None \<Rightarrow> Some (Some (s, Inl (CustomMessage Other ''send error'')))
           | Some sent \<Rightarrow>
               if payload = [] then Some (Some (s\<lparr>ut_sent := sent\<rparr>, Inr ()))
               else unknown_send b ep cx payload (s\<lparr>ut_sent := sent\<rparr>)))"

section \<open>One packet\<close>

definition unknown_headers_len :: "'x unknown_transport \<Rightarrow> nat" where
  "unknown_headers_len s = (case ut_dst_addr s of V4 _ \<Rightarrow> 20 | V6 _ \<Rightarrow> 40)"

definition unknown_room :: "'x unknown_transport \<Rightarrow> nat" where
  "unknown_room s = unat (ut_mtu s) - unknown_headers_len s"

definition carries ::
  "build \<Rightarrow> 'x etherparse \<Rightarrow> 'x unknown_transport \<Rightarrow> bytes \<Rightarrow> 'x network_packet \<Rightarrow> bool" where
  "carries b ep s d p \<longleftrightarrow>
     src_addr p = \<lparr>sa_ip = ut_dst_addr s, sa_port = 0\<rparr> \<and> dst_addr p = \<lparr>sa_ip = ut_src_addr s, sa_port = 0\<rparr> \<and>
     np_transport p = Unknown \<and> ttl p = TTL b \<and> np_payload p = d \<and>
     wire_len ep p = unknown_headers_len s + length d \<and>
     (case np_ip p of Ipv4 h \<Rightarrow> ipv4_protocol h = ut_protocol s | Ipv6 h \<Rightarrow> ipv6_next_header h = IpNumber_UDP)"

lemma unknown_create_rev_packet_V4:
  assumes ok: "etherparse_ok ep" and "ut_dst_addr s = V4 d" "ut_src_addr s = V4 r"
  obtains p where
    "unknown_create_rev_packet b ep s payload = Some (drop (unknown_room s) payload, Inr p)"
    "carries b ep s (take (unknown_room s) payload) p"
proof -
  let ?pl = "take (unknown_room s) payload"
  obtain i where i: "ipv4_new ep 0 (TTL b) (ut_protocol s) d r = Some i" "ipv4_time_to_live i = TTL b"
      "ipv4_protocol i = ut_protocol s" "ipv4_source i = d" "ipv4_destination i = r" "ipv4_header_len ep i = 20"
    using ipv4_new_ok [OF ok] by metis
  have room: "unat (saturating_sub (ut_mtu s) 20) = unknown_room s"
    using assms(2) by (simp add: unknown_room_def unknown_headers_len_def unat_saturating_sub)
  have "length ?pl + 20 \<le> 65535"
    using unat_u16_le [of "ut_mtu s"] assms(2) by (auto simp: unknown_room_def unknown_headers_len_def)
  then obtain x where x: "ipv4_set_payload_len ep i (length ?pl) = Some (i\<lparr>ipv4_rest := x\<rparr>)"
      "ipv4_header_len ep (i\<lparr>ipv4_rest := x\<rparr>) = 20"
    using ipv4_set_payload_len_ok [OF ok, of i "length ?pl"] i(6) by auto
  have "unknown_create_rev_packet b ep s payload = Some (drop (unknown_room s) payload,
      Inr \<lparr>np_ip = Ipv4 (i\<lparr>ipv4_rest := x\<rparr>), np_transport = Unknown, np_payload = ?pl\<rparr>)"
    using i x(1) assms(2,3) by (simp add: unknown_create_rev_packet_def Let_def room min_def split: if_splits)
  with that i x assms show thesis
    by (simp add: carries_def src_addr_def dst_addr_def ttl_def wire_len_def ip_len_def transport_len_def
        unknown_headers_len_def)
qed

lemma unknown_create_rev_packet_V6:
  assumes ok: "etherparse_ok ep" and "ut_dst_addr s = V6 d" "ut_src_addr s = V6 r"
  obtains p where
    "unknown_create_rev_packet b ep s payload = Some ([], Inr p)" "carries b ep s (take (unknown_room s) payload) p"
proof -
  have room: "unat (saturating_sub (ut_mtu s) 40) = unknown_room s"
    using assms(2) by (simp add: unknown_room_def unknown_headers_len_def unat_saturating_sub)
  have "unknown_create_rev_packet b ep s payload = Some ([],
      Inr \<lparr>np_ip = Ipv6 \<lparr>ipv6_traffic_class = 0, ipv6_flow_label = 0,
                    ipv6_payload_length = of_nat (length (take (unknown_room s) payload)),
                    ipv6_next_header = IpNumber_UDP, ipv6_hop_limit = TTL b, ipv6_source = d, ipv6_destination = r\<rparr>,
           np_transport = Unknown, np_payload = take (unknown_room s) payload\<rparr>)"
    using assms(2,3) by (simp add: unknown_create_rev_packet_def Let_def room ipv6_header_len_ok [OF ok])
  with that assms show thesis
    by (simp add: carries_def src_addr_def dst_addr_def ttl_def wire_len_def ip_len_def transport_len_def
        unknown_headers_len_def ipv6_header_len_ok [OF ok])
qed

lemma carries_limit:
  "carries b ep s (take (unknown_room s) payload) p \<Longrightarrow> wire_len ep p \<le> max (unat (ut_mtu s)) (unknown_headers_len s)"
  by (auto simp: carries_def unknown_room_def)

interpretation unknown_reply: reply_builder
  "\<lambda>(ep :: 'x etherparse) s (b, payload). map_option snd (unknown_create_rev_packet b ep s payload)"
  "\<lambda>s. \<lparr>sa_ip = ut_src_addr s, sa_port = 0\<rparr>" "\<lambda>s. \<lparr>sa_ip = ut_dst_addr s, sa_port = 0\<rparr>"
  False "\<lambda>s. max (unat (ut_mtu s)) (unknown_headers_len s)"
proof unfold_locales
  fix ep :: "'x etherparse" and s :: "'x unknown_transport" and a :: "build \<times> bytes"
  assume ok: "etherparse_ok ep"
    and "same_family (sa_ip \<lparr>sa_ip = ut_dst_addr s, sa_port = 0\<rparr>) (sa_ip \<lparr>sa_ip = ut_src_addr s, sa_port = 0\<rparr>)"
  then have fam: "same_family (ut_dst_addr s) (ut_src_addr s)" by simp
  obtain b payload where a: "a = (b, payload)" by (cases a)
  have "\<exists>rest p. unknown_create_rev_packet b ep s payload = Some (rest, Inr p) \<and>
      carries b ep s (take (unknown_room s) payload) p"
  proof (cases "ut_dst_addr s")
    case (V4 x)
    with fam obtain y where "ut_src_addr s = V4 y" by (auto simp: same_family_def split: ip_addr.splits)
    with V4 unknown_create_rev_packet_V4 [OF ok] show ?thesis by metis
  next
    case (V6 x)
    with fam obtain y where "ut_src_addr s = V6 y" by (auto simp: same_family_def split: ip_addr.splits)
    with V6 unknown_create_rev_packet_V6 [OF ok] show ?thesis by metis
  qed
  with a carries_limit show "\<exists>p. (case a of (b, payload) \<Rightarrow>
         map_option snd (unknown_create_rev_packet b ep s payload)) = Some (Inr p) \<and>
     src_addr p = \<lparr>sa_ip = ut_dst_addr s, sa_port = 0\<rparr> \<and> dst_addr p = \<lparr>sa_ip = ut_src_addr s, sa_port = 0\<rparr> \<and>
     is_tcp p = False \<and> wire_len ep p \<le> max (unat (ut_mtu s)) (unknown_headers_len s)"
    by (fastforce simp: carries_def is_tcp_def)
qed

section \<open>The loop\<close>

lemma carries_sent: "carries b ep (s\<lparr>ut_sent := x\<rparr>) = carries b ep s"
  by (auto simp: fun_eq_iff carries_def unknown_headers_len_def split: ip_header.splits)

lemma unknown_room_sent: "unknown_room (s\<lparr>ut_sent := x\<rparr>) = unknown_room s"
  by (simp add: unknown_room_def unknown_headers_len_def)

text \<open>One pass on an open channel, for IPv4.\<close>

lemma unknown_send_pass:
  assumes "etherparse_ok ep" "ut_dst_addr s = V4 d" "ut_src_addr s = V4 r" "\<forall>n. cx_send_ok cx n"
  obtains p where "carries b ep s (take (unknown_room s) payload) p"
    "unknown_send b ep cx payload s =
       (if drop (unknown_room s) payload = [] then Some (Some (s\<lparr>ut_sent := ut_sent s @ [p]\<rparr>, Inr ()))
        else unknown_send b ep cx (drop (unknown_room s) payload) (s\<lparr>ut_sent := ut_sent s @ [p]\<rparr>))"
proof -
  obtain p where "unknown_create_rev_packet b ep s payload = Some (drop (unknown_room s) payload, Inr p)"
    "carries b ep s (take (unknown_room s) payload) p"
    using unknown_create_rev_packet_V4 [OF assms(1-3)] .
  with that assms(4) show thesis
    by (simp add: unknown_send.simps [of b ep cx payload s] mpsc_send_def)
qed

text \<open>Induction over the passes of a loop that returns.\<close>

lemmas unknown_send_induct = unknown_send.raw_induct [rotated, consumes 1, case_names pass]

text \<open>The pieces a payload is sent in: full packets and a last one.\<close>

definition pieces :: "nat \<Rightarrow> bytes \<Rightarrow> bytes list \<Rightarrow> bool" where
  "pieces n d ds \<longleftrightarrow> ds \<noteq> [] \<and> concat ds = d \<and> (\<forall>x \<in> set ds. length x \<le> n) \<and> (\<forall>x \<in> set (butlast ds). length x = n)"

lemma pieces_Cons:
  "drop n d \<noteq> [] \<Longrightarrow> pieces n (drop n d) ds \<Longrightarrow> pieces n d (take n d # ds)"
  by (auto simp: pieces_def append_take_drop_id)

lemma pieces_single: "drop n d = [] \<Longrightarrow> pieces n d [take n d]"
  by (simp add: pieces_def)

lemma unknown_send_pieces:
  assumes "etherparse_ok ep" "ut_dst_addr s = V4 d" "ut_src_addr s = V4 r" "\<forall>n. cx_send_ok cx n"
    "0 < unknown_room s \<or> payload = []"
  shows "\<exists>s' ps. unknown_send b ep cx payload s = Some (Some (s', Inr ())) \<and> ut_sent s' = ut_sent s @ ps \<and>
     pieces (unknown_room s) payload (map np_payload ps) \<and> (\<forall>p \<in> set ps. carries b ep s (np_payload p) p)"
  using assms
proof (induction "length payload" arbitrary: payload s rule: less_induct)
  case less
  let ?n = "unknown_room s" and ?rest = "drop (unknown_room s) payload"
  obtain p where p: "carries b ep s (take ?n payload) p"
    "unknown_send b ep cx payload s =
       (if ?rest = [] then Some (Some (s\<lparr>ut_sent := ut_sent s @ [p]\<rparr>, Inr ()))
        else unknown_send b ep cx ?rest (s\<lparr>ut_sent := ut_sent s @ [p]\<rparr>))"
    using unknown_send_pass [OF less.prems(1-4)] .
  then have np: "np_payload p = take ?n payload" by (simp add: carries_def)
  show ?case
  proof (cases "?rest = []")
    case True
    with p np pieces_single [OF True] show ?thesis by (auto intro!: exI [of _ "[p]"])
  next
    case False
    let ?s = "s\<lparr>ut_sent := ut_sent s @ [p]\<rparr>"
    have "length ?rest < length payload" "0 < unknown_room ?s \<or> ?rest = []"
      using False less.prems(5) by (auto simp: unknown_room_sent)
    from less.hyps [OF this(1) less.prems(1) _ _ less.prems(4) this(2)] less.prems(2,3)
    obtain s' ps where "unknown_send b ep cx ?rest ?s = Some (Some (s', Inr ()))" "ut_sent s' = ut_sent ?s @ ps"
      "pieces ?n ?rest (map np_payload ps)" "\<forall>p \<in> set ps. carries b ep s (np_payload p) p"
      by (auto simp: unknown_room_sent carries_sent)
    with p np False pieces_Cons [OF False] show ?thesis by (auto intro!: exI [of _ "p # ps"])
  qed
qed

text \<open>
  C29: \<open>send\<close> of an IPv4 handle returns and sends everything, for every payload, when
  the MTU leaves room for data (or there is none) and the stack is running. The packets it
  sends carry the payload in order, all but the last of them filled to the MTU; each has
  the addresses swapped, the protocol number of the packet that opened the handle and a
  TTL that is not 0, and serialises to at most the MTU.
\<close>

theorem unknown_send_fragments:
  assumes "etherparse_ok ep" "ut_dst_addr s = V4 d" "ut_src_addr s = V4 r" "\<forall>n. cx_send_ok cx n" "20 < unat (ut_mtu s)"
  shows "\<exists>s' ps. unknown_send b ep cx payload s = Some (Some (s', Inr ())) \<and> ut_sent s' = ut_sent s @ ps \<and>
     concat (map np_payload ps) = payload \<and>
     (\<forall>p \<in> set (butlast ps). length (np_payload p) = unat (ut_mtu s) - 20) \<and>
     (\<forall>p \<in> set ps. src_addr p = \<lparr>sa_ip = V4 d, sa_port = 0\<rparr> \<and> dst_addr p = \<lparr>sa_ip = V4 r, sa_port = 0\<rparr> \<and>
        (\<exists>h. np_ip p = Ipv4 h \<and> ipv4_protocol h = ut_protocol s) \<and> ttl p \<noteq> 0 \<and>
        (\<exists>bs. to_bytes ep p = Inr bs \<and> length bs \<le> unat (ut_mtu s)))"
proof -
  have room: "unknown_room s = unat (ut_mtu s) - 20" "unknown_headers_len s = 20"
    using assms(2) by (simp_all add: unknown_room_def unknown_headers_len_def)
  obtain s' ps where s': "unknown_send b ep cx payload s = Some (Some (s', Inr ()))" "ut_sent s' = ut_sent s @ ps"
    "pieces (unknown_room s) payload (map np_payload ps)" "\<forall>p \<in> set ps. carries b ep s (np_payload p) p"
    using unknown_send_pieces [OF assms(1-4), of payload b] assms(5) room by auto
  have ch: "concat (map np_payload ps) = payload" "\<forall>p \<in> set ps. length (np_payload p) \<le> unat (ut_mtu s) - 20"
    "\<forall>p \<in> set (butlast ps). length (np_payload p) = unat (ut_mtu s) - 20"
    using s'(3) room by (auto simp: pieces_def simp flip: map_butlast)
  have "\<exists>bs. to_bytes ep p = Inr bs \<and> length bs \<le> unat (ut_mtu s)" if "p \<in> set ps" for p
  proof -
    obtain x y where "to_bytes ep p = Inr (x @ y @ np_payload p)" "length x = ip_len ep (np_ip p)"
      "length y = transport_len ep (np_transport p)" using assms(1) by (rule to_bytes_split)
    with s'(4) ch(2) that assms(5) room show ?thesis by (fastforce simp: carries_def wire_len_def)
  qed
  moreover have "\<exists>h. np_ip p = Ipv4 h \<and> ipv4_protocol h = ut_protocol s" if "p \<in> set ps" for p
    using s'(4) that assms(2) by (cases "np_ip p") (auto simp: carries_def src_addr_def Let_def)
  ultimately show ?thesis using s' ch assms(2,3) TTL_pos [of b] by (fastforce simp: carries_def)
qed

text \<open>A handle for evaluation: an ICMP packet from 10.0.0.1 to 1.2.3.4.\<close>

definition sample_unknown :: "u16 \<Rightarrow> unit unknown_transport" where
  "sample_unknown mtu = \<lparr>ut_src_addr = V4 0x0A000001, ut_dst_addr = V4 0x01020304, ut_payload = [8, 0],
     ut_protocol = 1, ut_mtu = mtu, ut_sent = []\<rparr>"

theorem unknown_send_fragments_witness:
  "\<exists>s' ps. unknown_send sample_build (sample_etherparse (\<lambda>_. None)) sample_cx [1, 2, 3, 4, 5] (sample_unknown 22) =
      Some (Some (s', Inr ())) \<and> ut_sent s' = ps \<and> concat (map np_payload ps) = [1, 2, 3, 4, 5]"
proof -
  have "ut_dst_addr (sample_unknown 22) = V4 0x01020304" "ut_src_addr (sample_unknown 22) = V4 0x0A000001"
    "\<forall>n. cx_send_ok sample_cx n" "20 < unat (ut_mtu (sample_unknown 22))" "ut_sent (sample_unknown 22) = []"
    by (simp_all add: sample_unknown_def sample_cx_def)
  from unknown_send_fragments [OF sample_etherparse_ok this(1-4)] this(5) show ?thesis by fastforce
qed

text \<open>
  C36: with an MTU that leaves no room (at most the 20 bytes of the header), \<open>send\<close> of
  a non-empty payload over IPv4 never returns: every pass sends an empty packet and
  leaves the payload as it was.
\<close>

theorem unknown_send_diverges:
  assumes "etherparse_ok ep" "ut_dst_addr s = V4 d" "ut_src_addr s = V4 r" "\<forall>n. cx_send_ok cx n"
    "unat (ut_mtu s) \<le> 20" "payload \<noteq> []"
  shows "unknown_send b ep cx payload s = None"
proof -
  have "\<not> (etherparse_ok ep \<and> ut_dst_addr s = V4 d \<and> ut_src_addr s = V4 r \<and> (\<forall>n. cx_send_ok cx n) \<and>
        unat (ut_mtu s) \<le> 20 \<and> payload \<noteq> [])"
    if "unknown_send b ep cx payload s = Some y" for y
    using that
  proof (induction b ep cx payload s y rule: unknown_send_induct)
    case (pass f b ep cx payload s y)
    show ?case
    proof
      assume a: "etherparse_ok ep \<and> ut_dst_addr s = V4 d \<and> ut_src_addr s = V4 r \<and> (\<forall>n. cx_send_ok cx n) \<and>
        unat (ut_mtu s) \<le> 20 \<and> payload \<noteq> []"
      then have room: "unknown_room s = 0" by (simp add: unknown_room_def unknown_headers_len_def)
      from a obtain p where p: "unknown_create_rev_packet b ep s payload = Some (drop (unknown_room s) payload, Inr p)"
        using unknown_create_rev_packet_V4 by metis
      have "f b ep cx payload (s\<lparr>ut_sent := ut_sent s @ [p]\<rparr>) = Some y"
        using pass(2) a by (simp add: p room mpsc_send_def)
      from pass(1) [OF this] a show False by simp
    qed
  qed
  with assms show ?thesis by (cases "unknown_send b ep cx payload s") auto
qed

theorem unknown_send_diverges_witness:
  "unknown_send sample_build (sample_etherparse (\<lambda>_. None)) sample_cx [1] (sample_unknown 20) = None"
proof -
  have "ut_dst_addr (sample_unknown 20) = V4 0x01020304" "ut_src_addr (sample_unknown 20) = V4 0x0A000001"
    "\<forall>n. cx_send_ok sample_cx n" "unat (ut_mtu (sample_unknown 20)) \<le> 20" "[1] \<noteq> ([] :: bytes)"
    by (simp_all add: sample_unknown_def sample_cx_def)
  from unknown_send_diverges [OF sample_etherparse_ok this] show ?thesis .
qed

text \<open>
  C37: \<open>send\<close> of an IPv6 handle sends exactly one packet and succeeds. It carries the
  first bytes of the payload, as many as the MTU leaves room for, and whatever does not
  fit is dropped without an error; its next-header field says UDP whatever the protocol of
  the handle.
\<close>

theorem unknown_send_v6:
  assumes "etherparse_ok ep" "ut_dst_addr s = V6 d" "ut_src_addr s = V6 r" "cx_send_ok cx (length (ut_sent s))"
  shows "\<exists>p h. unknown_send b ep cx payload s = Some (Some (s\<lparr>ut_sent := ut_sent s @ [p]\<rparr>, Inr ())) \<and>
     np_payload p = take (unat (ut_mtu s) - 40) payload \<and> np_ip p = Ipv6 h \<and>
     ipv6_next_header h = IpNumber_UDP \<and> ipv6_source h = d \<and> ipv6_destination h = r"
proof -
  obtain p where p: "unknown_create_rev_packet b ep s payload = Some ([], Inr p)"
    "carries b ep s (take (unknown_room s) payload) p"
    using unknown_create_rev_packet_V6 [OF assms(1-3)] .
  from p(2) assms(2,3) obtain h where "np_ip p = Ipv6 h" "ipv6_next_header h = IpNumber_UDP" "ipv6_source h = d"
    "ipv6_destination h = r"
    by (cases "np_ip p") (auto simp: carries_def src_addr_def dst_addr_def Let_def)
  moreover have "np_payload p = take (unat (ut_mtu s) - 40) payload"
    using p(2) assms(2) by (simp add: carries_def unknown_room_def unknown_headers_len_def)
  ultimately show ?thesis
    using p(1) assms(4) by (auto simp: unknown_send.simps [of b ep cx payload s] mpsc_send_def)
qed

theorem unknown_send_v6_witness:
  "\<exists>s' p. unknown_send sample_build (sample_etherparse (\<lambda>_. None)) sample_cx [1, 2, 3]
      (sample_unknown 41\<lparr>ut_src_addr := V6 1, ut_dst_addr := V6 2\<rparr>) = Some (Some (s', Inr ())) \<and>
     ut_sent s' = [p] \<and> np_payload p = [1]"
proof -
  let ?s = "sample_unknown 41\<lparr>ut_src_addr := V6 1, ut_dst_addr := V6 2\<rparr>"
  have h: "ut_dst_addr ?s = V6 2" "ut_src_addr ?s = V6 1" "cx_send_ok sample_cx (length (ut_sent ?s))"
    by (simp_all add: sample_unknown_def sample_cx_def)
  have "unat (ut_mtu ?s) - 40 = 1" "ut_sent ?s = []" by (simp_all add: sample_unknown_def)
  with unknown_send_v6 [OF sample_etherparse_ok h, of sample_build "\<lambda>_. None" "[1, 2, 3]"] show ?thesis by auto
qed

end
