(* ===== verification/Streams.thy ===== *)
theory Streams
  imports Tcp_Wrapper Udp Unknown_Transport
begin

text \<open>
  \<open>src/src/stream/mod.rs\<close>: what the stack hands to the application. An address of
  the program is an address and a port, so \<open>SocketAddr::V4\<close> and \<open>V6\<close> with zero flow
  info and scope id are \<open>socket_addr\<close> records.
\<close>

datatype 'x ip_stack_stream =
    TcpStream "'x tcp_handle"
  | UdpStream "'x udp_stream"
  | UnknownTransport "'x unknown_transport"
  | UnknownNetwork bytes

definition stream_local_addr :: "'x ip_stack_stream \<Rightarrow> socket_addr" where
  "stream_local_addr s =
     (case s of
        TcpStream tcp \<Rightarrow> handle_local_addr tcp
      | UdpStream udp \<Rightarrow> udp_local_addr udp
      | UnknownNetwork _ \<Rightarrow> \<lparr>sa_ip = V4 0, sa_port = 0\<rparr>
      | UnknownTransport unknown \<Rightarrow>
          (case unknown_src_addr unknown of
             V4 addr \<Rightarrow> \<lparr>sa_ip = V4 addr, sa_port = 0\<rparr>
           | V6 addr \<Rightarrow> \<lparr>sa_ip = V6 addr, sa_port = 0\<rparr>))"

definition stream_peer_addr :: "'x ip_stack_stream \<Rightarrow> socket_addr" where
  "stream_peer_addr s =
     (case s of
        TcpStream tcp \<Rightarrow> handle_peer_addr tcp
      | UdpStream udp \<Rightarrow> udp_peer_addr udp
      | UnknownNetwork _ \<Rightarrow> \<lparr>sa_ip = V4 0, sa_port = 0\<rparr>
      | UnknownTransport unknown \<Rightarrow>
          (case unknown_dst_addr unknown of
             V4 addr \<Rightarrow> \<lparr>sa_ip = V4 addr, sa_port = 0\<rparr>
           | V6 addr \<Rightarrow> \<lparr>sa_ip = V6 addr, sa_port = 0\<rparr>))"

text \<open>
  The channel on which a stream receives its packets, and the key of its session; the
  streams of the other two kinds have neither.
\<close>

definition sender_of :: "'x ip_stack_stream \<Rightarrow> sender option" where
  "sender_of s =
     (case s of
        TcpStream tcp \<Rightarrow> Some (handle_stream_sender tcp)
      | UdpStream udp \<Rightarrow> Some (udp_stream_sender udp)
      | _ \<Rightarrow> None)"

definition session_of :: "'x ip_stack_stream \<Rightarrow> network_tuple" where
  "session_of s = \<lparr>nt_src = stream_local_addr s, nt_dst = stream_peer_addr s,
     nt_tcp = (case s of TcpStream _ \<Rightarrow> True | _ \<Rightarrow> False)\<rparr>"

end
