(* ===== verification/Stack.thy ===== *)
theory Stack
  imports Streams
begin

text \<open>
  \<open>src/src/lib.rs\<close>: the configuration, and the task that moves packets between the
  device, the streams' channels and the application. What tokio, the device and the
  operating system answer in one step is data of the step (\<open>env\<close> and the events).
\<close>

section \<open>Configuration\<close>

text \<open>The first two bytes of the packet information; the protocol is defined on unix only.\<close>

definition TUN_FLAGS :: bytes where "TUN_FLAGS = [0x00, 0x00]"

definition TUN_PROTO_IP6 :: "build \<Rightarrow> bytes" where
  "TUN_PROTO_IP6 b = (if target b = MacOS then [0x00, 0x0A] else [0x86, 0xdd])"

definition TUN_PROTO_IP4 :: "build \<Rightarrow> bytes" where
  "TUN_PROTO_IP4 b = (if target b = MacOS then [0x00, 0x02] else [0x08, 0x00])"

record ip_stack_config =
  cfg_mtu :: u16
  cfg_packet_information :: bool
  cfg_tcp_timeout :: nat
  cfg_udp_timeout :: nat

text \<open>Durations are in seconds.\<close>

definition config_default :: ip_stack_config where
  "config_default = \<lparr>cfg_mtu = 65535, cfg_packet_information = False, cfg_tcp_timeout = 60, cfg_udp_timeout = 30\<rparr>"

definition config_tcp_timeout :: "ip_stack_config \<Rightarrow> nat \<Rightarrow> ip_stack_config" where
  "config_tcp_timeout c t = c\<lparr>cfg_tcp_timeout := t\<rparr>"

definition config_udp_timeout :: "ip_stack_config \<Rightarrow> nat \<Rightarrow> ip_stack_config" where
  "config_udp_timeout c t = c\<lparr>cfg_udp_timeout := t\<rparr>"

definition config_mtu :: "ip_stack_config \<Rightarrow> u16 \<Rightarrow> ip_stack_config" where
  "config_mtu c m = c\<lparr>cfg_mtu := m\<rparr>"

definition config_packet_information :: "ip_stack_config \<Rightarrow> bool \<Rightarrow> ip_stack_config" where
  "config_packet_information c p = c\<lparr>cfg_packet_information := p\<rparr>"

section \<open>The task's state\<close>

text \<open>
  The sessions, and what the task has done so far, oldest first: the packets sent on the
  streams' channels, the packets sent on the channel \<open>pkt_sender\<close> (those of
  \<open>IpStackTcpStream::new\<close>), the streams given to \<open>accept_sender\<close>, and what was written
  to the device.
\<close>

record 'x stack =
  sk_sessions :: "network_tuple \<rightharpoonup> sender"
  sk_delivered :: "(sender \<times> 'x network_packet) list"
  sk_sent :: "'x network_packet list"
  sk_accepted :: "'x ip_stack_stream list"
  sk_written :: "bytes list"

text \<open>
  What one step is given: the context, the random number of \<open>Tcb::new\<close>, the number of
  the channel it may create, and whether a send on a stream's channel and on the accept
  channel succeeds.
\<close>

record env =
  env_cx :: cx
  env_rnd :: u32
  env_channel :: sender
  env_send_ok :: "sender \<Rightarrow> bool"
  env_accept_ok :: bool

section \<open>Packets from the device\<close>

text \<open>
  \<open>create_stream\<close>: what it sends on \<open>pkt_sender\<close>, and the stream with its sender. On
  every other protocol it is \<open>unreachable!\<close>.
\<close>

definition create_stream ::
  "build \<Rightarrow> 'x etherparse \<Rightarrow> env \<Rightarrow> ip_stack_config \<Rightarrow> 'x network_packet \<Rightarrow>
   ('x network_packet list \<times> (sender \<times> 'x ip_stack_stream) option) option" where
  "create_stream b ep env config packet =
     (case transport_protocol packet of
        ProtoTcp h \<Rightarrow>
          (case handle_new b ep (env_cx env) (env_rnd env) (env_channel env) (src_addr packet) (dst_addr packet) h
                  (cfg_mtu config) (cfg_tcp_timeout config) of
             None \<Rightarrow> None
           | Some (sent, Inr stream) \<Rightarrow> Some (sent, Some (handle_stream_sender stream, TcpStream stream))
           | Some (sent, Inl e) \<Rightarrow> Some (sent, None))
      | ProtoUdp \<Rightarrow>
          (let stream = udp_stream_new (env_cx env) (env_channel env) (src_addr packet) (dst_addr packet)
                          (np_payload packet) (cfg_mtu config) (cfg_udp_timeout config)
           in Some ([], Some (udp_stream_sender stream, UdpStream stream)))
      | ProtoUnknown \<Rightarrow> None)"

text \<open>The \<open>map\<close> on the result of \<open>create_stream\<close>: the entry is (over)written.\<close>

definition insert_stream ::
  "build \<Rightarrow> 'x etherparse \<Rightarrow> env \<Rightarrow> ip_stack_config \<Rightarrow> 'x network_packet \<Rightarrow> 'x stack \<Rightarrow>
   ('x stack \<times> 'x ip_stack_stream option) option" where
  "insert_stream b ep env config packet st =
     (case create_stream b ep env config packet of
        None \<Rightarrow> None
      | Some (sent, r) \<Rightarrow>
          (let st = st\<lparr>sk_sent := sk_sent st @ sent\<rparr> in
           case r of
             None \<Rightarrow> Some (st, None)
           | Some (sender, stream) \<Rightarrow>
               Some (st\<lparr>sk_sessions := (sk_sessions st)(network_tuple_of packet \<mapsto> sender)\<rparr>, Some stream)))"

definition process_device_read ::
  "build \<Rightarrow> 'x etherparse \<Rightarrow> env \<Rightarrow> ip_stack_config \<Rightarrow> bytes \<Rightarrow> 'x stack \<Rightarrow>
   ('x stack \<times> 'x ip_stack_stream option) option" where
  "process_device_read b ep env config data st =
     (case parse ep data of
        Inl _ \<Rightarrow> Some (st, Some (UnknownNetwork data))
      | Inr packet \<Rightarrow>
          if transport_protocol packet = ProtoUnknown then
            Some (st, Some (UnknownTransport (unknown_new (sa_ip (src_addr packet)) (sa_ip (dst_addr packet))
                              (np_payload packet) (np_ip packet) (cfg_mtu config))))
          else
            (case sk_sessions st (network_tuple_of packet) of
               Some sender \<Rightarrow>
                 if env_send_ok env sender
                 then Some (st\<lparr>sk_delivered := sk_delivered st @ [(sender, packet)]\<rparr>, None)
                 else insert_stream b ep env config packet st
             | None \<Rightarrow> insert_stream b ep env config packet st))"

section \<open>Packets from the streams\<close>

text \<open>\<open>dev\<close> is what \<open>write_all\<close> answers.\<close>

definition packet_information :: "build \<Rightarrow> bool \<Rightarrow> 'x network_packet \<Rightarrow> bytes" where
  "packet_information b pi packet =
     (if cfg_unix b \<and> pi
      then TUN_FLAGS @ (if is_ipv4 (src_addr packet) then TUN_PROTO_IP4 b else TUN_PROTO_IP6 b)
      else [])"

definition process_upstream_recv ::
  "build \<Rightarrow> 'x etherparse \<Rightarrow> (bytes \<Rightarrow> io_error + unit) \<Rightarrow> bool \<Rightarrow> 'x network_packet \<Rightarrow> 'x stack \<Rightarrow>
   ip_stack_error + 'x stack" where
  "process_upstream_recv b ep dev pi packet st =
     (if ttl packet = 0 then
        Inr (st\<lparr>sk_sessions := (sk_sessions st)(reverse_network_tuple packet := None)\<rparr>)
      else
        (case to_bytes ep packet of
           Inl _ \<Rightarrow> Inr st
         | Inr packet_bytes \<Rightarrow>
             (let packet_bytes = packet_information b pi packet @ packet_bytes in
              case dev packet_bytes of
                Inl e \<Rightarrow> Inl (IoError e)
              | Inr _ \<Rightarrow> Inr (st\<lparr>sk_written := sk_written st @ [packet_bytes]\<rparr>))))"

section \<open>The loop\<close>

text \<open>
  One turn of \<open>select!\<close>: a read of the device that succeeded, with the bytes it put
  into the buffer, or a packet received from \<open>pkt_receiver\<close>. A read that fails only
  disables its branch for the turn.
\<close>

datatype 'x event =
    DeviceRead env bytes
  | PacketRecv "bytes \<Rightarrow> io_error + unit" "'x network_packet"

definition offset :: "build \<Rightarrow> ip_stack_config \<Rightarrow> nat" where
  "offset b config = (if cfg_packet_information config \<and> cfg_unix b then 4 else 0)"

text \<open>The slice \<open>&buffer[offset..n]\<close> panics when \<open>offset > n\<close>; \<open>Inl\<close> ends the task.\<close>

fun run_step ::
  "build \<Rightarrow> 'x etherparse \<Rightarrow> ip_stack_config \<Rightarrow> 'x event \<Rightarrow> 'x stack \<Rightarrow> (ip_stack_error + 'x stack) option" where
  "run_step b ep config (DeviceRead env buffer) st =
     (if offset b config > length buffer then None
      else case process_device_read b ep env config (drop (offset b config) buffer) st of
        None \<Rightarrow> None
      | Some (st, None) \<Rightarrow> Some (Inr st)
      | Some (st, Some stream) \<Rightarrow>
          if env_accept_ok env then Some (Inr (st\<lparr>sk_accepted := sk_accepted st @ [stream]\<rparr>))
          else Some (Inl SendError))"
| "run_step b ep config (PacketRecv dev packet) st =
     Some (process_upstream_recv b ep dev (cfg_packet_information config) packet st)"

fun run :: "build \<Rightarrow> 'x etherparse \<Rightarrow> ip_stack_config \<Rightarrow> 'x event list \<Rightarrow> 'x stack \<Rightarrow> (ip_stack_error + 'x stack) option" where
  "run b ep config [] st = Some (Inr st)"
| "run b ep config (e # es) st =
     (case run_step b ep config e st of
        None \<Rightarrow> None
      | Some (Inl err) \<Rightarrow> Some (Inl err)
      | Some (Inr st) \<Rightarrow> run b ep config es st)"

definition stack_init :: "'x stack" where
  "stack_init = \<lparr>sk_sessions = Map.empty, sk_delivered = [], sk_sent = [], sk_accepted = [], sk_written = []\<rparr>"

section \<open>The handle of the application\<close>

text \<open>
  \<open>IpStack\<close>: the receiving end of the accept channel, of which \<open>is_received\<close> streams have been
  taken, and the handle of the task spawned by \<open>run\<close>, which never ends with \<open>Ok\<close>. The
  configuration and the state of the task are those that \<open>run\<close> moves into it.
\<close>

datatype join_handle = Running | Finished ip_stack_error | Panicked

record 'x ip_stack =
  is_config :: ip_stack_config
  is_task :: "'x stack"
  is_handle :: join_handle
  is_received :: nat

definition ip_stack_new :: "ip_stack_config \<Rightarrow> 'x ip_stack" where
  "ip_stack_new config = \<lparr>is_config = config, is_task = stack_init, is_handle = Running, is_received = 0\<rparr>"

definition ip_stack_turn :: "build \<Rightarrow> 'x etherparse \<Rightarrow> 'x event \<Rightarrow> 'x ip_stack \<Rightarrow> 'x ip_stack" where
  "ip_stack_turn b ep e s =
     (if is_handle s = Running then
        (case run_step b ep (is_config s) e (is_task s) of
           None \<Rightarrow> s\<lparr>is_handle := Panicked\<rparr>
         | Some (Inl err) \<Rightarrow> s\<lparr>is_handle := Finished err\<rparr>
         | Some (Inr st) \<Rightarrow> s\<lparr>is_task := st\<rparr>)
      else s)"

text \<open>
  \<open>accept\<close>: the channel gives the streams in the order they were sent; when it is empty, the
  call waits as long as the task runs, and fails afterwards.
\<close>

definition ip_stack_accept :: "'x ip_stack \<Rightarrow> 'x ip_stack \<times> (ip_stack_error + 'x ip_stack_stream) poll" where
  "ip_stack_accept s =
     (if is_received s < length (sk_accepted (is_task s))
      then (s\<lparr>is_received := Suc (is_received s)\<rparr>, Ready (Inr (sk_accepted (is_task s) ! is_received s)))
      else if is_handle s = Running then (s, Pending)
      else (s, Ready (Inl AcceptError)))"

end
