(* ===== verification/Stack_Sessions.thy ===== *)
theory Stack_Sessions
  imports Stack
begin

text \<open>
  The session table of the stack's task: which packets reach which stream, in what order,
  and how sessions begin and end.
\<close>

section \<open>Streams made for a packet\<close>

lemma create_stream_Some:
  assumes "create_stream b ep env config p = Some (sent, Some (c, s))"
  shows "c = env_channel env" "sender_of s = Some c" "session_of s = network_tuple_of p"
proof -
  have "c = env_channel env \<and> sender_of s = Some c \<and> session_of s = network_tuple_of p"
  proof (cases "np_transport p")
    case (Tcp h)
    with assms obtain x where x: "handle_new b ep (env_cx env) (env_rnd env) (env_channel env) (src_addr p) (dst_addr p)
        (wrapper_from h) (cfg_mtu config) (cfg_tcp_timeout config) = Some (sent, Inr x)"
        "c = handle_stream_sender x" "s = TcpStream x"
      by (auto simp: create_stream_def transport_protocol_def split: option.splits sum.splits prod.splits)
    from handle_new_Inr [OF x(1)] obtain y
      where "x = \<lparr>th_inner = Some y, th_peer_addr = dst_addr p, th_local_addr = src_addr p,
                  th_stream_sender = env_channel env\<rparr>" by blast
    with x(2,3) Tcp show ?thesis
      by (simp add: sender_of_def session_of_def handle_stream_sender_def stream_local_addr_def stream_peer_addr_def
          network_tuple_of_def is_tcp_def)
  next
    case (Udp h)
    with assms show ?thesis
      by (auto simp: create_stream_def transport_protocol_def Let_def sender_of_def session_of_def udp_stream_sender_def
          stream_local_addr_def stream_peer_addr_def network_tuple_of_def is_tcp_def udp_stream_new_def
          udp_local_addr_def udp_peer_addr_def)
  next
    case Unknown
    with assms show ?thesis by (simp add: create_stream_def transport_protocol_def)
  qed
  then show "c = env_channel env" "sender_of s = Some c" "session_of s = network_tuple_of p" by simp_all
qed

text \<open>The outcomes of \<open>process_device_read\<close> that do not panic.\<close>

lemma process_device_read_cases:
  assumes "process_device_read b ep env config data st = Some (st', r)"
  obtains
    (network) e where "parse ep data = Inl e" "st' = st" "r = Some (UnknownNetwork data)"
  | (transport) p s where "parse ep data = Inr p" "transport_protocol p = ProtoUnknown" "st' = st"
      "r = Some s" "sender_of s = None"
  | (deliver) p c where "parse ep data = Inr p" "transport_protocol p \<noteq> ProtoUnknown"
      "sk_sessions st (network_tuple_of p) = Some c" "env_send_ok env c" "r = None"
      "st' = st\<lparr>sk_delivered := sk_delivered st @ [(c, p)]\<rparr>"
  | (refuse) p sent where "parse ep data = Inr p" "transport_protocol p \<noteq> ProtoUnknown"
      "create_stream b ep env config p = Some (sent, None)" "r = None"
      "\<forall>c. sk_sessions st (network_tuple_of p) = Some c \<longrightarrow> \<not> env_send_ok env c"
      "st' = st\<lparr>sk_sent := sk_sent st @ sent\<rparr>"
  | (create) p sent s where "parse ep data = Inr p" "transport_protocol p \<noteq> ProtoUnknown"
      "create_stream b ep env config p = Some (sent, Some (env_channel env, s))" "r = Some s"
      "\<forall>c. sk_sessions st (network_tuple_of p) = Some c \<longrightarrow> \<not> env_send_ok env c"
      "st' = st\<lparr>sk_sent := sk_sent st @ sent, sk_sessions := (sk_sessions st)(network_tuple_of p \<mapsto> env_channel env)\<rparr>"
proof (cases "parse ep data")
  case (Inl e)
  with assms network show thesis by (simp add: process_device_read_def)
next
  case (Inr p)
  consider (u) "transport_protocol p = ProtoUnknown"
    | (d) c where "transport_protocol p \<noteq> ProtoUnknown" "sk_sessions st (network_tuple_of p) = Some c" "env_send_ok env c"
    | (i) "transport_protocol p \<noteq> ProtoUnknown" "\<forall>c. sk_sessions st (network_tuple_of p) = Some c \<longrightarrow> \<not> env_send_ok env c"
    by blast
  then show thesis
  proof cases
    case u
    with assms Inr transport show thesis by (auto simp: process_device_read_def sender_of_def)
  next
    case d
    then have "st' = st\<lparr>sk_delivered := sk_delivered st @ [(c, p)]\<rparr>" "r = None"
      using assms Inr by (simp_all add: process_device_read_def)
    with deliver [OF Inr d] show thesis by blast
  next
    case i
    then have "insert_stream b ep env config p st = Some (st', r)"
      using assms Inr by (cases "sk_sessions st (network_tuple_of p)") (auto simp: process_device_read_def)
    then obtain sent x where x: "create_stream b ep env config p = Some (sent, x)"
      "(case x of None \<Rightarrow> Some (st\<lparr>sk_sent := sk_sent st @ sent\<rparr>, None)
        | Some (c, s) \<Rightarrow> Some (st\<lparr>sk_sent := sk_sent st @ sent,
             sk_sessions := (sk_sessions st)(network_tuple_of p \<mapsto> c)\<rparr>, Some s)) = Some (st', r)"
      by (auto simp: insert_stream_def Let_def split: option.splits)
    show thesis
    proof (cases x)
      case None
      with x i Inr refuse show thesis by auto
    next
      case (Some y)
      then obtain c s where y: "x = Some (c, s)" by (cases y) auto
      with x(1) create_stream_Some have "c = env_channel env" by blast
      with x y i Inr create show thesis by auto
    qed
  qed
qed

lemma process_upstream_recv_cases:
  assumes "process_upstream_recv b ep dev pi p st = Inr st'"
  obtains (remove) "ttl p = 0" "st' = st\<lparr>sk_sessions := (sk_sessions st)(reverse_network_tuple p := None)\<rparr>"
  | (skip) e where "ttl p \<noteq> 0" "to_bytes ep p = Inl e" "st' = st"
  | (out) bs where "ttl p \<noteq> 0" "to_bytes ep p = Inr bs"
      "st' = st\<lparr>sk_written := sk_written st @ [packet_information b pi p @ bs]\<rparr>"
proof (cases "ttl p = 0")
  case True
  with assms remove show thesis by (simp add: process_upstream_recv_def)
next
  case False
  show thesis
  proof (cases "to_bytes ep p")
    case (Inl e)
    with False assms skip show thesis by (simp add: process_upstream_recv_def)
  next
    case (Inr bs)
    with False assms out show thesis
      by (cases "dev (packet_information b pi p @ bs)") (simp_all add: process_upstream_recv_def Let_def)
  qed
qed

section \<open>Isolation of the streams\<close>

text \<open>The streams given to the application own channels, each for one session.\<close>

definition owns :: "'x stack \<Rightarrow> sender \<Rightarrow> network_tuple \<Rightarrow> bool" where
  "owns st c k \<longleftrightarrow> (\<exists>s \<in> set (sk_accepted st). sender_of s = Some c \<and> session_of s = k)"

definition stack_inv :: "'x stack \<Rightarrow> bool" where
  "stack_inv st \<longleftrightarrow>
     (\<forall>c k k'. owns st c k \<longrightarrow> owns st c k' \<longrightarrow> k = k') \<and>
     (\<forall>k c. sk_sessions st k = Some c \<longrightarrow> owns st c k) \<and>
     (\<forall>(c, p) \<in> set (sk_delivered st). owns st c (network_tuple_of p))"

lemma owns_accept [simp]:
  "owns (st\<lparr>sk_accepted := sk_accepted st @ [s]\<rparr>) c k \<longleftrightarrow> owns st c k \<or> sender_of s = Some c \<and> session_of s = k"
  by (auto simp: owns_def)

lemma owns_frame [simp]:
  "owns (st\<lparr>sk_sessions := x\<rparr>) = owns st" "owns (st\<lparr>sk_delivered := y\<rparr>) = owns st"
  "owns (st\<lparr>sk_sent := z\<rparr>) = owns st" "owns (st\<lparr>sk_written := w\<rparr>) = owns st"
  by (simp_all add: fun_eq_iff owns_def)

text \<open>A turn of the loop that neither panics nor ends the task; a channel it creates is new.\<close>

fun fresh_channel :: "'x event \<Rightarrow> 'x stack \<Rightarrow> bool" where
  "fresh_channel (DeviceRead env buffer) st \<longleftrightarrow> (\<forall>k. \<not> owns st (env_channel env) k)"
| "fresh_channel (PacketRecv dev p) st \<longleftrightarrow> True"

inductive stack_step :: "build \<Rightarrow> 'x etherparse \<Rightarrow> ip_stack_config \<Rightarrow> 'x stack \<Rightarrow> 'x stack \<Rightarrow> bool"
  for b ep config where
  turn: "run_step b ep config e st = Some (Inr st') \<Longrightarrow> fresh_channel e st \<Longrightarrow> stack_step b ep config st st'"

inductive_cases stack_step_turn: "stack_step b ep config st st'"

lemma stack_inv_accept_other:
  "stack_inv st \<Longrightarrow> sender_of s = None \<Longrightarrow> stack_inv (st\<lparr>sk_accepted := sk_accepted st @ [s]\<rparr>)"
  by (simp add: stack_inv_def)

lemma stack_inv_deliver:
  "stack_inv st \<Longrightarrow> sk_sessions st (network_tuple_of p) = Some c \<Longrightarrow>
   stack_inv (st\<lparr>sk_delivered := sk_delivered st @ [(c, p)]\<rparr>)"
  by (simp add: stack_inv_def)

lemma stack_inv_create:
  assumes "stack_inv st" "sender_of s = Some c" "\<forall>k. \<not> owns st c k"
  shows "stack_inv (st\<lparr>sk_sessions := (sk_sessions st)(session_of s \<mapsto> c), sk_accepted := sk_accepted st @ [s]\<rparr>)"
proof -
  let ?st = "st\<lparr>sk_sessions := (sk_sessions st)(session_of s \<mapsto> c)\<rparr>"
  have "owns (?st\<lparr>sk_accepted := sk_accepted ?st @ [s]\<rparr>) d k \<longleftrightarrow> owns st d k \<or> d = c \<and> session_of s = k" for d k
    using assms(2) unfolding owns_accept by auto
  with assms(1,3) show ?thesis by (auto simp: stack_inv_def)
qed

lemma stack_inv_frame [simp]:
  "stack_inv (st\<lparr>sk_sent := x\<rparr>) \<longleftrightarrow> stack_inv st" "stack_inv (st\<lparr>sk_written := y\<rparr>) \<longleftrightarrow> stack_inv st"
  by (simp_all add: stack_inv_def)

lemma stack_inv_upstream:
  assumes "stack_inv st" "process_upstream_recv b ep dev pi p st = Inr st'"
  shows "stack_inv st'"
proof -
  have "stack_inv (st\<lparr>sk_sessions := (sk_sessions st)(k := None)\<rparr>)" for k
    using assms(1) by (auto simp: stack_inv_def)
  with assms(2,1) show ?thesis by (auto elim: process_upstream_recv_cases)
qed

lemma stack_inv_turn:
  assumes "stack_inv st" "run_step b ep config e st = Some (Inr st')" "fresh_channel e st"
  shows "stack_inv st'"
proof (cases e)
  case (PacketRecv dev p)
  with assms stack_inv_upstream show ?thesis by auto
next
  case (DeviceRead env buffer)
  with assms(2) obtain st1 r where r:
    "process_device_read b ep env config (drop (offset b config) buffer) st = Some (st1, r)"
    "st' = (case r of None \<Rightarrow> st1 | Some s \<Rightarrow> st1\<lparr>sk_accepted := sk_accepted st1 @ [s]\<rparr>)"
    by (auto split: if_splits option.splits)
  from r(1) show ?thesis
  proof (cases rule: process_device_read_cases)
    case (create p sent s)
    note s = create_stream_Some [OF create(3)]
    have "stack_inv (st\<lparr>sk_sent := sk_sent st @ sent\<rparr>)" "\<forall>k. \<not> owns (st\<lparr>sk_sent := sk_sent st @ sent\<rparr>) (env_channel env) k"
      using assms(1,3) DeviceRead by simp_all
    from stack_inv_create [OF this(1) s(2) this(2)] create r(2) s(3) show ?thesis by simp
  qed (use assms(1) r(2) in \<open>auto simp: sender_of_def intro: stack_inv_accept_other stack_inv_deliver\<close>)
qed

interpretation stack_life: invariant "\<lambda>st. st = stack_init" "stack_step b ep config" stack_inv
  for b and ep :: "'x etherparse" and config
proof unfold_locales
  show "stack_inv st" if "st = stack_init" for st :: "'x stack"
    using that by (simp add: stack_inv_def stack_init_def owns_def)
qed (auto elim!: stack_step_turn intro: stack_inv_turn)

section \<open>Evaluation\<close>

text \<open>
  A slicer for evaluation: the first byte says what the packet is, a UDP datagram from
  10.0.0.1 to 8.8.8.8 (17) with the rest as its payload, a TCP segment from 10.0.0.1 to
  1.2.3.4 (6) with its flags in the second byte (a SYN, or the next segment, which acknowledges 101) and then its payload, or ICMP (1); nothing else is IP.
\<close>

definition sample_slicer :: "bytes \<Rightarrow> unit sliced_packet option" where
  "sample_slicer bs =
     (case bs of
        [] \<Rightarrow> None
      | x # d \<Rightarrow>
          (let ip = \<lparr>ipv4_time_to_live = 64, ipv4_protocol = x, ipv4_dont_fragment = True,
                     ipv4_source = 0x0A000001, ipv4_destination = 0x08080808, ipv4_rest = ()\<rparr>
           in if x = 17 then
                Some \<lparr>net = Some (NetIpv4 ip d),
                      transport_slice = Some (SliceUdp \<lparr>udp_source_port = 5353, udp_destination_port = 53, udp_rest = ()\<rparr> d)\<rparr>
              else if x = 6 then
                Some \<lparr>net = Some (NetIpv4 (ip\<lparr>ipv4_destination := 0x01020304\<rparr>) d),
                      transport_slice = Some (SliceTcp (if hd d = SYN then sample_tcp 7 0 SYN 64 else sample_tcp 8 101 (hd d) 64) (tl d))\<rparr>
              else if x = 1 then Some \<lparr>net = Some (NetIpv4 ip d), transport_slice = None\<rparr>
              else None))"

definition sample_env :: "sender \<Rightarrow> env" where
  "sample_env c = \<lparr>env_cx = sample_cx, env_rnd = 0, env_channel = c, env_send_ok = (\<lambda>_. True), env_accept_ok = True\<rparr>"

abbreviation sample_net :: "unit etherparse" where
  "sample_net \<equiv> sample_etherparse sample_slicer"

definition sample_key :: network_tuple where
  "sample_key = \<lparr>nt_src = \<lparr>sa_ip = V4 0x0A000001, sa_port = 5353\<rparr>, nt_dst = \<lparr>sa_ip = V4 0x08080808, sa_port = 53\<rparr>,
     nt_tcp = False\<rparr>"

lemma sample_parse:
  "\<exists>p. parse sample_net (17 # d) = Inr p \<and> transport_protocol p = ProtoUdp \<and> network_tuple_of p = sample_key \<and>
       np_payload p = d"
  "\<exists>p. parse sample_net (6 # fl # d) = Inr p \<and>
       np_transport p = Tcp (if fl = SYN then sample_tcp 7 0 SYN 64 else sample_tcp 8 101 fl 64) \<and>
       network_tuple_of p = \<lparr>nt_src = sample_src, nt_dst = sample_dst, nt_tcp = True\<rparr> \<and> np_payload p = d"
  by (simp_all add: parse_def sample_etherparse_def sample_slicer_def parse_transport_def transport_protocol_def
      network_tuple_of_def is_tcp_def src_addr_def dst_addr_def sample_key_def
      sample_tcp_def)

text \<open>A datagram opens a session on channel 1.\<close>

lemma sample_opened:
  obtains st s where "run_step sample_build sample_net config_default (DeviceRead (sample_env 1) (17 # d)) stack_init = Some (Inr st)"
    "sk_sessions st sample_key = Some 1" "sk_accepted st = [UdpStream s]" "sk_delivered st = []" "us_first_payload s = Some d"
    "reachable (\<lambda>st. st = stack_init) (stack_step sample_build sample_net config_default) st"
proof -
  obtain p where p: "parse sample_net (17 # d) = Inr p" "transport_protocol p = ProtoUdp" "network_tuple_of p = sample_key"
    "np_payload p = d" using sample_parse(1) by blast
  let ?s = "udp_stream_new sample_cx 1 (src_addr p) (dst_addr p) d 65535 30"
  let ?st = "stack_init\<lparr>sk_sessions := [sample_key \<mapsto> 1], sk_accepted := [UdpStream ?s]\<rparr>"
  have st: "run_step sample_build sample_net config_default (DeviceRead (sample_env 1) (17 # d)) stack_init = Some (Inr ?st)"
    using p by (simp add: offset_def config_default_def process_device_read_def stack_init_def insert_stream_def
        create_stream_def sample_env_def udp_stream_sender_def udp_stream_new_def)
  have "fresh_channel (DeviceRead (sample_env 1) (17 # d)) (stack_init :: unit stack)" by (simp add: owns_def stack_init_def)
  from turn [OF st this] have "reachable (\<lambda>st. st = stack_init) (stack_step sample_build sample_net config_default) ?st"
    by (auto intro: reachable.intros)
  with that [OF st, of ?s] show thesis by (simp add: stack_init_def udp_stream_new_def)
qed

text \<open>
  C11: streams are isolated. In every run of the stack's task in which a new channel is
  new, whatever the device delivers and the streams send: a packet put into the channel
  of a stream has the addresses, ports and protocol of that stream; a session leads to a
  stream with the session's key; and two sessions never lead to one channel.
\<close>

theorem stack_isolation:
  assumes "reachable (\<lambda>st. st = stack_init) (stack_step b ep config) st"
  shows "(\<forall>c p s. (c, p) \<in> set (sk_delivered st) \<and> s \<in> set (sk_accepted st) \<and> sender_of s = Some c \<longrightarrow>
       network_tuple_of p = session_of s) \<and>
     (\<forall>k c. sk_sessions st k = Some c \<longrightarrow> (\<exists>s \<in> set (sk_accepted st). sender_of s = Some c \<and> session_of s = k)) \<and>
     (\<forall>k k' c. sk_sessions st k = Some c \<and> sk_sessions st k' = Some c \<longrightarrow> k = k')"
proof -
  have "stack_inv st" using assms by (rule stack_life.inv_reachable)
  then have one: "owns st c k \<Longrightarrow> owns st c k' \<Longrightarrow> k = k'"
    and sess: "sk_sessions st k = Some c \<Longrightarrow> owns st c k"
    and del: "(c, p) \<in> set (sk_delivered st) \<Longrightarrow> owns st c (network_tuple_of p)" for c k k' p
    by (auto simp: stack_inv_def)
  have "network_tuple_of p = session_of s"
    if "(c, p) \<in> set (sk_delivered st)" "s \<in> set (sk_accepted st)" "sender_of s = Some c" for c p s
    using one [OF del [OF that(1)], of "session_of s"] that(2,3) by (auto simp: owns_def)
  moreover have "k = k'" if "sk_sessions st k = Some c" "sk_sessions st k' = Some c" for k k' c
    using that sess one by blast
  ultimately show ?thesis using sess by (auto simp: owns_def)
qed

theorem stack_isolation_witness:
  "\<exists>st c s. reachable (\<lambda>st. st = stack_init) (stack_step sample_build sample_net config_default) st \<and>
     sk_sessions st sample_key = Some c \<and> s \<in> set (sk_accepted st) \<and> sender_of s = Some c \<and> session_of s = sample_key"
proof -
  obtain st s where st: "sk_sessions st sample_key = Some 1"
    "reachable (\<lambda>st. st = stack_init) (stack_step sample_build sample_net config_default) st"
    by (rule sample_opened)
  with stack_isolation [OF st(2)] show ?thesis by blast
qed

section \<open>Order of delivery\<close>

text \<open>The packets put into the channel \<open>c\<close>, and the packets of a session an event brings.\<close>

definition delivered_to :: "sender \<Rightarrow> 'x stack \<Rightarrow> 'x network_packet list" where
  "delivered_to c st = map snd (filter (\<lambda>(d, p). d = c) (sk_delivered st))"

fun arriving :: "build \<Rightarrow> 'x etherparse \<Rightarrow> ip_stack_config \<Rightarrow> network_tuple \<Rightarrow> 'x event \<Rightarrow> 'x network_packet list" where
  "arriving b ep config k (DeviceRead env buffer) =
     (case parse ep (drop (offset b config) buffer) of
        Inl _ \<Rightarrow> []
      | Inr p \<Rightarrow> if transport_protocol p \<noteq> ProtoUnknown \<and> network_tuple_of p = k then [p] else [])"
| "arriving b ep config k (PacketRecv dev p) = []"

text \<open>
  The stream of session \<open>k\<close> keeps its receiver, other channels are not \<open>c\<close>, and no
  packet that ends the session is sent.
\<close>

fun keeps_session :: "network_tuple \<Rightarrow> sender \<Rightarrow> 'x event \<Rightarrow> bool" where
  "keeps_session k c (DeviceRead env buffer) \<longleftrightarrow> env_send_ok env c \<and> env_channel env \<noteq> c"
| "keeps_session k c (PacketRecv dev p) \<longleftrightarrow> \<not> (ttl p = 0 \<and> reverse_network_tuple p = k)"

lemma delivered_to_frame [simp]:
  "delivered_to c (st\<lparr>sk_sessions := x\<rparr>) = delivered_to c st" "delivered_to c (st\<lparr>sk_accepted := y\<rparr>) = delivered_to c st"
  "delivered_to c (st\<lparr>sk_sent := z\<rparr>) = delivered_to c st" "delivered_to c (st\<lparr>sk_written := w\<rparr>) = delivered_to c st"
  "delivered_to c (st\<lparr>sk_delivered := sk_delivered st @ [(d, p)]\<rparr>) =
     delivered_to c st @ (if d = c then [p] else [])"
  by (simp_all add: delivered_to_def)

definition serves :: "network_tuple \<Rightarrow> sender \<Rightarrow> 'x stack \<Rightarrow> bool" where
  "serves k c st \<longleftrightarrow> sk_sessions st k = Some c \<and> (\<forall>k'. k' \<noteq> k \<longrightarrow> sk_sessions st k' \<noteq> Some c)"

lemma run_step_serves:
  assumes "run_step b ep config e st = Some (Inr st')" "serves k c st" "keeps_session k c e"
  shows "serves k c st' \<and> delivered_to c st' = delivered_to c st @ arriving b ep config k e"
proof (cases e)
  case (PacketRecv dev p)
  with assms(1) have "process_upstream_recv b ep dev (cfg_packet_information config) p st = Inr st'" by simp
  then show ?thesis
    by (cases rule: process_upstream_recv_cases) (use assms(2,3) PacketRecv in \<open>auto simp: serves_def\<close>)
next
  case (DeviceRead env buffer)
  with assms(1) obtain st1 r where r:
    "process_device_read b ep env config (drop (offset b config) buffer) st = Some (st1, r)"
    "st' = (case r of None \<Rightarrow> st1 | Some s \<Rightarrow> st1\<lparr>sk_accepted := sk_accepted st1 @ [s]\<rparr>)"
    by (auto split: if_splits option.splits)
  note k = assms(2) [unfolded serves_def]
  have ok: "env_send_ok env c" "env_channel env \<noteq> c" using assms(3) DeviceRead by simp_all
  from r(1) show ?thesis
  proof (cases rule: process_device_read_cases)
    case (deliver p d)
    have "d = c \<longleftrightarrow> network_tuple_of p = k" using k deliver(3) by auto
    with deliver r(2) DeviceRead assms(2) show ?thesis by (simp add: serves_def)
  next
    case (refuse p sent)
    with k ok have "network_tuple_of p \<noteq> k" by auto
    with refuse r(2) DeviceRead assms(2) show ?thesis by (simp add: serves_def)
  next
    case (create p sent s)
    with k ok have "network_tuple_of p \<noteq> k" by auto
    with create r(2) DeviceRead k ok show ?thesis by (simp add: serves_def)
  qed (use assms(2) r(2) DeviceRead in \<open>simp_all add: serves_def\<close>)
qed

lemma run_serves:
  assumes "run b ep config es st = Some (Inr st')" "serves k c st" "\<forall>e \<in> set es. keeps_session k c e"
  shows "serves k c st' \<and> delivered_to c st' = delivered_to c st @ concat (map (arriving b ep config k) es)"
  using assms
proof (induction es arbitrary: st)
  case (Cons e es)
  then obtain st1 where st1: "run_step b ep config e st = Some (Inr st1)" "run b ep config es st1 = Some (Inr st')"
    by (auto split: option.splits sum.splits)
  have "serves k c st1 \<and> delivered_to c st1 = delivered_to c st @ arriving b ep config k e"
    using run_step_serves [OF st1(1) Cons.prems(2)] Cons.prems(3) by simp
  with Cons.IH [OF st1(2)] Cons.prems(3) show ?case by simp
qed simp

text \<open>
  C7: a stream receives exactly the packets of its session, in the order in which the
  device delivered them. Take any reachable state with a session \<open>k\<close> on channel \<open>c\<close>
  and any further turns of the loop: reads of packets of this and of other sessions and
  of unknown protocols, and packets of all streams, as long as the stream keeps its
  receiver and no packet that ends the session is sent. Then what was put into the channel
  is what was there before followed by the packets with tuple \<open>k\<close> among those read,
  none lost, repeated or reordered, and the session is still there.
\<close>

theorem stack_delivers_in_order:
  assumes "reachable (\<lambda>st. st = stack_init) (stack_step b ep config) st" "sk_sessions st k = Some c"
    "run b ep config es st = Some (Inr st')" "\<forall>e \<in> set es. keeps_session k c e"
  shows "delivered_to c st' = delivered_to c st @ concat (map (arriving b ep config k) es) \<and> sk_sessions st' k = Some c"
proof -
  have "stack_inv st" using assms(1) by (rule stack_life.inv_reachable)
  then have "serves k c st" using assms(2) unfolding serves_def stack_inv_def by blast
  with run_serves [OF assms(3) _ assms(4)] show ?thesis by (simp add: serves_def)
qed

theorem stack_delivers_in_order_witness:
  "\<exists>st st' p. run_step sample_build sample_net config_default (DeviceRead (sample_env 1) [17, 1]) stack_init = Some (Inr st) \<and>
     run sample_build sample_net config_default [DeviceRead (sample_env 2) [17, 2, 3]] st = Some (Inr st') \<and>
     delivered_to 1 st' = [p] \<and> np_payload p = [2, 3]"
proof -
  obtain st s where st: "run_step sample_build sample_net config_default (DeviceRead (sample_env 1) [17, 1]) stack_init = Some (Inr st)"
    "sk_sessions st sample_key = Some 1" "sk_delivered st = []"
    "reachable (\<lambda>st. st = stack_init) (stack_step sample_build sample_net config_default) st"
    by (rule sample_opened)
  obtain p where p: "parse sample_net [17, 2, 3] = Inr p" "transport_protocol p = ProtoUdp" "network_tuple_of p = sample_key"
    "np_payload p = [2, 3]" using sample_parse(1) by blast
  have r: "run sample_build sample_net config_default [DeviceRead (sample_env 2) [17, 2, 3]] st =
      Some (Inr (st\<lparr>sk_delivered := sk_delivered st @ [(1, p)]\<rparr>))"
    using st(2) p by (simp add: offset_def config_default_def process_device_read_def sample_env_def)
  have "\<forall>e \<in> set [DeviceRead (sample_env 2) [17, 2, 3]]. keeps_session sample_key 1 e" by (simp add: sample_env_def)
  from stack_delivers_in_order [OF st(4,2) r this] st r p show ?thesis
    by (auto simp: delivered_to_def offset_def config_default_def)
qed

section \<open>What is written to the device\<close>

text \<open>What a turn writes to the device, and the packets of a session among those received from the streams.\<close>

fun written_by :: "build \<Rightarrow> 'x etherparse \<Rightarrow> ip_stack_config \<Rightarrow> 'x event \<Rightarrow> bytes list" where
  "written_by b ep config (PacketRecv dev p) =
     (if ttl p = 0 then [] else case to_bytes ep p of
        Inl _ \<Rightarrow> []
      | Inr bs \<Rightarrow> [packet_information b (cfg_packet_information config) p @ bs])"
| "written_by b ep config (DeviceRead env buffer) = []"

fun upstream :: "network_tuple \<Rightarrow> 'x event \<Rightarrow> 'x network_packet list" where
  "upstream k (PacketRecv dev p) = (if reverse_network_tuple p = k then [p] else [])"
| "upstream k (DeviceRead env buffer) = []"

lemma run_step_written:
  assumes "run_step b ep config e st = Some (Inr st')"
  shows "sk_written st' = sk_written st @ written_by b ep config e"
proof (cases e)
  case (PacketRecv dev p)
  with assms have "process_upstream_recv b ep dev (cfg_packet_information config) p st = Inr st'" by simp
  then show ?thesis by (cases rule: process_upstream_recv_cases) (simp_all add: PacketRecv)
next
  case (DeviceRead env buffer)
  with assms obtain st1 r where r:
    "process_device_read b ep env config (drop (offset b config) buffer) st = Some (st1, r)"
    "st' = (case r of None \<Rightarrow> st1 | Some s \<Rightarrow> st1\<lparr>sk_accepted := sk_accepted st1 @ [s]\<rparr>)"
    by (auto split: if_splits option.splits)
  from r(1) show ?thesis by (cases rule: process_device_read_cases) (simp_all add: r(2) DeviceRead)
qed

lemma run_written:
  "run b ep config es st = Some (Inr st') \<Longrightarrow> sk_written st' = sk_written st @ concat (map (written_by b ep config) es)"
proof (induction es arbitrary: st)
  case (Cons e es)
  then obtain st1 where "run_step b ep config e st = Some (Inr st1)" "run b ep config es st1 = Some (Inr st')"
    by (auto simp del: run_step.simps split: option.splits sum.splits)
  with Cons.IH run_step_written show ?case by fastforce
qed simp

lemma upstream_from: "q \<in> set (upstream k e) \<Longrightarrow> \<exists>dev. e = PacketRecv dev q"
  by (cases e) (simp_all split: if_splits)

text \<open>A task that receives the packets of one stream and writes them to a device that takes them.\<close>

lemma run_upstream:
  assumes "\<forall>q \<in> set ps. reverse_network_tuple q = k"
  shows "concat (map (upstream k) (map (PacketRecv dev) ps)) = ps"
    "(\<And>bs. dev bs = Inr ()) \<Longrightarrow> \<exists>st'. run b ep config (map (PacketRecv dev) ps) st = Some (Inr st')"
proof -
  show "concat (map (upstream k) (map (PacketRecv dev) ps)) = ps" using assms by (induction ps) auto
  assume dev: "\<And>bs. dev bs = Inr ()"
  have "\<exists>st'. process_upstream_recv b ep dev pi q st = Inr st'" for pi q st
    by (auto simp: process_upstream_recv_def dev split: sum.splits)
  then show "\<exists>st'. run b ep config (map (PacketRecv dev) ps) st = Some (Inr st')"
    by (induction ps arbitrary: st) (auto, metis sum.simps(6))
qed

text \<open>The packets of a session that the task writes, in the order in which it receives them.\<close>

lemma run_writes_session:
  assumes "run b ep config es st = Some (Inr st')" "concat (map (upstream k) es) = ps"
    "\<forall>q \<in> set ps. ttl q \<noteq> 0 \<and> to_bytes ep q = Inr (ser q)"
  shows "subseq (map (\<lambda>q. packet_information b (cfg_packet_information config) q @ ser q) ps)
     (drop (length (sk_written st)) (sk_written st'))"
proof -
  let ?out = "\<lambda>q. packet_information b (cfg_packet_information config) q @ ser q"
  have "subseq (map ?out (upstream k e)) (written_by b ep config e)" if "e \<in> set es" for e
  proof (cases e)
    case (PacketRecv dev q)
    have "q \<in> set ps" if "reverse_network_tuple q = k" using that \<open>e \<in> set es\<close> assms(2) PacketRecv by force
    with PacketRecv assms(3) show ?thesis by auto
  qed simp
  then have "subseq (map ?out (concat (map (upstream k) es))) (concat (map (written_by b ep config) es))"
    by (induction es) (auto intro: list_emb_append_mono)
  with assms(2) run_written [OF assms(1)] show ?thesis by simp
qed

section \<open>The first packet of a session\<close>

lemma add_one_in_range: "(x :: u32) \<noteq> - 1 \<Longrightarrow> add_ovf chk x 1 = Some (x + 1)"
proof (intro add_ovf_in_range)
  assume x: "x \<noteq> - 1"
  have "unat x + 1 \<noteq> 2 ^ 32"
  proof
    assume "unat x + 1 = 2 ^ 32"
    then have "unat (x + 1) = 0" by (simp add: unat_word_ariths)
    then have "x + 1 = 0" by (simp only: unat_eq_0)
    with x show False by (simp add: eq_neg_iff_add_eq_0)
  qed
  with unat_u32_less [of x] show "unat x + unat (1 :: u32) < 2 ^ LENGTH(32)" by simp
qed

text \<open>What \<open>new\<close> does with a header that is not a SYN: a reset unless it is one, and the end of the session.\<close>

lemma tcp_stream_new_refused:
  assumes "etherparse_ok ep" "same_family (sa_ip dst) (sa_ip src)" "\<not> tcp_syn (inner tcp)"
    "add_ovf (overflow_checks b) (tcp_sequence_number (inner tcp)) 1 = Some ack" "\<forall>n. cx_send_ok cx n"
  obtains r hr z where
    "tcp_stream_new b ep cx rnd src dst tcp mtu tmo =
       Some ((if tcp_rst (inner tcp) then [] else [r]) @ [z], Inl InvalidTcpPacket)"
    "ttl z = 0" "reverse_network_tuple z = \<lparr>nt_src = src, nt_dst = dst, nt_tcp = True\<rparr>"
    "np_transport r = Tcp hr" "flags (wrapper_from hr) = (RST OR ACK)" "tcp_acknowledgment_number hr = ack"
    "reverse_network_tuple r = \<lparr>nt_src = src, nt_dst = dst, nt_tcp = True\<rparr>" "ttl r = TTL b"
proof -
  let ?s = "\<lparr>ts_src_addr = src, ts_dst_addr = dst, ts_sent = [], ts_packet_to_send = None,
             ts_tcb = tcb_new b rnd (cx_now cx) ack tmo, ts_mtu = mtu,
             ts_shutdown = ShutdownNone, ts_write_notify = None, ts_wakes = []\<rparr>"
  have fam: "family_ok (?s\<lparr>ts_sent := x\<rparr>)" "family_ok ?s" for x using assms(2) by (simp_all add: family_ok_def)
  obtain r where r: "tcp_create_rev_packet b ep ?s (RST OR ACK) (TTL b) None [] = Some (Inr r)"
      "is_reply ep ?s (RST OR ACK) (TTL b) None [] r"
    using tcp_create_rev_packet_ok [OF assms(1) fam(2)] .
  from r(2) obtain hr where hr: "np_transport r = Tcp hr" "tcp_acknowledgment_number hr = ack" "ttl r = TTL b"
    "reverse_network_tuple r = \<lparr>nt_src = src, nt_dst = dst, nt_tcp = True\<rparr>"
    by (auto simp: is_reply_def get_ack_def tcb_new_def reverse_network_tuple_def is_tcp_def)
  have fl: "flags (wrapper_from hr) = (RST OR ACK)" using is_reply_flags [OF r(2) hr(1)] by (simp add: tcp_flags)
  let ?sent = "if tcp_rst (inner tcp) then [] else [r]"
  let ?d = "?s\<lparr>ts_sent := ?sent\<rparr>"
  obtain z where z: "tcp_drop b ep cx ?d = Some (?d\<lparr>ts_sent := ts_sent ?d @ [z]\<rparr>)" "ttl z = 0"
    "reverse_network_tuple z = \<lparr>nt_src = ts_src_addr ?d, nt_dst = ts_dst_addr ?d, nt_tcp = True\<rparr>"
    using tcp_drop_ok [OF assms(1) fam(1) assms(5)] .
  have "tcp_stream_new b ep cx rnd src dst tcp mtu tmo = Some (?sent @ [z], Inl InvalidTcpPacket)"
    using assms(3-5) r(1) z(1) by (cases "tcp_rst (inner tcp)") (simp_all add: tcp_stream_new_def mpsc_send_def)
  moreover have "reverse_network_tuple z = \<lparr>nt_src = src, nt_dst = dst, nt_tcp = True\<rparr>" using z(3) by simp
  ultimately show thesis using that z(2) hr fl by blast
qed

text \<open>A read that finds no live session for a TCP packet.\<close>

definition no_session :: "env \<Rightarrow> 'x network_packet \<Rightarrow> 'x stack \<Rightarrow> bool" where
  "no_session env p st \<longleftrightarrow> (\<forall>c. sk_sessions st (network_tuple_of p) = Some c \<longrightarrow> \<not> env_send_ok env c)"

lemma process_device_read_new:
  assumes "parse ep data = Inr p" "np_transport p = Tcp h" "no_session env p st"
  shows "process_device_read b ep env config data st = insert_stream b ep env config p st"
  using assms by (cases "sk_sessions st (network_tuple_of p)")
    (auto simp: process_device_read_def no_session_def transport_protocol_def)

lemma network_tuple_of_tcp:
  "np_transport p = Tcp h \<Longrightarrow> network_tuple_of p = \<lparr>nt_src = src_addr p, nt_dst = dst_addr p, nt_tcp = True\<rparr>"
  by (simp add: network_tuple_of_def is_tcp_def)

text \<open>A new session on a fresh channel.\<close>

lemma opened_serves:
  assumes "reachable (\<lambda>st. st = stack_init) (stack_step b ep config) st" "fresh_channel (DeviceRead env buf) st"
  shows "serves k (env_channel env) (st\<lparr>sk_sessions := (sk_sessions st)(k \<mapsto> env_channel env), sk_accepted := acc\<rparr>)"
    "delivered_to (env_channel env) st = []"
proof -
  have inv: "stack_inv st" using assms(1) by (rule stack_life.inv_reachable)
  have "sk_sessions st k' \<noteq> Some (env_channel env)" for k'
    using inv assms(2) unfolding stack_inv_def fresh_channel.simps by blast
  then show "serves k (env_channel env) (st\<lparr>sk_sessions := (sk_sessions st)(k \<mapsto> env_channel env), sk_accepted := acc\<rparr>)"
    by (simp add: serves_def)
  show "delivered_to (env_channel env) st = []"
    using inv assms(2) by (auto simp: delivered_to_def stack_inv_def filter_empty_conv)
qed

text \<open>A datagram without a live session opens a stream.\<close>

lemma stack_accepts_datagram:
  assumes "offset b config \<le> length buffer" "parse ep (drop (offset b config) buffer) = Inr p" "np_transport p = Udp h"
    "no_session env p st" "env_accept_ok env"
  shows "run_step b ep config (DeviceRead env buffer) st =
     Some (Inr (st\<lparr>sk_sessions := (sk_sessions st)(network_tuple_of p \<mapsto> env_channel env),
        sk_accepted := sk_accepted st @ [UdpStream (udp_stream_new (env_cx env) (env_channel env) (src_addr p) (dst_addr p)
          (np_payload p) (cfg_mtu config) (cfg_udp_timeout config))]\<rparr>))"
proof -
  have "process_device_read b ep env config (drop (offset b config) buffer) st = insert_stream b ep env config p st"
    using assms(2-4) by (cases "sk_sessions st (network_tuple_of p)")
      (auto simp: process_device_read_def no_session_def transport_protocol_def)
  then show ?thesis
    using assms(1,3,5)
    by (simp add: insert_stream_def create_stream_def transport_protocol_def udp_stream_sender_def udp_stream_new_def)
qed

lemma stack_accepts_syn:
  assumes "offset b config \<le> length buffer" "parse ep (drop (offset b config) buffer) = Inr p" "np_transport p = Tcp h"
    "no_session env p st" "tcp_sequence_number h \<noteq> - 1" "env_accept_ok env" "tcp_syn h"
  obtains x s where
    "run_step b ep config (DeviceRead env buffer) st =
       Some (Inr (st\<lparr>sk_sessions := (sk_sessions st)(network_tuple_of p \<mapsto> env_channel env),
                     sk_accepted := sk_accepted st @ [TcpStream x]\<rparr>))"
    "tcp_stream_new b ep (env_cx env) (env_rnd env) (src_addr p) (dst_addr p) (wrapper_from h)
       (cfg_mtu config) (cfg_tcp_timeout config) = Some ([], Inr s)"
    "th_inner x = Some s" "st_of s = SynReceived False" "get_ack (ts_tcb s) = tcp_sequence_number h + 1"
    "session_of (TcpStream x) = network_tuple_of p" "ts_src_addr s = src_addr p" "ts_dst_addr s = dst_addr p"
proof -
  let ?s = "\<lparr>ts_src_addr = src_addr p, ts_dst_addr = dst_addr p, ts_sent = [], ts_packet_to_send = None,
    ts_tcb = tcb_new b (env_rnd env) (cx_now (env_cx env)) (tcp_sequence_number h + 1) (cfg_tcp_timeout config),
    ts_mtu = cfg_mtu config, ts_shutdown = ShutdownNone, ts_write_notify = None, ts_wakes = []\<rparr>"
  let ?x = "\<lparr>th_inner = Some ?s, th_peer_addr = dst_addr p, th_local_addr = src_addr p,
      th_stream_sender = env_channel env\<rparr>"
  have new: "tcp_stream_new b ep (env_cx env) (env_rnd env) (src_addr p) (dst_addr p) (wrapper_from h)
       (cfg_mtu config) (cfg_tcp_timeout config) = Some ([], Inr ?s)"
    using assms(7) add_one_in_range [OF assms(5)] by (simp add: tcp_stream_new_def inner_def wrapper_from_def)
  have "transport_protocol p = ProtoTcp (wrapper_from h)" using assms(3) by (simp add: transport_protocol_def)
  then have "run_step b ep config (DeviceRead env buffer) st =
      Some (Inr (st\<lparr>sk_sessions := (sk_sessions st)(network_tuple_of p \<mapsto> env_channel env),
                    sk_accepted := sk_accepted st @ [TcpStream ?x]\<rparr>))"
    using assms(1,6) process_device_read_new [OF assms(2-4), of b config] new
    by (simp add: insert_stream_def create_stream_def handle_new_def handle_stream_sender_def)
  moreover have "session_of (TcpStream ?x) = network_tuple_of p"
    using network_tuple_of_tcp [OF assms(3)] by (simp add: session_of_def stream_local_addr_def stream_peer_addr_def)
  moreover have "st_of ?s = SynReceived False" "get_ack (ts_tcb ?s) = tcp_sequence_number h + 1"
    by (simp_all add: get_state_def get_ack_def tcb_new_def Let_def)
  ultimately show thesis using that [of ?x ?s] new by simp
qed

text \<open>What a packet without a session and without the SYN flag is answered with.\<close>

lemma stack_refuses:
  assumes "etherparse_ok ep" "offset b config \<le> length buffer"
    "parse ep (drop (offset b config) buffer) = Inr p" "np_transport p = Tcp h" "no_session env p st"
    "tcp_sequence_number h \<noteq> - 1" "\<forall>n. cx_send_ok (env_cx env) n" "\<not> tcp_syn h"
  obtains r hr z where "run_step b ep config (DeviceRead env buffer) st =
       Some (Inr (st\<lparr>sk_sent := sk_sent st @ (if tcp_rst h then [] else [r]) @ [z]\<rparr>))"
    "np_transport r = Tcp hr" "flags (wrapper_from hr) = (RST OR ACK)"
    "tcp_acknowledgment_number hr = tcp_sequence_number h + 1" "reverse_network_tuple r = network_tuple_of p"
    "ttl z = 0" "reverse_network_tuple z = network_tuple_of p"
proof -
  note read = process_device_read_new [OF assms(3,4,5), of b config]
  note tuple = network_tuple_of_tcp [OF assms(4)]
  have fam: "same_family (sa_ip (dst_addr p)) (sa_ip (src_addr p))"
    using same_family_packet [of p] same_family_sym by blast
  have ovf: "add_ovf (overflow_checks b) (tcp_sequence_number (inner (wrapper_from h))) 1 = Some (tcp_sequence_number h + 1)"
    using add_one_in_range [OF assms(6)] by (simp add: inner_def wrapper_from_def)
  have hd: "tcp_syn (inner (wrapper_from h)) = tcp_syn h" "tcp_rst (inner (wrapper_from h)) = tcp_rst h"
    "transport_protocol p = ProtoTcp (wrapper_from h)"
    using assms(4) by (simp_all add: inner_def wrapper_from_def transport_protocol_def)
  with assms(8) have syn: "\<not> tcp_syn (inner (wrapper_from h))" by simp
  obtain r hr z where r: "tcp_stream_new b ep (env_cx env) (env_rnd env) (src_addr p) (dst_addr p) (wrapper_from h)
      (cfg_mtu config) (cfg_tcp_timeout config) =
      Some ((if tcp_rst (inner (wrapper_from h)) then [] else [r]) @ [z], Inl InvalidTcpPacket)"
    "ttl z = 0" "reverse_network_tuple z = \<lparr>nt_src = src_addr p, nt_dst = dst_addr p, nt_tcp = True\<rparr>"
    "np_transport r = Tcp hr" "flags (wrapper_from hr) = (RST OR ACK)"
    "tcp_acknowledgment_number hr = tcp_sequence_number h + 1"
    "reverse_network_tuple r = \<lparr>nt_src = src_addr p, nt_dst = dst_addr p, nt_tcp = True\<rparr>" "ttl r = TTL b"
    using tcp_stream_new_refused [OF assms(1) fam syn ovf assms(7)] .
  have "run_step b ep config (DeviceRead env buffer) st =
      Some (Inr (st\<lparr>sk_sent := sk_sent st @ (if tcp_rst h then [] else [r]) @ [z]\<rparr>))"
    using assms(2) read r(1) hd(2,3) by (simp add: insert_stream_def create_stream_def handle_new_def)
  with r tuple show thesis by (intro that [of r z hr]) simp_all
qed

text \<open>
  C27: a TCP packet without a live session. If it is a SYN, a stream is handed to the
  application, half-open, expecting the byte after the SYN, with the packet's source and
  destination as its addresses, and registered under the packet's tuple (in place of a
  stream whose receiver is gone). If it is anything else, no stream and no session is
  created; unless it is itself a reset it is answered with RST/ACK, and in any case a
  packet of TTL 0 for the tuple is sent, so that a stale session is removed.
\<close>

theorem stack_tcp_first_packet:
  assumes "etherparse_ok ep" "offset b config \<le> length buffer"
    "parse ep (drop (offset b config) buffer) = Inr p" "np_transport p = Tcp h" "no_session env p st"
    "tcp_sequence_number h \<noteq> - 1" "env_accept_ok env" "\<forall>n. cx_send_ok (env_cx env) n"
  shows "if tcp_syn h
     then \<exists>x s. run_step b ep config (DeviceRead env buffer) st =
             Some (Inr (st\<lparr>sk_sessions := (sk_sessions st)(network_tuple_of p \<mapsto> env_channel env),
                           sk_accepted := sk_accepted st @ [TcpStream x]\<rparr>)) \<and>
           th_inner x = Some s \<and> st_of s = SynReceived False \<and> get_ack (ts_tcb s) = tcp_sequence_number h + 1 \<and>
           session_of (TcpStream x) = network_tuple_of p \<and> ts_src_addr s = src_addr p \<and> ts_dst_addr s = dst_addr p
     else \<exists>r hr z. run_step b ep config (DeviceRead env buffer) st =
             Some (Inr (st\<lparr>sk_sent := sk_sent st @ (if tcp_rst h then [] else [r]) @ [z]\<rparr>)) \<and>
           np_transport r = Tcp hr \<and> flags (wrapper_from hr) = (RST OR ACK) \<and>
           tcp_acknowledgment_number hr = tcp_sequence_number h + 1 \<and> reverse_network_tuple r = network_tuple_of p \<and>
           ttl z = 0 \<and> reverse_network_tuple z = network_tuple_of p"
proof (cases "tcp_syn h")
  case True
  from stack_accepts_syn [OF assms(2-7) True] show ?thesis unfolding if_P [OF True] by metis
next
  case False
  obtain r hr z where "run_step b ep config (DeviceRead env buffer) st =
       Some (Inr (st\<lparr>sk_sent := sk_sent st @ (if tcp_rst h then [] else [r]) @ [z]\<rparr>))"
    "np_transport r = Tcp hr" "flags (wrapper_from hr) = (RST OR ACK)"
    "tcp_acknowledgment_number hr = tcp_sequence_number h + 1" "reverse_network_tuple r = network_tuple_of p"
    "ttl z = 0" "reverse_network_tuple z = network_tuple_of p"
    using stack_refuses [OF assms(1-6,8) False] .
  with False show ?thesis by (simp only: if_False) blast
qed

theorem stack_tcp_first_packet_witness:
  "\<exists>st x. run_step sample_build sample_net config_default (DeviceRead (sample_env 1) [6, SYN]) stack_init = Some (Inr st) \<and>
     sk_accepted st = [TcpStream x] \<and> th_inner x \<noteq> None"
proof -
  obtain p where p: "parse sample_net [6, SYN] = Inr p" "np_transport p = Tcp (sample_tcp 7 0 SYN 64)"
    using sample_parse(2) [of SYN "[]"] by auto
  have h: "offset sample_build config_default \<le> length [6, SYN]"
    "parse sample_net (drop (offset sample_build config_default) [6, SYN]) = Inr p"
    using p(1) by (simp_all add: offset_def config_default_def)
  have e: "no_session (sample_env 1) p stack_init" "tcp_sequence_number (sample_tcp 7 0 SYN 64) \<noteq> - 1"
    "env_accept_ok (sample_env 1)" "\<forall>n. cx_send_ok (env_cx (sample_env 1)) n" "tcp_syn (sample_tcp 7 0 SYN 64)"
    by (simp_all add: no_session_def stack_init_def sample_tcp_def sample_env_def sample_cx_def tcp_flags)
  have "sk_accepted (stack_init\<lparr>sk_sessions := m, sk_accepted := sk_accepted stack_init @ [x]\<rparr>) = [x]" for m and x :: "unit ip_stack_stream"
    by (simp add: stack_init_def)
  with stack_tcp_first_packet [OF sample_etherparse_ok h p(2) e(1-4)] show ?thesis
    unfolding if_P [OF e(5)] by (metis option.distinct(1))
qed

section \<open>Panics of the loop\<close>







end
