(* ===== verification/Stack_Streams.thy ===== *)
theory Stack_Streams
  imports Stack_Sessions
begin

text \<open>
  The streams the stack gives to the application are well formed, which is what the
  theorems about single streams ask for.
\<close>

section \<open>Well-formed streams\<close>

definition stream_typed :: "build \<Rightarrow> 'x etherparse \<Rightarrow> ip_stack_config \<Rightarrow> 'x ip_stack_stream \<Rightarrow> bool" where
  "stream_typed b ep config s =
     (case s of
        TcpStream h \<Rightarrow>
          same_family (sa_ip (th_peer_addr h)) (sa_ip (th_local_addr h)) \<and>
          (\<exists>t. th_inner h = Some t \<and> tcp_init b ep (th_local_addr h) (th_peer_addr h) (cfg_mtu config) t)
      | UdpStream u \<Rightarrow>
          same_family (sa_ip (us_dst_addr u)) (sa_ip (us_src_addr u)) \<and>
          us_mtu u = cfg_mtu config \<and> us_sent u = [] \<and> us_first_payload u \<noteq> None
      | UnknownTransport u \<Rightarrow>
          same_family (ut_dst_addr u) (ut_src_addr u) \<and> ut_mtu u = cfg_mtu config \<and> ut_sent u = []
      | UnknownNetwork d \<Rightarrow> \<exists>e. parse ep d = Inl e)"

lemma create_stream_typed:
  assumes "create_stream b ep env config p = Some (sent, Some (c, s))"
  shows "stream_typed b ep config s"
proof -
  have fam: "same_family (sa_ip (dst_addr p)) (sa_ip (src_addr p))"
    using same_family_packet [of p] same_family_sym by blast
  show ?thesis
  proof (cases "np_transport p")
    case (Tcp h)
    with assms obtain x where x: "handle_new b ep (env_cx env) (env_rnd env) (env_channel env) (src_addr p) (dst_addr p)
        (wrapper_from h) (cfg_mtu config) (cfg_tcp_timeout config) = Some (sent, Inr x)" "s = TcpStream x"
      by (auto simp: create_stream_def transport_protocol_def split: option.splits sum.splits prod.splits)
    from handle_new_Inr [OF x(1)] obtain y where
      "tcp_stream_new b ep (env_cx env) (env_rnd env) (src_addr p) (dst_addr p) (wrapper_from h) (cfg_mtu config)
         (cfg_tcp_timeout config) = Some (sent, Inr y)"
      "x = \<lparr>th_inner = Some y, th_peer_addr = dst_addr p, th_local_addr = src_addr p, th_stream_sender = env_channel env\<rparr>"
      by blast
    with x(2) fam show ?thesis by (simp add: stream_typed_def tcp_init_def) blast
  next
    case (Udp h)
    with assms fam show ?thesis
      by (auto simp: create_stream_def transport_protocol_def Let_def stream_typed_def udp_stream_new_def)
  next
    case Unknown
    with assms show ?thesis by (simp add: create_stream_def transport_protocol_def)
  qed
qed

lemma process_device_read_typed:
  assumes "process_device_read b ep env config data st = Some (st', Some s)"
  shows "stream_typed b ep config s"
  using assms
proof (cases rule: process_device_read_cases)
  case (transport p u)
  then have "same_family (sa_ip (dst_addr p)) (sa_ip (src_addr p))"
    using same_family_packet [of p] same_family_sym by blast
  with transport assms show ?thesis
    by (auto simp: process_device_read_def stream_typed_def unknown_new_def Let_def)
qed (auto simp: stream_typed_def dest: create_stream_typed)

lemma process_device_read_accepted:
  "process_device_read b ep env config data st = Some (st', r) \<Longrightarrow> sk_accepted st' = sk_accepted st"
  by (elim process_device_read_cases) auto

interpretation stack_typing: invariant "\<lambda>st. st = stack_init" "stack_step b ep config"
  "\<lambda>st. \<forall>s \<in> set (sk_accepted st). stream_typed b ep config s"
  for b and ep :: "'x etherparse" and config
proof unfold_locales
  fix st st' :: "'x stack"
  assume inv: "\<forall>s \<in> set (sk_accepted st). stream_typed b ep config s" and "stack_step b ep config st st'"
  then obtain e where e: "run_step b ep config e st = Some (Inr st')" by (elim stack_step_turn)
  show "\<forall>s \<in> set (sk_accepted st'). stream_typed b ep config s"
  proof (cases e)
    case (PacketRecv dev p)
    with e have "process_upstream_recv b ep dev (cfg_packet_information config) p st = Inr st'" by simp
    then have "sk_accepted st' = sk_accepted st" by (elim process_upstream_recv_cases) simp_all
    with inv show ?thesis by simp
  next
    case (DeviceRead env buffer)
    with e obtain st1 r where r:
      "process_device_read b ep env config (drop (offset b config) buffer) st = Some (st1, r)"
      "st' = (case r of None \<Rightarrow> st1 | Some s \<Rightarrow> st1\<lparr>sk_accepted := sk_accepted st1 @ [s]\<rparr>)"
      by (auto split: if_splits option.splits)
    with inv process_device_read_accepted [OF r(1)] show ?thesis
      by (cases r) (auto dest: process_device_read_typed)
  qed
qed (simp add: stack_init_def)

section \<open>Well-formed streams build their packets\<close>

lemma udp_run_addrs:
  "udp_run b ep cs u = Some (u', rds, ns) \<Longrightarrow>
     us_dst_addr u' = us_dst_addr u \<and> us_src_addr u' = us_src_addr u \<and> us_mtu u' = us_mtu u"
proof (induction b ep cs u arbitrary: rds ns rule: udp_run.induct)
  case (2 b ep cx cap r cs s)
  then obtain s1 out res x where s1: "udp_poll_read cx cap r s = Some (s1, out, res)" "udp_run b ep cs s1 = Some (u', x)"
    by (auto split: option.splits)
  have "us_dst_addr s1 = us_dst_addr s \<and> us_src_addr s1 = us_src_addr s \<and> us_mtu s1 = us_mtu s"
    using s1(1) by (auto simp: udp_poll_read_def udp_reset_timeout_def Let_def bind_eq_Some_conv split: option.splits if_splits poll.splits)
  with 2(1) [OF s1(1) refl refl] s1(2) show ?case by (cases x) auto
next
  case (3 b ep cx buf cs s)
  then obtain s1 res x where s1: "udp_poll_write b ep cx buf s = Some (s1, res)" "udp_run b ep cs s1 = Some (u', x)"
    by (auto split: option.splits)
  have "us_dst_addr s1 = us_dst_addr s \<and> us_src_addr s1 = us_src_addr s \<and> us_mtu s1 = us_mtu s"
    using s1(1) by (auto simp: udp_poll_write_def udp_reset_timeout_def Let_def split: option.splits sum.splits)
  with 3(1) [OF s1(1) refl] s1(2) show ?case by (cases x) auto
qed simp

text \<open>
  C15: streams are well typed. Every stream that the stack gives to the application, in any
  run of its task, has two addresses of one family, so none of its packet builders can reach
  the \<open>unreachable!()\<close> for mixed families or fail in any other way: a TCP stream after any
  calls that returned, for all flags, TTLs, sequence numbers and data; a UDP stream after any
  reads and writes; a handle for another protocol for all data. What is not IP is given out
  with exactly its bytes.
\<close>

theorem accepted_streams_typed:
  assumes "reachable (\<lambda>st. st = stack_init) (stack_step b ep config) st" "etherparse_ok ep"
  shows "(\<forall>h. TcpStream h \<in> set (sk_accepted st) \<longrightarrow>
       (\<exists>t. th_inner h = Some t \<and> tcp_init b ep (th_local_addr h) (th_peer_addr h) (cfg_mtu config) t \<and>
         (\<forall>t' fl tt sq d. reachable (\<lambda>x. x = t) (tcp_step b ep) t' \<longrightarrow>
            (\<exists>p. tcp_create_rev_packet b ep t' fl tt sq d = Some (Inr p))))) \<and>
     (\<forall>u. UdpStream u \<in> set (sk_accepted st) \<longrightarrow>
       (\<forall>cs u' rds ns tt d. udp_run b ep cs u = Some (u', rds, ns) \<longrightarrow> (\<exists>p. udp_create_rev_packet ep u' tt d = Some (Inr p)))) \<and>
     (\<forall>u d. UnknownTransport u \<in> set (sk_accepted st) \<longrightarrow>
       (\<exists>rest p. unknown_create_rev_packet b ep u d = Some (rest, Inr p))) \<and>
     (\<forall>d. UnknownNetwork d \<in> set (sk_accepted st) \<longrightarrow> (\<exists>e. parse ep d = Inl e))"
proof (intro conjI allI impI)
  have ty: "stream_typed b ep config s" if "s \<in> set (sk_accepted st)" for s
    using stack_typing.inv_reachable [OF assms(1)] that by blast
  {
    fix h assume "TcpStream h \<in> set (sk_accepted st)"
    from ty [OF this] obtain t where t: "th_inner h = Some t"
      "tcp_init b ep (th_local_addr h) (th_peer_addr h) (cfg_mtu config) t"
      "same_family (sa_ip (th_peer_addr h)) (sa_ip (th_local_addr h))"
      by (auto simp: stream_typed_def)
    have build: "\<exists>p. tcp_create_rev_packet b ep t' fl tt sq d = Some (Inr p)"
      if r: "reachable (\<lambda>x. x = t) (tcp_step b ep) t'" for t' fl tt sq d
    proof -
      have "reachable (tcp_init b ep (th_local_addr h) (th_peer_addr h) (cfg_mtu config)) (tcp_step b ep) t'"
        using r by (rule reachable_mono) (use t(2) in simp)
      then have "life_inv b ep (th_local_addr h) (th_peer_addr h) (cfg_mtu config) t'" by (rule tcp_life.inv_reachable)
      then have "family_ok t'" using t(3) by (simp add: life_inv_def family_ok_def)
      then show ?thesis using tcp_create_rev_packet_ok [OF assms(2)] by metis
    qed
    show "\<exists>t. th_inner h = Some t \<and> tcp_init b ep (th_local_addr h) (th_peer_addr h) (cfg_mtu config) t \<and>
         (\<forall>t' fl tt sq d. reachable (\<lambda>x. x = t) (tcp_step b ep) t' \<longrightarrow>
            (\<exists>p. tcp_create_rev_packet b ep t' fl tt sq d = Some (Inr p)))"
      by (rule exI [of _ t], intro conjI allI impI, rule t(1), rule t(2), rule build)
  }
  {
    fix u cs u' rds ns tt d assume u: "UdpStream u \<in> set (sk_accepted st)" "udp_run b ep cs u = Some (u', rds, ns)"
    have "same_family (sa_ip (us_dst_addr u')) (sa_ip (us_src_addr u'))"
      using ty [OF u(1)] udp_run_addrs [OF u(2)] by (simp add: stream_typed_def)
    then show "\<exists>p. udp_create_rev_packet ep u' tt d = Some (Inr p)"
      using udp_create_rev_packet_ok [OF assms(2)] by metis
  }
  {
    fix u d assume u: "UnknownTransport u \<in> set (sk_accepted st)"
    have "same_family (sa_ip \<lparr>sa_ip = ut_dst_addr u, sa_port = 0\<rparr>) (sa_ip \<lparr>sa_ip = ut_src_addr u, sa_port = 0\<rparr>)"
      using ty [OF u] by (simp add: stream_typed_def)
    from assms(2) this obtain p where "map_option snd (unknown_create_rev_packet b ep u d) = Some (Inr p)"
      by (rule unknown_reply.reply_total [of ep u "(b, d)"]) simp
    then show "\<exists>rest p. unknown_create_rev_packet b ep u d = Some (rest, Inr p)" by auto
  }
  show "\<exists>e. parse ep d = Inl e" if "UnknownNetwork d \<in> set (sk_accepted st)" for d
    using ty [OF that] by (simp add: stream_typed_def)
qed

theorem accepted_streams_typed_witness:
  "\<exists>st u p. reachable (\<lambda>st. st = stack_init) (stack_step sample_build sample_net config_default) st \<and>
     UdpStream u \<in> set (sk_accepted st) \<and> udp_create_rev_packet sample_net u 64 [1, 2] = Some (Inr p)"
proof -
  obtain st s where st: "sk_accepted st = [UdpStream s]"
    "reachable (\<lambda>st. st = stack_init) (stack_step sample_build sample_net config_default) st"
    by (rule sample_opened)
  have "udp_run sample_build sample_net [] s = Some (s, [], [])" "UdpStream s \<in> set (sk_accepted st)"
    using st(1) by simp_all
  moreover from this accepted_streams_typed [OF st(2) sample_etherparse_ok]
  have "\<exists>p. udp_create_rev_packet sample_net s 64 [1, 2] = Some (Inr p)" by blast
  ultimately show ?thesis using st(2) by blast
qed

end
