(* ===== verification/Tun_Examples.thy ===== *)
theory Tun_Examples
  imports Stack_Streams
begin

text \<open>
  The example programs \<open>src/examples/tun2.rs\<close> and \<open>src/examples/tun_wintun.rs\<close>: an
  application of the stack that connects every TCP and UDP stream to a server, in a task that copies
  both ways, and answers ICMPv4 echo requests itself.
\<close>

section \<open>ICMP\<close>

text \<open>
  The interface of etherparse for ICMPv4, whose code is not part of the repository. Of the
  type of a message, the sources tell echo requests and replies apart from the rest.
\<close>

record icmp_echo_header =
  echo_id :: u16
  echo_seq :: u16

datatype icmpv4_type = EchoRequest icmp_echo_header | EchoReply icmp_echo_header | OtherIcmp

record 'h icmpv4 =
  icmp_from_slice :: "bytes \<Rightarrow> ('h \<times> bytes) option"
  icmp_type :: "'h \<Rightarrow> icmpv4_type"
  icmp_new :: "icmpv4_type \<Rightarrow> 'h"
  icmp_update_checksum :: "'h \<Rightarrow> bytes \<Rightarrow> 'h"
  icmp_to_bytes :: "'h \<Rightarrow> bytes"

text \<open>
  Documented behaviour: a slice of fewer than 8 bytes is refused; the header of an echo
  request takes 8 bytes, the rest is its payload; an echo reply made by \<open>new\<close>, with the checksum
  of a payload, is written in 8 bytes, and is read back from them.
\<close>

definition icmp_ok :: "'h icmpv4 \<Rightarrow> bool" where
  "icmp_ok ic \<longleftrightarrow>
     (\<forall>bs. length bs < 8 \<longrightarrow> icmp_from_slice ic bs = None) \<and>
     (\<forall>bs h d e. icmp_from_slice ic bs = Some (h, d) \<and> icmp_type ic h = EchoRequest e \<longrightarrow> length bs = 8 + length d) \<and>
     (\<forall>e d. let bs = icmp_to_bytes ic (icmp_update_checksum ic (icmp_new ic (EchoReply e)) d) in
        length bs = 8 \<and> (\<exists>h. icmp_from_slice ic (bs @ d) = Some (h, d) \<and> icmp_type ic h = EchoReply e))"

definition IpNumber_ICMP :: ip_number where "IpNumber_ICMP = 1"

section \<open>The programs\<close>

definition MTU :: u16 where "MTU = 65535"

text \<open>The levels of verbosity, in the order their derived \<open>Ord\<close> has: that of their discriminants.\<close>

datatype arg_verbosity = Off | Error | Warn | Info | Debug | Trace

fun discriminant :: "arg_verbosity \<Rightarrow> nat" where
  "discriminant Off = 0"
| "discriminant Error = 1"
| "discriminant Warn = 2"
| "discriminant Info = 3"
| "discriminant Debug = 4"
| "discriminant Trace = 5"

lemma discriminant_inj [simp]: "discriminant v = discriminant w \<longleftrightarrow> v = w"
  by (cases v; cases w) simp_all

instantiation arg_verbosity :: linorder
begin

definition less_eq_arg_verbosity :: "arg_verbosity \<Rightarrow> arg_verbosity \<Rightarrow> bool" where
  "v \<le> w \<longleftrightarrow> discriminant v \<le> discriminant w"

definition less_arg_verbosity :: "arg_verbosity \<Rightarrow> arg_verbosity \<Rightarrow> bool" where
  "v < w \<longleftrightarrow> discriminant v < discriminant w"

instance
  by standard (auto simp: less_eq_arg_verbosity_def less_arg_verbosity_def)

end

text \<open>Its derived \<open>Debug\<close>, which \<open>main\<close> formats for the default filter of the log.\<close>

fun verbosity_debug :: "arg_verbosity \<Rightarrow> string" where
  "verbosity_debug Off = ''Off''"
| "verbosity_debug Error = ''Error''"
| "verbosity_debug Warn = ''Warn''"
| "verbosity_debug Info = ''Info''"
| "verbosity_debug Debug = ''Debug''"
| "verbosity_debug Trace = ''Trace''"

text \<open>The arguments of \<open>tun2\<close>, in which only the server has no default; durations are in seconds.\<close>

record args =
  arg_server_addr :: socket_addr
  arg_tcp_timeout :: u64
  arg_udp_timeout :: u64
  arg_verbosity :: arg_verbosity

definition args_default :: "socket_addr \<Rightarrow> args" where
  "args_default server = \<lparr>arg_server_addr = server, arg_tcp_timeout = 60, arg_udp_timeout = 10, arg_verbosity = Info\<rparr>"

definition tun2_config :: "args \<Rightarrow> ip_stack_config" where
  "tun2_config a =
     (let c = config_default;
          c = config_mtu c MTU;
          c = config_tcp_timeout c (unat (arg_tcp_timeout a));
          c = config_udp_timeout c (unat (arg_udp_timeout a))
      in c)"


text \<open>
  The settings \<open>main\<close> makes in the configuration of the crate tun, in the order of the calls. The
  privileges are asked for where \<open>target_os\<close> is linux itself; android and freebsd make the device of MacOS.
\<close>

datatype tun_setting =
    TunAddress ipv4_octets
  | TunNetmask ipv4_octets
  | TunMtu u16
  | TunUp
  | TunDestination ipv4_octets
  | EnsureRootPrivileges bool
  | DeviceGuid "128 word"

definition Ipv4Addr_new :: "u8 \<Rightarrow> u8 \<Rightarrow> u8 \<Rightarrow> u8 \<Rightarrow> ipv4_octets" where
  "Ipv4Addr_new a b c d = word_rcat [a, b, c, d]"

definition tun2_tun_config :: "build \<Rightarrow> tun_setting list" where
  "tun2_tun_config b =
     (let ipv4 = Ipv4Addr_new 10 0 0 33;
          netmask = Ipv4Addr_new 255 255 255 0;
          gateway = Ipv4Addr_new 10 0 0 1
      in [TunAddress ipv4, TunNetmask netmask, TunMtu MTU, TunUp] @
         (if target b \<noteq> Windows then [TunDestination gateway] else []) @
         (if target b = Linux then [EnsureRootPrivileges True] else []) @
         (if target b = Windows then [DeviceGuid 12324323423423434234] else []))"

text \<open>The device of \<open>tun_wintun\<close>: its own on Windows, with an address and a netmask, otherwise one of tun.\<close>

datatype device_setup = TunDevice "tun_setting list" | NewWinTunDevice ipv4_octets ipv4_octets

definition tun_wintun_device :: "build \<Rightarrow> device_setup" where
  "tun_wintun_device b =
     (let ipv4 = Ipv4Addr_new 10 0 0 33;
          netmask = Ipv4Addr_new 255 255 255 0;
          gateway = Ipv4Addr_new 10 0 0 1
      in if target b \<noteq> Windows
         then TunDevice [TunAddress ipv4, TunNetmask netmask, TunMtu MTU, TunUp, TunDestination gateway]
         else NewWinTunDevice ipv4 (Ipv4Addr_new 255 255 255 0))"

text \<open>The errors with which \<open>main\<close> returns.\<close>

datatype main_error = MainAccept ip_stack_error | MainIcmp | MainSend io_error

text \<open>
  The state of \<open>tun2\<close>: the two counters, the streams of the tasks that are copying, and the
  packets sent by \<open>u.send\<close>. A \<open>usize\<close> counter is a 64-bit word.
\<close>

record 'x tun2 =
  tun2_count :: u64
  tun2_serial_number :: u64
  tun2_tasks :: "(u64 \<times> 'x ip_stack_stream) list"
  tun2_sent :: "'x network_packet list"

definition tun2_init :: "'x tun2" where
  "tun2_init = \<lparr>tun2_count = 0, tun2_serial_number = 0, tun2_tasks = [], tun2_sent = []\<rparr>"

text \<open>
  What \<open>main\<close> does before its loop; \<open>create\<close> is \<open>create_as_async\<close> of the crate tun, whose error
  ends \<open>main\<close>.
\<close>

definition tun2_start :: "(tun_setting list \<Rightarrow> 'e + 'd) \<Rightarrow> build \<Rightarrow> args \<Rightarrow> 'e + ('d \<times> 'x ip_stack \<times> 'x tun2)" where
  "tun2_start create b a =
     (case create (tun2_tun_config b) of
        Inl e \<Rightarrow> Inl e
      | Inr device \<Rightarrow> Inr (device, ip_stack_new (tun2_config a), tun2_init))"

text \<open>
  The results below are as for \<open>unknown_send\<close>: \<open>None\<close> when the code runs forever, \<open>Some None\<close> when it
  panics, otherwise an error with which \<open>main\<close> returns, or the new state.
\<close>

definition echo_reply :: "'h icmpv4 \<Rightarrow> icmp_echo_header \<Rightarrow> bytes \<Rightarrow> bytes" where
  "echo_reply ic req req_payload =
     (let echo = \<lparr>echo_id = echo_id req, echo_seq = echo_seq req\<rparr>;
          resp = icmp_new ic (EchoReply echo);
          resp = icmp_update_checksum ic resp req_payload
      in icmp_to_bytes ic resp @ req_payload)"

text \<open>
  The arm for other protocols; the result is what \<open>u.send\<close> sent (after an error of \<open>send\<close>
  \<open>main\<close> returns, whatever was sent before).
\<close>

definition answer_unknown ::
  "build \<Rightarrow> 'x etherparse \<Rightarrow> 'h icmpv4 \<Rightarrow> cx \<Rightarrow> 'x unknown_transport \<Rightarrow> (main_error + 'x network_packet list) option option" where
  "answer_unknown b ep ic cx u =
     (if (case unknown_src_addr u of V4 _ \<Rightarrow> True | V6 _ \<Rightarrow> False) \<and> unknown_ip_protocol u = IpNumber_ICMP then
        (case icmp_from_slice ic (unknown_payload u) of
           None \<Rightarrow> Some (Some (Inl MainIcmp))
         | Some (icmp_header, req_payload) \<Rightarrow>
             (case icmp_type ic icmp_header of
                EchoRequest req \<Rightarrow>
                  (case unknown_send b ep cx (echo_reply ic req req_payload) u of
                     None \<Rightarrow> None
                   | Some None \<Rightarrow> Some None
                   | Some (Some (u', Inl e)) \<Rightarrow> Some (Some (Inl (MainSend e)))
                   | Some (Some (u', Inr _)) \<Rightarrow> Some (Some (Inr (drop (length (ut_sent u)) (ut_sent u')))))
              | _ \<Rightarrow> Some (Some (Inr []))))
      else Some (Some (Inr [])))"

text \<open>
  The arms for TCP and UDP: \<open>connected\<close> is whether the connection to the server succeeds. The
  number that is logged is the counter plus one, with an overflow check.
\<close>

definition tun2_spawn ::
  "build \<Rightarrow> u64 \<Rightarrow> bool \<Rightarrow> 'x ip_stack_stream \<Rightarrow> 'x tun2 \<Rightarrow> (main_error + 'x tun2) option option" where
  "tun2_spawn b number connected stream s =
     (if \<not> connected then Some (Some (Inr s))
      else case add_ovf (overflow_checks b) (tun2_count s) 1 of
             None \<Rightarrow> Some None
           | Some c \<Rightarrow>
               Some (Some (Inr (s\<lparr>tun2_count := tun2_count s + 1, tun2_tasks := tun2_tasks s @ [(number, stream)]\<rparr>))))"

text \<open>One turn of the loop of \<open>main\<close>; \<open>r\<close> is what \<open>accept\<close> answers.\<close>

definition tun2_accept ::
  "build \<Rightarrow> 'x etherparse \<Rightarrow> 'h icmpv4 \<Rightarrow> cx \<Rightarrow> bool \<Rightarrow> ip_stack_error + 'x ip_stack_stream \<Rightarrow> 'x tun2 \<Rightarrow>
   (main_error + 'x tun2) option option" where
  "tun2_accept b ep ic cx connected r s =
     (let number = tun2_serial_number s;
          s = s\<lparr>tun2_serial_number := tun2_serial_number s + 1\<rparr>
      in case r of
           Inl e \<Rightarrow> Some (Some (Inl (MainAccept e)))
         | Inr (TcpStream tcp) \<Rightarrow> tun2_spawn b number connected (TcpStream tcp) s
         | Inr (UdpStream udp) \<Rightarrow> tun2_spawn b number connected (UdpStream udp) s
         | Inr (UnknownTransport u) \<Rightarrow>
             (case answer_unknown b ep ic cx u of
                None \<Rightarrow> None
              | Some None \<Rightarrow> Some None
              | Some (Some (Inl e)) \<Rightarrow> Some (Some (Inl e))
              | Some (Some (Inr sent)) \<Rightarrow> Some (Some (Inr (s\<lparr>tun2_sent := tun2_sent s @ sent\<rparr>))))
         | Inr (UnknownNetwork pkt) \<Rightarrow> Some (Some (Inr s)))"





section \<open>The device\<close>

text \<open>
  The device and the stack agree: a device is given the MTU of the stack once, on every target, and
  no other; its destination lies in the network of its address, and is not set on Windows.
\<close>

fun same_network :: "tun_setting list \<Rightarrow> ipv4_octets \<Rightarrow> ipv4_octets \<Rightarrow> bool" where
  "same_network cs a d \<longleftrightarrow> (\<exists>m. TunNetmask m \<in> set cs \<and> and a m = and d m)"

lemma tun2_device_agrees:
  "TunMtu m \<in> set (tun2_tun_config b) \<longleftrightarrow> m = cfg_mtu (tun2_config a)"
  "TunAddress x \<in> set (tun2_tun_config b) \<Longrightarrow> TunDestination d \<in> set (tun2_tun_config b) \<Longrightarrow> same_network (tun2_tun_config b) x d"
  "(\<exists>d. TunDestination d \<in> set (tun2_tun_config b)) \<longleftrightarrow> target b \<noteq> Windows"
proof -
  show "TunMtu m \<in> set (tun2_tun_config b) \<longleftrightarrow> m = cfg_mtu (tun2_config a)"
    by (auto simp: tun2_tun_config_def tun2_config_def config_mtu_def config_tcp_timeout_def config_udp_timeout_def Let_def)
  have "and (Ipv4Addr_new 10 0 0 33) (Ipv4Addr_new 255 255 255 0) = and (Ipv4Addr_new 10 0 0 1) (Ipv4Addr_new 255 255 255 0)"
    by code_simp
  then show "same_network (tun2_tun_config b) x d"
    if "TunAddress x \<in> set (tun2_tun_config b)" "TunDestination d \<in> set (tun2_tun_config b)"
    using that by (auto simp: tun2_tun_config_def Let_def split: if_splits)
  show "(\<exists>d. TunDestination d \<in> set (tun2_tun_config b)) \<longleftrightarrow> target b \<noteq> Windows"
    by (auto simp: tun2_tun_config_def Let_def)
qed

text \<open>Both programs make the same device, but for the privileges \<open>tun2\<close> asks for on Linux and the device on Windows.\<close>

lemma tun_devices_equal:
  assumes "tun_wintun_device b = TunDevice cs"
  shows "tun2_tun_config b = cs @ (if target b = Linux then [EnsureRootPrivileges True] else [])"
  using assms by (auto simp: tun2_tun_config_def tun_wintun_device_def Let_def split: if_splits)

section \<open>Runs\<close>














text \<open>An instance of the ICMP interface for evaluation, in the format of RFC 792 without checksums.\<close>

definition sample_icmp :: "icmpv4_type icmpv4" where
  "sample_icmp =
     \<lparr>icmp_from_slice = (\<lambda>bs. if length bs < 8 then None else
        Some ((let word = (\<lambda>i. push_bit 8 (ucast (bs ! i)) OR ucast (bs ! Suc i));
                   e = \<lparr>echo_id = word 4, echo_seq = word 6\<rparr>
               in if bs ! 0 = 8 then EchoRequest e else if bs ! 0 = 0 then EchoReply e else OtherIcmp), drop 8 bs)),
      icmp_type = id, icmp_new = id, icmp_update_checksum = (\<lambda>h _. h),
      icmp_to_bytes = (\<lambda>t. let word = (\<lambda>w :: u16. [ucast (drop_bit 8 w), ucast w]) in
        case t of
          EchoRequest e \<Rightarrow> [8, 0, 0, 0] @ word (echo_id e) @ word (echo_seq e)
        | EchoReply e \<Rightarrow> [0, 0, 0, 0] @ word (echo_id e) @ word (echo_seq e)
        | OtherIcmp \<Rightarrow> replicate 8 255)\<rparr>"

lemma word_bytes: "push_bit 8 (ucast (ucast (drop_bit 8 w) :: u8)) OR ucast (ucast w :: u8) = (w :: u16)"
  by (rule bit_word_eqI) (auto simp: bit_simps)

lemma sample_icmp_ok: "icmp_ok sample_icmp"
  by (simp add: icmp_ok_def sample_icmp_def Let_def word_bytes)


text \<open>An ICMPv4 packet that is too short for a header ends the program.\<close>

lemma short_icmp_ends_main:
  assumes "icmp_ok ic" "ut_src_addr u = V4 src" "ut_protocol u = IpNumber_ICMP" "length (ut_payload u) < 8"
  shows "tun2_accept b ep ic cx connected (Inr (UnknownTransport u)) s = Some (Some (Inl MainIcmp))"
  using assms by (simp add: icmp_ok_def tun2_accept_def answer_unknown_def Let_def)

section \<open>Echo requests\<close>

lemma echo_reply_ok:
  assumes "icmp_ok ic"
  obtains h where "length (echo_reply ic e d) = 8 + length d" "icmp_from_slice ic (echo_reply ic e d) = Some (h, d)"
    "icmp_type ic h = EchoReply e"
proof -
  let ?bs = "icmp_to_bytes ic (icmp_update_checksum ic (icmp_new ic (EchoReply e)) d)"
  have same: "\<lparr>echo_id = echo_id e, echo_seq = echo_seq e\<rparr> = e" by (cases e) simp
  have "echo_reply ic e d = ?bs @ d" by (simp add: echo_reply_def Let_def same)
  moreover obtain h where "length ?bs = 8" "icmp_from_slice ic (?bs @ d) = Some (h, d)" "icmp_type ic h = EchoReply e"
    using assms unfolding icmp_ok_def Let_def by blast
  ultimately show thesis using that by simp
qed

lemma answer_echo:
  assumes "etherparse_ok ep" "icmp_ok ic" "\<forall>n. cx_send_ok cx n" "ut_src_addr u = V4 src" "ut_dst_addr u = V4 dst"
    "ut_protocol u = IpNumber_ICMP" "ut_mtu u = MTU" "ut_sent u = []" "length (ut_payload u) \<le> 65515"
    "icmp_from_slice ic (ut_payload u) = Some (ih, d)" "icmp_type ic ih = EchoRequest e"
  obtains q where "answer_unknown b ep ic cx u = Some (Some (Inr [q]))" "carries b ep u (echo_reply ic e d) q"
    "length (echo_reply ic e d) \<le> 65515"
proof -
  have "length (ut_payload u) = 8 + length d" using assms(2,10,11) unfolding icmp_ok_def by blast
  moreover have "length (echo_reply ic e d) = 8 + length d" using echo_reply_ok [OF assms(2)] by metis
  ultimately have len: "length (echo_reply ic e d) \<le> 65515" using assms(9) by simp
  have "unknown_room u = 65515" using assms(5,7) by (simp add: unknown_room_def unknown_headers_len_def MTU_def)
  with len have room: "take (unknown_room u) (echo_reply ic e d) = echo_reply ic e d" "drop (unknown_room u) (echo_reply ic e d) = []"
    by simp_all
  obtain q where q: "carries b ep u (take (unknown_room u) (echo_reply ic e d)) q"
    "unknown_send b ep cx (echo_reply ic e d) u =
       (if drop (unknown_room u) (echo_reply ic e d) = [] then Some (Some (u\<lparr>ut_sent := ut_sent u @ [q]\<rparr>, Inr ()))
        else unknown_send b ep cx (drop (unknown_room u) (echo_reply ic e d)) (u\<lparr>ut_sent := ut_sent u @ [q]\<rparr>))"
    using unknown_send_pass [OF assms(1,5,4,3)] .
  then have "unknown_send b ep cx (echo_reply ic e d) u = Some (Some (u\<lparr>ut_sent := [q]\<rparr>, Inr ()))"
    using room assms(8) by simp
  with assms(4,6,8,10,11) have "answer_unknown b ep ic cx u = Some (Some (Inr [q]))" by (simp add: answer_unknown_def)
  with that q(1) room(1) len show thesis by simp
qed

text \<open>
  C14: a ping is answered, from device to device. An IPv4 packet with an ICMP echo request that
  is read from the device of a running \<open>tun2\<close> becomes the next stream that \<open>accept\<close> returns; the turn
  of \<open>main\<close> that receives it sends exactly one packet, whatever the counters and tasks are; that
  packet goes from the address that was pinged to the one that pinged it, and carries an echo
  reply with the identifier, the sequence number and the data of the request; and the stack writes it
  to the device in one piece.
\<close>

theorem ping_answered:
  assumes "etherparse_ok ep" "icmp_ok ic" "\<forall>n. cx_send_ok cx n" "env_accept_ok env" "\<forall>bs. dev bs = Inr ()"
    "is_handle k = Running" "is_config k = tun2_config a" "is_received k = length (sk_accepted (is_task k))"
    "parse ep buf = Inr p" "np_ip p = Ipv4 h" "np_transport p = Unknown" "ipv4_protocol h = IpNumber_ICMP"
    "length (np_payload p) \<le> 65515"
    "icmp_from_slice ic (np_payload p) = Some (ih, d)" "icmp_type ic ih = EchoRequest e"
  shows "\<exists>k1 r s' q h' ih' bs.
     ip_stack_accept (ip_stack_turn b ep (DeviceRead env buf) k) = (k1, Ready r) \<and>
     tun2_accept b ep ic cx connected r s = Some (Some (Inr s')) \<and>
     tun2_sent s' = tun2_sent s @ [q] \<and> tun2_tasks s' = tun2_tasks s \<and> tun2_count s' = tun2_count s \<and>
     np_ip q = Ipv4 h' \<and> ipv4_source h' = ipv4_destination h \<and> ipv4_destination h' = ipv4_source h \<and>
     ipv4_protocol h' = IpNumber_ICMP \<and>
     icmp_from_slice ic (np_payload q) = Some (ih', d) \<and> icmp_type ic ih' = EchoReply e \<and>
     to_bytes ep q = Inr bs \<and> length bs \<le> 65535 \<and>
     sk_written (is_task (ip_stack_turn b ep (PacketRecv dev q) k1)) = sk_written (is_task k) @ [bs]"
proof -
  let ?u = "unknown_new (V4 (ipv4_source h)) (V4 (ipv4_destination h)) (np_payload p) (np_ip p) MTU"
  let ?st = "(is_task k)\<lparr>sk_accepted := sk_accepted (is_task k) @ [UnknownTransport ?u]\<rparr>"
  let ?k1 = "k\<lparr>is_task := ?st, is_received := Suc (is_received k)\<rparr>"
  have cfg: "cfg_mtu (tun2_config a) = MTU" "\<not> cfg_packet_information (tun2_config a)"
    by (simp_all add: tun2_config_def config_mtu_def config_tcp_timeout_def config_udp_timeout_def config_default_def Let_def)
  have addr: "sa_ip (src_addr p) = V4 (ipv4_source h)" "sa_ip (dst_addr p) = V4 (ipv4_destination h)"
    using assms(10) by (simp_all add: src_addr_def dst_addr_def Let_def)
  have "run_step b ep (tun2_config a) (DeviceRead env buf) (is_task k) = Some (Inr ?st)"
    using assms(4,9,11) cfg addr by (simp add: offset_def process_device_read_def transport_protocol_def)
  then have acc: "ip_stack_accept (ip_stack_turn b ep (DeviceRead env buf) k) = (?k1, Ready (Inr (UnknownTransport ?u)))"
    using assms(6-8) by (simp add: ip_stack_turn_def ip_stack_accept_def)
  have u: "ut_src_addr ?u = V4 (ipv4_source h)" "ut_dst_addr ?u = V4 (ipv4_destination h)" "ut_protocol ?u = IpNumber_ICMP"
    "ut_mtu ?u = MTU" "ut_sent ?u = []" "ut_payload ?u = np_payload p"
    using assms(10,12) by (simp_all add: unknown_new_def)
  obtain q where q: "answer_unknown b ep ic cx ?u = Some (Some (Inr [q]))" "carries b ep ?u (echo_reply ic e d) q"
    "length (echo_reply ic e d) \<le> 65515"
    using answer_echo [OF assms(1-3) u(1-5)] assms(13-15) u(6) by metis
  let ?s = "s\<lparr>tun2_serial_number := tun2_serial_number s + 1, tun2_sent := tun2_sent s @ [q]\<rparr>"
  have turn: "tun2_accept b ep ic cx connected (Inr (UnknownTransport ?u)) s = Some (Some (Inr ?s))"
    using q(1) by (simp add: tun2_accept_def Let_def)
  obtain h' where h': "np_ip q = Ipv4 h'" "ipv4_source h' = ipv4_destination h" "ipv4_destination h' = ipv4_source h"
    "ipv4_protocol h' = IpNumber_ICMP"
    using q(2) u(1-3) by (cases "np_ip q") (auto simp: carries_def src_addr_def dst_addr_def Let_def)
  obtain ih' where ih': "icmp_from_slice ic (np_payload q) = Some (ih', d)" "icmp_type ic ih' = EchoReply e"
    using echo_reply_ok [OF assms(2)] q(2) unfolding carries_def by metis
  obtain x y where xy: "to_bytes ep q = Inr (x @ y @ np_payload q)" "length x = ip_len ep (np_ip q)"
    "length y = transport_len ep (np_transport q)" using assms(1) by (rule to_bytes_split)
  have "wire_len ep q \<le> 65535" using q(2,3) u(2) unfolding carries_def unknown_headers_len_def by simp
  then have "length (x @ y @ np_payload q) \<le> 65535" using xy(2,3) by (simp add: wire_len_def)
  moreover have "ttl q \<noteq> 0" using q(2) TTL_pos [of b] by (simp add: carries_def)
  then have "sk_written (is_task (ip_stack_turn b ep (PacketRecv dev q) ?k1)) = sk_written (is_task k) @ [x @ y @ np_payload q]"
    using assms(5-7) cfg(2) xy(1) by (simp add: ip_stack_turn_def process_upstream_recv_def packet_information_def Let_def)
  ultimately show ?thesis using acc turn h' ih' xy(1)
    by (intro exI [of _ ?k1] exI [of _ "Inr (UnknownTransport ?u)"] exI [of _ ?s] exI [of _ q] exI [of _ h'] exI [of _ ih']
        exI [of _ "x @ y @ np_payload q"]) simp
qed

theorem ping_answered_witness:
  "\<exists>k1 r s' q. ip_stack_accept (ip_stack_turn sample_build sample_net (DeviceRead (sample_env 1) [1, 8, 0, 0, 0, 0, 7, 0, 9, 42])
       (ip_stack_new (tun2_config (args_default sample_src)))) = (k1, Ready r) \<and>
     tun2_accept sample_build sample_net sample_icmp sample_cx True r tun2_init = Some (Some (Inr s')) \<and> tun2_sent s' = [q] \<and>
     (\<exists>ih. icmp_from_slice sample_icmp (np_payload q) = Some (ih, [42]) \<and>
        icmp_type sample_icmp ih = EchoReply \<lparr>echo_id = 7, echo_seq = 9\<rparr>)"
proof -
  let ?d = "[8, 0, 0, 0, 0, 7, 0, 9, 42] :: bytes"
  let ?h = "\<lparr>ipv4_time_to_live = 64, ipv4_protocol = 1, ipv4_dont_fragment = True,
     ipv4_source = 0x0A000001, ipv4_destination = 0x08080808, ipv4_rest = ()\<rparr>"
  let ?k = "ip_stack_new (tun2_config (args_default sample_src)) :: unit ip_stack"
  have p: "parse sample_net (1 # ?d) = Inr \<lparr>np_ip = Ipv4 ?h, np_transport = Unknown, np_payload = ?d\<rparr>"
    by (simp add: parse_def sample_etherparse_def sample_slicer_def parse_transport_def)
  have k: "is_handle ?k = Running" "is_config ?k = tun2_config (args_default sample_src)" "is_received ?k = length (sk_accepted (is_task ?k))"
    by (simp_all add: ip_stack_new_def stack_init_def)
  have c: "\<forall>n. cx_send_ok sample_cx n" "env_accept_ok (sample_env 1)" "\<forall>bs. (\<lambda>_ :: bytes. Inr () :: io_error + unit) bs = Inr ()"
    by (simp_all add: sample_cx_def sample_env_def)
  have i: "icmp_from_slice sample_icmp ?d = Some (EchoRequest \<lparr>echo_id = 7, echo_seq = 9\<rparr>, [42])"
    "icmp_type sample_icmp (EchoRequest \<lparr>echo_id = 7, echo_seq = 9\<rparr>) = EchoRequest \<lparr>echo_id = 7, echo_seq = 9\<rparr>"
    by (simp_all add: sample_icmp_def Let_def)
  have "ipv4_protocol ?h = IpNumber_ICMP" "length ?d \<le> 65515" by (simp_all add: IpNumber_ICMP_def)
  note hyps = ping_answered [OF sample_etherparse_ok sample_icmp_ok c k p, unfolded network_packet.simps, OF refl refl this i,
      of sample_build True "tun2_init :: unit tun2"]
  have "tun2_sent (tun2_init :: unit tun2) = []" by (simp add: tun2_init_def)
  with hyps show ?thesis by (metis append_Nil)
qed

end
