(* ===== verification/Spec2Isabelle.thy ===== *)
theory Spec2Isabelle
  imports Tcp_Data Tcp_Send Tcp_Ack Tcp_Close Reassembly Wintun Tun_Examples
begin

text \<open>
  A verification library of ipstack, the userspace TCP/IP stack of this repository.

  \<^bold>\<open>The program.\<close> ipstack reads IP packets from a device (a TUN interface), finds or
  creates the stream each of them belongs to, and gives new streams to the application,
  which reads and writes them; what the streams send goes back to the device.
  \<^item> \<open>src/src/packet.rs\<close> parses and serialises packets (with the crate etherparse), and has
    the session key of a packet, \<open>NetworkTuple\<close>.
  \<^item> \<open>src/src/stream/tcb.rs\<close> is the TCP control block: sequence numbers, windows, the packets
    in flight and the map of received segments.
  \<^item> \<open>src/src/stream/tcp.rs\<close> is the TCP state machine over it, driven by \<open>poll_read\<close>,
    \<open>poll_write\<close>, \<open>poll_flush\<close> and \<open>poll_shutdown\<close>; \<open>src/src/stream/tcp_wrapper.rs\<close> is the handle
    the application holds, whose destructor shuts the connection down.
  \<^item> \<open>src/src/stream/udp.rs\<close> and \<open>src/src/stream/unknown.rs\<close> are UDP streams and packets of other
    protocols; \<open>src/src/stream/mod.rs\<close> is the sum of all kinds of streams.
  \<^item> \<open>src/src/lib.rs\<close> has the configuration and the task between device and streams: the table
    from session keys to the channels of the streams, \<open>process_device_read\<close>,
    \<open>create_stream\<close> and \<open>process_upstream_recv\<close>.
  \<^item> \<open>src/src/error.rs\<close> has the error type.
  \<^item> \<open>src/examples/tun2.rs\<close> and \<open>src/examples/tun_wintun.rs\<close> are two applications: they connect every
    stream to a server and answer pings; the second has a TUN device for Windows.

  \<^bold>\<open>Conventions.\<close> A panic is \<open>None\<close>, a \<open>Result\<close> a sum with the error on the left;
  machine integers are words, and \<open>+\<close>, \<open>*\<close> and \<open>/\<close> are total only where Rust's are: \<open>build\<close>
  says whether overflow is checked, which target is compiled for and whether debug
  assertions are on, so every theorem holds for debug and release builds. Etherparse is a
  record of functions, an argument of everything that uses it; \<open>etherparse_ok\<close> states the
  documented lengths and fields theorems rely on, and \<open>sample_etherparse\<close> satisfies it. What
  tokio and the clock answer during a call is data of the call: \<open>cx\<close> (waker, instant, whether
  a timer has elapsed, whether a send succeeds), the answers of \<open>poll_recv\<close> as a list, and for the
  stack's task \<open>env\<close> and \<open>event\<close>. Packets a stream has sent are a list in its state.

  \<^bold>\<open>The theories.\<close>
  \<^item> \<open>Prelude\<close>: integer types and checked operators, \<open>build\<close>, \<open>Poll\<close>, \<open>Vec\<close> and
    \<open>BTreeMap\<close>, and the locale \<open>invariant\<close> of step relations. \<open>Error\<close>, \<open>Etherparse\<close>,
    \<open>Runtime\<close>: errors, the interface of etherparse, the interface of tokio and the TTLs.
  \<^item> \<open>Packet\<close>: \<open>packet.rs\<close>; the flag byte; the locale \<open>reply_builder\<close>, the contract of every
    \<open>create_rev_packet\<close>, interpreted for TCP, UDP and unknown transports.
  \<^item> \<open>Tcb\<close>: \<open>tcb.rs\<close>; the classification of packets by \<open>check_pkt_type\<close>, and the running mean of
    the peer's window. \<open>Send_Buffer\<close>: the locale \<open>send_buffer\<close>, a queue of unacknowledged
    bytes, which the packets in flight refine. \<open>Reassembly\<close>: the locale \<open>reassembly\<close>,
    which the map of received segments satisfies.
  \<^item> \<open>Tcp\<close>: \<open>tcp.rs\<close>. \<open>poll_read\<close> is one definition per step before a packet is received
    (\<open>before_recv\<close>), one per connection state for a received packet (\<open>recv_packet\<close>), and the
    loop \<open>poll_read_loop\<close>, whose termination is proved: a pass that restarts without a
    packet takes the connection one step further, and the answers of \<open>poll_recv\<close> are finitely many.
    \<open>Tcp_Reply\<close>: the packets it builds. \<open>Tcp_Session\<close>: no call sequence panics.
    \<open>Tcp_Handshake\<close>: the handshake. \<open>Tcp_Life\<close>: the state diagram as a step relation and what
    holds in every run. \<open>Tcp_Data\<close>: the bytes the application reads. \<open>Tcp_Write\<close>: writing, and
    the delivery of the next segment. \<open>Tcp_Ack\<close>: retransmission and the waking of writers.
    \<open>Tcp_Close\<close>: reset, timeout, orderly shutdown, close by the peer.
  \<^item> \<open>Tcp_Wrapper\<close>, \<open>Udp\<close>, \<open>Unknown_Transport\<close>, \<open>Streams\<close>: the other files of \<open>stream\<close>. The
    loop of \<open>send\<close> in \<open>unknown.rs\<close> is a partial function, since it need not end.
  \<^item> \<open>Stack\<close>: \<open>lib.rs\<close>, one turn of the loop of \<open>run\<close> being \<open>run_step\<close>, and the handle \<open>ip_stack\<close>
    of the application with \<open>accept\<close>. \<open>Stack_Sessions\<close>: the session table. \<open>Stack_Streams\<close>: the streams
    given out are well formed, which is what the theorems on single streams assume.
  \<^item> \<open>Wintun\<close>: the Windows device. \<open>Tun_Examples\<close>: the two programs; their loops are \<open>tun2_accept\<close> and
    \<open>tun_wintun_accept\<close>, and the interface of etherparse for ICMP is the record \<open>icmpv4\<close>.
  \<^item> This theory: the packets of TCP streams at the device, the round trip over the device, the
    opening of a connection and the way of the peer's bytes to the application through the whole
    stack, and a race of two sessions.

  \<^bold>\<open>What is shown.\<close> For TCP: no run of calls panics under the stated conditions, the state
  only moves along the state diagram, the application reads a prefix of the peer's bytes, the
  bytes it writes are queued until acknowledged, handshake, retransmission, reset, timeout, shutdown and
  close by the peer do what they should, and every packet carries the session's key and fits the MTU. For UDP: datagram
  boundaries and order. For unknown protocols: \<open>send\<close> returns and sends everything over IPv4
  when the MTU leaves room. For the stack: streams are isolated, packets reach their
  stream in order, sessions begin and end as they should, and every stream given out is well
  formed. For the examples: the loops neither panic nor hang, the session counter counts the running
  tasks, and a ping is answered from device to device. Where the code does not do that, the
  exact behaviour is proved instead: the panic on a repeated acknowledgement of the initial
  sequence number, the rejection of all packets after the sequence number has wrapped, the
  panics of short buffers and short reads, the loop of \<open>send\<close> without room, the lost data of
  IPv6 sends, the end of the examples on a short ICMP packet, the removal of a session by the
  last packet of an older stream.

  \<^bold>\<open>Bounds.\<close> The conditions of the session theorems are that written bytes do not wrap the
  32-bit sequence number and that fewer than \<open>2^47\<close> packets are received (the average window
  multiplies a count by a window in 64 bits); those of the examples' loops are fewer than \<open>2^64\<close> events
  (the counter is a 64-bit word) and writes of at most 65535 bytes. No fuel is used.

  \<^bold>\<open>Not modelled.\<close> Log messages and the texts of errors; the wake-ups tokio makes by itself (a
  waker of the program is recorded when it is woken); time overflow of \<open>Instant\<close>; the
  partial effects of a failed write to the device, after which the task ends; of the examples, the
  command line, the set-up of the device and the copying between stream and socket, which are calls
  into other crates; the tests.
\<close>

section \<open>From the streams to the device\<close>

lemma packet_information_length:
  "length (packet_information b pi p) = (if cfg_unix b \<and> pi then 4 else 0)"
  by (simp add: packet_information_def TUN_FLAGS_def TUN_PROTO_IP4_def TUN_PROTO_IP6_def)

text \<open>
  C19: what becomes of the packets of TCP streams. Any packet that a TCP stream sends in
  any run of calls from its creation, received by the stack's task: with TTL 0 it removes
  the session of exactly that stream and writes nothing; otherwise it is serialised (at
  most the MTU, or the bare headers if the MTU is smaller) and written to the device in one
  piece, behind the four bytes of packet information where they are on, and the sessions
  are unchanged; only an error of the device itself ends the task.
\<close>

theorem tcp_packets_reach_device:
  assumes "reachable (tcp_init b ep src dst mtu) (tcp_step b ep) s" "etherparse_ok ep"
    "same_family (sa_ip dst) (sa_ip src)" "p \<in> set (ts_sent s)"
  shows "if ttl p = 0
     then process_upstream_recv b ep dev pi p st =
       Inr (st\<lparr>sk_sessions := (sk_sessions st)(\<lparr>nt_src = src, nt_dst = dst, nt_tcp = True\<rparr> := None)\<rparr>)
     else \<exists>bs. to_bytes ep p = Inr bs \<and> length bs \<le> max (unat mtu) (case sa_ip dst of V4 _ \<Rightarrow> 40 | V6 _ \<Rightarrow> 60) \<and>
       length (packet_information b pi p) = (if cfg_unix b \<and> pi then 4 else 0) \<and>
       process_upstream_recv b ep dev pi p st =
         (case dev (packet_information b pi p @ bs) of
            Inl e \<Rightarrow> Inl (IoError e)
          | Inr _ \<Rightarrow> Inr (st\<lparr>sk_written := sk_written st @ [packet_information b pi p @ bs]\<rparr>))"
proof -
  have t: "reverse_network_tuple p = \<lparr>nt_src = src, nt_dst = dst, nt_tcp = True\<rparr>"
    and "\<exists>bs. to_bytes ep p = Inr bs \<and> length bs \<le> max (unat mtu) (case sa_ip dst of V4 _ \<Rightarrow> 40 | V6 _ \<Rightarrow> 60)"
    using tcp_session_packets [OF assms] by simp_all
  then obtain bs where bs: "to_bytes ep p = Inr bs" "length bs \<le> max (unat mtu) (case sa_ip dst of V4 _ \<Rightarrow> 40 | V6 _ \<Rightarrow> 60)"
    by blast
  with t show ?thesis by (simp add: process_upstream_recv_def packet_information_length Let_def)
qed

theorem tcp_packets_reach_device_witness:
  "\<exists>(s1 :: unit tcp_stream) p bs. ts_sent s1 = [p] \<and> to_bytes sample_ep p = Inr bs \<and>
     process_upstream_recv sample_build sample_ep (\<lambda>_. Inr ()) True p (stack_init :: unit stack) =
       Inr (stack_init\<lparr>sk_written := [packet_information sample_build True p @ bs]\<rparr>)"
proof -
  obtain s1 p where s1: "tcp_step sample_build sample_ep (sample_stream (SynReceived False)) s1"
      "st_of s1 = SynReceived True" "ts_sent s1 = [p]" "ttl p = 64" by (rule sample_first_step)
  have "tcp_init sample_build sample_ep sample_src sample_dst 1500 (sample_stream (SynReceived False))"
    unfolding tcp_init_def using sample_new by blast
  then have r: "reachable (tcp_init sample_build sample_ep sample_src sample_dst 1500) (tcp_step sample_build sample_ep) s1"
    using s1(1) by (auto intro: reachable.intros)
  have "same_family (sa_ip sample_dst) (sa_ip sample_src)" by (simp add: same_family_def)
  from tcp_packets_reach_device [OF r sample_etherparse_ok this, of p "\<lambda>_. Inr ()" True stack_init] s1(3,4)
  show ?thesis by (auto simp: stack_init_def)
qed

section \<open>From the device to the device\<close>






section \<open>A connection, end to end\<close>

text \<open>The SYN and the segment of the evaluations, as the device delivers them.\<close>

lemma sample_offset: "offset sample_build config_default = 0"
  by (simp add: offset_def config_default_def)

lemma sample_syn:
  obtains p where "offset sample_build config_default \<le> length [6, SYN]"
    "parse sample_net (drop (offset sample_build config_default) [6, SYN]) = Inr p" "np_transport p = Tcp (sample_tcp 7 0 SYN 64)"
    "no_session (sample_env c) p stack_init" "tcp_sequence_number (sample_tcp 7 0 SYN 64) \<noteq> - 1" "env_accept_ok (sample_env c)"
    "tcp_syn (sample_tcp 7 0 SYN 64)" "network_tuple_of p = \<lparr>nt_src = sample_src, nt_dst = sample_dst, nt_tcp = True\<rparr>"
proof -
  obtain p where "parse sample_net [6, SYN] = Inr p" "np_transport p = Tcp (sample_tcp 7 0 SYN 64)"
    "network_tuple_of p = \<lparr>nt_src = sample_src, nt_dst = sample_dst, nt_tcp = True\<rparr>"
    using sample_parse(2) [of SYN "[]"] by auto
  with that show thesis
    by (simp add: sample_offset no_session_def stack_init_def sample_tcp_def sample_env_def tcp_flags)
qed

lemma sample_ack_segment:
  obtains q where "offset sample_build config_default \<le> length (6 # ACK # d)"
    "parse sample_net (drop (offset sample_build config_default) (6 # ACK # d)) = Inr q"
    "np_transport q = Tcp (sample_tcp 8 101 ACK 64)"
    "network_tuple_of q = \<lparr>nt_src = sample_src, nt_dst = sample_dst, nt_tcp = True\<rparr>" "np_payload q = d"
proof -
  have "ACK \<noteq> SYN" by (simp add: tcp_flags)
  with sample_parse(2) [of ACK d] that show thesis by (auto simp: sample_offset)
qed


text \<open>
  C10: opening a TCP connection through the whole stack. A SYN read from the device, for
  which there is no live session, makes the stack hand the application a stream. The first
  \<open>poll_read\<close> of the application's handle sends one packet; the stack writes it to the
  device, as a SYN/ACK from the SYN's destination to its source that has the initial sequence
  number, acknowledges the SYN and advertises the whole read buffer.
  When the device then delivers the acknowledgement of that packet, the stack puts it
  into this stream's channel, and the next \<open>poll_read\<close> of the handle finds the
  connection established, with nothing outstanding.
\<close>

theorem tcp_connects:
  assumes "etherparse_ok ep" "\<forall>d. \<not> cx_sleep_ready cx d" "cx_send_ok cx 0" "\<forall>bs. dev bs = Inr ()"
    "offset b config \<le> length buf1" "parse ep (drop (offset b config) buf1) = Inr p1" "np_transport p1 = Tcp h1"
    "no_session env1 p1 st" "tcp_sequence_number h1 \<noteq> - 1" "env_accept_ok env1" "tcp_syn h1"
    "unat (iss_of b (env_rnd env1)) + 1 < 2 ^ 32"
    "offset b config \<le> length buf2" "parse ep (drop (offset b config) buf2) = Inr p2" "np_transport p2 = Tcp h2"
    "network_tuple_of p2 = network_tuple_of p1" "flags (wrapper_from h2) = ACK"
    "tcp_acknowledgment_number h2 = iss_of b (env_rnd env1) + 1" "env_send_ok env2 (env_channel env1)"
  shows "\<exists>st1 st2 st3 x x1 x2 s1 s2 q hq bs.
     run_step b ep config (DeviceRead env1 buf1) st = Some (Inr st1) \<and> sk_accepted st1 = sk_accepted st @ [TcpStream x] \<and>
     handle_poll_read b ep cx cap [] x = Some (x1, [], Pending) \<and> th_inner x1 = Some s1 \<and> ts_sent s1 = [q] \<and>
     run_step b ep config (PacketRecv dev q) st1 = Some (Inr st2) \<and> to_bytes ep q = Inr bs \<and>
     sk_written st2 = sk_written st @ [packet_information b (cfg_packet_information config) q @ bs] \<and>
     network_tuple_of q = mirror (network_tuple_of p1) \<and> np_transport q = Tcp hq \<and>
     flags (wrapper_from hq) = (SYN OR ACK) \<and> tcp_acknowledgment_number hq = tcp_sequence_number h1 + 1 \<and>
     tcp_sequence_number hq = iss_of b (env_rnd env1) \<and> tcp_window_size hq = 16384 \<and>
     run_step b ep config (DeviceRead env2 buf2) st2 = Some (Inr st3) \<and>
     sk_delivered st3 = sk_delivered st @ [(env_channel env1, p2)] \<and>
     handle_poll_read b ep cx cap [Some p2] x1 = Some (x2, [], Pending) \<and> th_inner x2 = Some s2 \<and>
     st_of s2 = Established \<and> sender_rel (ts_tcb s2) []"
proof -
  obtain x s where x: "run_step b ep config (DeviceRead env1 buf1) st =
       Some (Inr (st\<lparr>sk_sessions := (sk_sessions st)(network_tuple_of p1 \<mapsto> env_channel env1),
                     sk_accepted := sk_accepted st @ [TcpStream x]\<rparr>))"
    "tcp_stream_new b ep (env_cx env1) (env_rnd env1) (src_addr p1) (dst_addr p1) (wrapper_from h1)
       (cfg_mtu config) (cfg_tcp_timeout config) = Some ([], Inr s)"
    "th_inner x = Some s" "st_of s = SynReceived False" "get_ack (ts_tcb s) = tcp_sequence_number h1 + 1"
    "session_of (TcpStream x) = network_tuple_of p1" "ts_src_addr s = src_addr p1" "ts_dst_addr s = dst_addr p1"
    using stack_accepts_syn [OF assms(5-11)] .
  let ?st1 = "st\<lparr>sk_sessions := (sk_sessions st)(network_tuple_of p1 \<mapsto> env_channel env1),
                  sk_accepted := sk_accepted st @ [TcpStream x]\<rparr>"
  have fam: "same_family (sa_ip (dst_addr p1)) (sa_ip (src_addr p1))"
    using same_family_packet [of p1] same_family_sym by blast
  obtain s1 s2 q hq where h: "poll_read b ep cx cap [] s = Some (s1, [], Pending)" "ts_sent s1 = [q]" "st_of s1 = SynReceived True"
    "is_reply ep (idle cx s) (SYN OR ACK) (TTL b) None [] q"
    "np_transport q = Tcp hq" "flags (wrapper_from hq) = (SYN OR ACK)" "tcp_sequence_number hq = iss_of b (env_rnd env1)"
    "tcp_acknowledgment_number hq = tcp_sequence_number (inner (wrapper_from h1)) + 1" "tcp_window_size hq = 16384"
    "np_payload q = []"
    "poll_read b ep cx cap [Some p2] s1 = Some (s2, [], Pending)" "st_of s2 = Established"
    "sender_rel (ts_tcb s2) []" "ts_sent s2 = [q]" "get_send_window (ts_tcb s2) = tcp_window_size h2"
    using handshake_run [OF assms(1) fam x(2) assms(2,3,12,15,17,18)] .
  obtain u v where bs: "to_bytes ep q = Inr (u @ v @ np_payload q)" using assms(1) by (rule to_bytes_split)
  let ?out = "packet_information b (cfg_packet_information config) q @ u @ v @ np_payload q"
  have q: "ttl q \<noteq> 0" "network_tuple_of q = mirror (network_tuple_of p1)"
    using h(4) x(7,8) TTL_pos [of b] network_tuple_of_tcp [OF h(5)] network_tuple_of_tcp [OF assms(7)]
    by (simp_all add: is_reply_def mirror_def)
  let ?st2 = "?st1\<lparr>sk_written := sk_written st @ [?out]\<rparr>"
  have st2: "run_step b ep config (PacketRecv dev q) ?st1 = Some (Inr ?st2)"
    using q(1) bs assms(4) by (simp add: process_upstream_recv_def Let_def)
  have st3: "run_step b ep config (DeviceRead env2 buf2) ?st2 =
      Some (Inr (?st2\<lparr>sk_delivered := sk_delivered st @ [(env_channel env1, p2)]\<rparr>))"
    using assms(13-16,19) by (simp add: process_device_read_def transport_protocol_def)
  have r: "handle_poll_read b ep cx cap [] x = Some (x\<lparr>th_inner := Some s1\<rparr>, [], Pending)"
    "handle_poll_read b ep cx cap [Some p2] (x\<lparr>th_inner := Some s1\<rparr>) = Some (x\<lparr>th_inner := Some s2\<rparr>, [], Pending)"
    using x(3) h(1,11) by (simp_all add: handle_poll_read_def)
  have a: "tcp_acknowledgment_number hq = tcp_sequence_number h1 + 1" using h(8) by (simp add: inner_def wrapper_from_def)
  show ?thesis
    by (intro exI conjI) (rule x(1), simp, rule r(1), simp, rule h(2), rule st2, rule bs, simp, rule q(2), rule h(5), rule h(6),
        rule a, rule h(7), rule h(9), rule st3, simp, rule r(2), simp, rule h(12), rule h(13))
qed

theorem tcp_connects_witness:
  "\<exists>st1 st2 st3 x x1 x2 s2 q. run_step sample_build sample_net config_default (DeviceRead (sample_env 1) [6, SYN]) stack_init = Some (Inr st1) \<and>
     sk_accepted st1 = [TcpStream x] \<and> handle_poll_read sample_build sample_net sample_cx 16 [] x = Some (x1, [], Pending) \<and>
     run_step sample_build sample_net config_default (PacketRecv (\<lambda>_. Inr ()) q) st1 = Some (Inr st2) \<and>
     run_step sample_build sample_net config_default (DeviceRead (sample_env 2) [6, ACK]) st2 = Some (Inr st3) \<and>
     (\<exists>p2. sk_delivered st3 = [(1, p2)] \<and>
        handle_poll_read sample_build sample_net sample_cx 16 [Some p2] x1 = Some (x2, [], Pending)) \<and>
     th_inner x2 = Some s2 \<and> st_of s2 = Established"
proof -
  obtain p1 where p1: "offset sample_build config_default \<le> length [6, SYN]"
    "parse sample_net (drop (offset sample_build config_default) [6, SYN]) = Inr p1" "np_transport p1 = Tcp (sample_tcp 7 0 SYN 64)"
    "no_session (sample_env 1) p1 stack_init" "tcp_sequence_number (sample_tcp 7 0 SYN 64) \<noteq> - 1" "env_accept_ok (sample_env 1)"
    "tcp_syn (sample_tcp 7 0 SYN 64)" "network_tuple_of p1 = \<lparr>nt_src = sample_src, nt_dst = sample_dst, nt_tcp = True\<rparr>"
    by (rule sample_syn)
  obtain p2 where p2: "offset sample_build config_default \<le> length [6, ACK]"
    "parse sample_net (drop (offset sample_build config_default) [6, ACK]) = Inr p2" "np_transport p2 = Tcp (sample_tcp 8 101 ACK 64)"
    "network_tuple_of p2 = \<lparr>nt_src = sample_src, nt_dst = sample_dst, nt_tcp = True\<rparr>" "np_payload p2 = []"
    by (rule sample_ack_segment)
  have c: "\<forall>d. \<not> cx_sleep_ready sample_cx d" "cx_send_ok sample_cx 0" "\<forall>bs. (\<lambda>_. Inr ()) (bs :: bytes) = (Inr () :: io_error + unit)"
    by (simp_all add: sample_cx_def)
  have e: "unat (iss_of sample_build (env_rnd (sample_env 1))) + 1 < 2 ^ 32" "network_tuple_of p2 = network_tuple_of p1"
    "flags (wrapper_from (sample_tcp 8 101 ACK 64)) = ACK"
    "tcp_acknowledgment_number (sample_tcp 8 101 ACK 64) = iss_of sample_build (env_rnd (sample_env 1)) + 1"
    "env_send_ok (sample_env 2) (env_channel (sample_env 1))"
    using p1(8) p2(4) by (simp_all add: sample_tcp_def sample_env_def tcp_flags iss_of_def sample_build_def
        flags_def inner_def wrapper_from_def Let_def)
  note w = tcp_connects [OF sample_etherparse_ok c p1(1-7) e(1) p2(1-3) e(2-5), of 16]
  have "sk_accepted stack_init = ([] :: unit ip_stack_stream list)" "sk_delivered stack_init = ([] :: (sender \<times> unit network_packet) list)"
    "env_channel (sample_env 1) = 1" by (simp_all add: stack_init_def sample_env_def)
  with w show ?thesis by (simp only: append_Nil) metis
qed

section \<open>Data, end to end\<close>



text \<open>
  C5: from the application to the device. A SYN is read from the device, and a stream is given to
  the application, which calls it in any way; \<open>W\<close> is what its writes have accepted. When the
  stack's task has received the packets of this stream, among any reads of the device and packets
  of any other streams, every byte of \<open>W\<close> has been written to the device, in a packet
  from the SYN's destination to its source that carries the bytes of \<open>W\<close> at its sequence
  number, behind the packet information where it is on.
\<close>

theorem application_to_device:
  assumes "etherparse_ok ep" "offset b config \<le> length buf" "parse ep (drop (offset b config) buf) = Inr p"
    "np_transport p = Tcp h" "no_session env p st" "tcp_sequence_number h \<noteq> - 1" "env_accept_ok env" "tcp_syn h"
    "base = unat (iss_of b (env_rnd env)) + 1" "list_all (good_call (iss_of b (env_rnd env)) m) calls"
    "base + sum_list (map call_written calls) < 2 ^ 32" "1 + sum_list (map call_received calls) < 2 ^ 47"
  shows "\<exists>st1 x s s' W. run_step b ep config (DeviceRead env buf) st = Some (Inr st1) \<and>
     sk_accepted st1 = sk_accepted st @ [TcpStream x] \<and> th_inner x = Some s \<and> do_calls_in b ep calls s = Some (s', W) \<and>
     (\<forall>es st2. run b ep config es st1 = Some (Inr st2) \<and> concat (map (upstream (network_tuple_of p)) es) = ts_sent s' \<longrightarrow>
        (\<forall>i < length W. \<exists>out q. out \<in> set (drop (length (sk_written st)) (sk_written st2)) \<and>
           to_bytes ep q = Inr (drop (offset b config) out) \<and> network_tuple_of q = mirror (network_tuple_of p) \<and>
           segment_of W base q \<and> covers base i q))"
proof -
  let ?k = "network_tuple_of p" and ?iss = "iss_of b (env_rnd env)"
  obtain x s where x: "run_step b ep config (DeviceRead env buf) st =
       Some (Inr (st\<lparr>sk_sessions := (sk_sessions st)(?k \<mapsto> env_channel env), sk_accepted := sk_accepted st @ [TcpStream x]\<rparr>))"
    "tcp_stream_new b ep (env_cx env) (env_rnd env) (src_addr p) (dst_addr p) (wrapper_from h)
       (cfg_mtu config) (cfg_tcp_timeout config) = Some ([], Inr s)" "th_inner x = Some s"
    "st_of s = SynReceived False" "get_ack (ts_tcb s) = tcp_sequence_number h + 1"
    "session_of (TcpStream x) = ?k" "ts_src_addr s = src_addr p" "ts_dst_addr s = dst_addr p"
    using stack_accepts_syn [OF assms(2-8)] .
  let ?st1 = "st\<lparr>sk_sessions := (sk_sessions st)(?k \<mapsto> env_channel env), sk_accepted := sk_accepted st @ [TcpStream x]\<rparr>"
  have fam: "same_family (sa_ip (dst_addr p)) (sa_ip (src_addr p))"
    using same_family_packet [of p] same_family_sym by blast
  obtain s' W where W: "do_calls_in b ep calls s = Some (s', W)" "do_calls b ep calls s = Some s'" "send_inv W ?iss s'"
    using tcp_sends_segments [OF assms(1) fam x(2) assms(10) _ assms(12)] assms(9,11) by blast
  note own = run_packets [OF assms(1) fam x(2) W(2)]
  have bytes: "\<exists>out q. out \<in> set (drop (length (sk_written st)) (sk_written st2)) \<and>
      to_bytes ep q = Inr (drop (offset b config) out) \<and> network_tuple_of q = mirror ?k \<and> segment_of W base q \<and> covers base i q"
    if run: "run b ep config es ?st1 = Some (Inr st2)" "concat (map (upstream ?k) es) = ts_sent s'" and i: "i < length W" for es st2 i
  proof -
    obtain q where q: "q \<in> set (ts_sent s')" "covers base i q" "segment_of W base q"
      using W(3) i assms(9) by (auto simp: send_inv_def out_packets_def)
    obtain bs where bs: "to_bytes ep q = Inr bs" using own(2) [OF q(1)] by blast
    have "q \<in> set (concat (map (upstream ?k) es))" using q(1) run(2) by simp
    then obtain dev where e: "PacketRecv dev q \<in> set es" by (auto dest!: upstream_from)
    let ?out = "packet_information b (cfg_packet_information config) q @ bs"
    have "?out \<in> set (written_by b ep config (PacketRecv dev q))" using bs q(2) by (simp add: covers_def)
    with e have "?out \<in> set (concat (map (written_by b ep config) es))" by (force simp del: written_by.simps)
    then have "?out \<in> set (drop (length (sk_written st)) (sk_written st2))" using run_written [OF run(1)] by simp
    moreover have "drop (offset b config) ?out = bs" by (simp add: packet_information_length offset_def)
    moreover have "network_tuple_of q = mirror ?k"
      using own(1) [OF q(1)] network_tuple_of_tcp [OF assms(4)] by (metis reverse_network_tuple_mirror mirror_mirror)
    ultimately show ?thesis using bs q(2,3) by (intro exI [of _ ?out] exI [of _ q]) simp
  qed
  show ?thesis
    by (rule exI [of _ ?st1], rule exI [of _ x], rule exI [of _ s], rule exI [of _ s'], rule exI [of _ W])
       (intro conjI allI impI, rule x(1), simp, rule x(3), rule W(1), elim conjE, rule bytes)
qed

text \<open>Evaluation: a connection is opened, three bytes are written, and the task receives the packets.\<close>

lemma sample_writing_stack:
  assumes "parse sample_net (drop (offset sample_build config_default) [6, SYN]) = Inr p" "np_transport p = Tcp (sample_tcp 7 0 SYN 64)"
    "no_session (sample_env 1) p stack_init"
  obtains st1 x s s' st2 where
    "run_step sample_build sample_net config_default (DeviceRead (sample_env 1) [6, SYN]) stack_init = Some (Inr st1)"
    "sk_accepted st1 = [TcpStream x]" "th_inner x = Some s"
    "do_calls_in sample_build sample_net sample_writing s = Some (s', [1, 2, 3])"
    "run sample_build sample_net config_default (map (PacketRecv (\<lambda>_. Inr ())) (ts_sent s')) st1 = Some (Inr st2)"
    "concat (map (upstream (network_tuple_of p)) (map (PacketRecv (\<lambda>_. Inr ())) (ts_sent s'))) = ts_sent s'"
proof -
  have h: "offset sample_build config_default \<le> length [6, SYN]" "tcp_sequence_number (sample_tcp 7 0 SYN 64) \<noteq> - 1"
    "env_accept_ok (sample_env 1)" "tcp_syn (sample_tcp 7 0 SYN 64)"
    by (simp_all add: sample_offset sample_tcp_def sample_env_def tcp_flags)
  obtain st1 x s where x: "run_step sample_build sample_net config_default (DeviceRead (sample_env 1) [6, SYN]) stack_init = Some (Inr st1)"
    "sk_accepted st1 = [TcpStream x]"
    "tcp_stream_new sample_build sample_net (env_cx (sample_env 1)) (env_rnd (sample_env 1)) (src_addr p) (dst_addr p)
       (wrapper_from (sample_tcp 7 0 SYN 64)) (cfg_mtu config_default) (cfg_tcp_timeout config_default) = Some ([], Inr s)" "th_inner x = Some s"
    by (rule stack_accepts_syn [OF h(1) assms h(2-4)]) (rule that, assumption, simp_all add: stack_init_def)
  have fam: "same_family (sa_ip (dst_addr p)) (sa_ip (src_addr p))"
    using same_family_packet [of p] same_family_sym by blast
  obtain s' where s': "do_calls_in sample_build sample_net sample_writing s = Some (s', [1, 2, 3])"
    using sample_writing_run [OF sample_etherparse_ok fam x(3)] by (auto simp: config_default_def)
  obtain s'' W where "do_calls_in sample_build sample_net sample_writing s = Some (s'', W)" "do_calls sample_build sample_net sample_writing s = Some s''"
    using tcp_sends_segments [OF sample_etherparse_ok fam x(3) sample_writing_ok(1-3)] .
  with s' have "do_calls sample_build sample_net sample_writing s = Some s'" by simp
  note own = run_packets(1) [OF sample_etherparse_ok fam x(3) this, folded network_tuple_of_tcp [OF assms(2)]]
  note up = run_upstream [of "ts_sent s'" "network_tuple_of p" "\<lambda>_. Inr ()"]
  obtain st2 where "run sample_build sample_net config_default (map (PacketRecv (\<lambda>_. Inr ())) (ts_sent s')) st1 = Some (Inr st2)"
    using up(2) own by blast
  with that x(1,2,4) s' up(1) own show thesis by blast
qed

theorem application_to_device_witness:
  "\<exists>st1 x s s' st2 out q. run_step sample_build sample_net config_default (DeviceRead (sample_env 1) [6, SYN]) stack_init = Some (Inr st1) \<and>
     sk_accepted st1 = [TcpStream x] \<and> th_inner x = Some s \<and>
     do_calls_in sample_build sample_net sample_writing s = Some (s', [1, 2, 3]) \<and>
     run sample_build sample_net config_default (map (PacketRecv (\<lambda>_. Inr ())) (ts_sent s')) st1 = Some (Inr st2) \<and>
     out \<in> set (sk_written st2) \<and> to_bytes sample_net q = Inr out \<and> segment_of [1, 2, 3] 101 q \<and> covers 101 2 q"
proof -
  obtain p where p: "offset sample_build config_default \<le> length [6, SYN]"
    "parse sample_net (drop (offset sample_build config_default) [6, SYN]) = Inr p" "np_transport p = Tcp (sample_tcp 7 0 SYN 64)"
    "no_session (sample_env 1) p stack_init" "tcp_sequence_number (sample_tcp 7 0 SYN 64) \<noteq> - 1" "env_accept_ok (sample_env 1)"
    "tcp_syn (sample_tcp 7 0 SYN 64)" "network_tuple_of p = \<lparr>nt_src = sample_src, nt_dst = sample_dst, nt_tcp = True\<rparr>"
    by (rule sample_syn)
  obtain st1 x s s' st2 where r: "run_step sample_build sample_net config_default (DeviceRead (sample_env 1) [6, SYN]) stack_init = Some (Inr st1)"
    "sk_accepted st1 = [TcpStream x]" "th_inner x = Some s"
    "do_calls_in sample_build sample_net sample_writing s = Some (s', [1, 2, 3])"
    "run sample_build sample_net config_default (map (PacketRecv (\<lambda>_. Inr ())) (ts_sent s')) st1 = Some (Inr st2)"
    "concat (map (upstream (network_tuple_of p)) (map (PacketRecv (\<lambda>_. Inr ())) (ts_sent s'))) = ts_sent s'"
    using sample_writing_stack [OF p(2-4)] .
  have w: "101 + sum_list (map call_written sample_writing) < 2 ^ 32" using sample_writing_ok(2,4) by metis
  obtain st1' x' t t' W' where T: "run_step sample_build sample_net config_default (DeviceRead (sample_env 1) [6, SYN]) stack_init = Some (Inr st1')"
    "sk_accepted st1' = sk_accepted stack_init @ [TcpStream x']" "th_inner x' = Some t" "do_calls_in sample_build sample_net sample_writing t = Some (t', W')"
    "\<forall>es st2. run sample_build sample_net config_default es st1' = Some (Inr st2) \<and> concat (map (upstream (network_tuple_of p)) es) = ts_sent t' \<longrightarrow>
        (\<forall>i < length W'. \<exists>out q. out \<in> set (drop (length (sk_written (stack_init :: unit stack))) (sk_written st2)) \<and>
           to_bytes sample_net q = Inr (drop (offset sample_build config_default) out) \<and> network_tuple_of q = mirror (network_tuple_of p) \<and>
           segment_of W' 101 q \<and> covers 101 i q)"
    using application_to_device [OF sample_etherparse_ok p(1-7) sample_writing_ok(4,1) w sample_writing_ok(3)] by (elim exE conjE) (rule that)
  have "st1' = st1" using T(1) r(1) by (simp del: run_step.simps)
  moreover from this T(2) r(2) have "x' = x" by (simp add: stack_init_def)
  moreover from this T(3) r(3) have "t = s" by simp
  moreover from this T(4) r(4) have "t' = s'" "W' = [1, 2, 3]" by simp_all
  ultimately have "\<exists>out q. out \<in> set (drop (length (sk_written (stack_init :: unit stack))) (sk_written st2)) \<and>
      to_bytes sample_net q = Inr (drop (offset sample_build config_default) out) \<and> network_tuple_of q = mirror (network_tuple_of p) \<and>
      segment_of [1, 2, 3] 101 q \<and> covers 101 2 q"
    using T(5) [THEN spec, THEN spec, THEN mp, OF conjI, of "map (PacketRecv (\<lambda>_. Inr ())) (ts_sent s')" st2] r(5,6)
    by (simp del: run.simps map_map)
  then show ?thesis using r(1-5)
    by (auto simp: sample_offset simp del: run_step.simps run.simps dest!: in_set_dropD)
qed

section \<open>Datagrams, end to end\<close>

text \<open>
  C6: UDP from end to end. A datagram read from the device, in any reachable state of the stack
  and without a live session, opens a UDP stream for the application. The task goes on with any
  turns that keep the session, and the application makes any writes, a first read and then any
  reads and writes, with room, without timeouts and the stack running. When it has read what was put
  into its channel, its reads have returned exactly the payloads of the datagrams of this
  session that the device delivered, one each, in order, the first of them included; and when
  the task has received what the writes sent, these are written to the device, one
  datagram per write and in order, back to the sender, with as much of the data as the MTU allows,
  which is what the writes have returned.
\<close>

theorem udp_end_to_end:
  assumes "etherparse_ok ep" "reachable (\<lambda>st. st = stack_init) (stack_step b ep config) st"
    "offset b config \<le> length buf" "parse ep (drop (offset b config) buf) = Inr p" "np_transport p = Udp h"
    "no_session env p st" "env_accept_ok env" "fresh_channel (DeviceRead env buf) st"
    "\<forall>e \<in> set es. keeps_session (network_tuple_of p) (env_channel env) e"
    "\<forall>c \<in> set (ws @ UdpRead cx cap r # cs). udp_good_call c" "\<forall>c \<in> set ws. \<exists>cx buf. c = UdpWrite cx buf"
    "length (np_payload p) \<le> cap"
  shows "\<exists>st1 x s'. run_step b ep config (DeviceRead env buf) st = Some (Inr st1) \<and>
     sk_accepted st1 = sk_accepted st @ [UdpStream x] \<and>
     (\<exists>rds. udp_run b ep (ws @ UdpRead cx cap r # cs) x = Some (s', rds,
           map (\<lambda>d. min (length d) (unat (cfg_mtu config) - udp_headers_len x)) (concat (map udp_written (ws @ cs)))) \<and>
        (\<forall>st2. run b ep config es st1 = Some (Inr st2) \<longrightarrow>
           (concat (map udp_received cs) = map np_payload (delivered_to (env_channel env) st2) \<longrightarrow>
              rds = map np_payload (p # concat (map (arriving b ep config (network_tuple_of p)) es))) \<and>
           (concat (map (upstream (network_tuple_of p)) es) = us_sent s' \<longrightarrow>
              (\<exists>outs. subseq outs (drop (length (sk_written st)) (sk_written st2)) \<and>
                 list_all2 (\<lambda>d out. \<exists>q. to_bytes ep q = Inr (drop (offset b config) out) \<and>
                     network_tuple_of q = mirror (network_tuple_of p) \<and>
                     np_payload q = take (unat (cfg_mtu config) - udp_headers_len x) d)
                   (concat (map udp_written (ws @ cs))) outs))))"
proof -
  let ?k = "network_tuple_of p" and ?c = "env_channel env"
  let ?x = "udp_stream_new (env_cx env) ?c (src_addr p) (dst_addr p) (np_payload p) (cfg_mtu config) (cfg_udp_timeout config) :: 'a udp_stream"
  let ?st1 = "st\<lparr>sk_sessions := (sk_sessions st)(?k \<mapsto> ?c), sk_accepted := sk_accepted st @ [UdpStream ?x]\<rparr>"
  let ?room = "unat (cfg_mtu config) - udp_headers_len ?x"
  note open1 = stack_accepts_datagram [OF assms(3-7)]
  note fresh = opened_serves [OF assms(2,8)]
  have fam: "same_family (sa_ip (dst_addr p)) (sa_ip (src_addr p))"
    using same_family_packet [of p] same_family_sym by blast
  have k: "?k = \<lparr>nt_src = src_addr p, nt_dst = dst_addr p, nt_tcp = False\<rparr>"
    using assms(5) by (simp add: network_tuple_of_def is_tcp_def)
  obtain s' where run: "udp_run b ep (ws @ UdpRead cx cap r # cs) ?x = Some (s', np_payload p # concat (map udp_received cs),
      map (\<lambda>d. min (length d) ?room) (concat (map udp_written (ws @ cs))))"
    "list_all2 (\<lambda>d q. np_payload q = take ?room d \<and> ttl q = TTL b \<and> reverse_network_tuple q = ?k)
       (concat (map udp_written (ws @ cs))) (us_sent s')"
    using udp_session [OF assms(1) fam assms(10-12) refl, of b "env_cx env" ?c "cfg_mtu config" "cfg_udp_timeout config"] k by auto
  define ser where "ser q = (SOME bs. to_bytes ep q = Inr bs)" for q
  have ser: "to_bytes ep q = Inr (ser q)" for q
    unfolding ser_def by (rule someI_ex) (metis to_bytes_split [OF assms(1)])
  have sent: "\<forall>q \<in> set (us_sent s'). ttl q \<noteq> 0 \<and> to_bytes ep q = Inr (ser q)"
    using run(2) TTL_pos [of b] ser by (auto simp: list_all2_conv_all_nth in_set_conv_nth)
  have rd: "np_payload p # concat (map udp_received cs) = map np_payload (p # concat (map (arriving b ep config ?k) es))"
    if "run b ep config es ?st1 = Some (Inr st2)" "concat (map udp_received cs) = map np_payload (delivered_to ?c st2)" for st2
    using run_serves [OF that(1) fresh(1) assms(9)] fresh(2) that(2) by simp
  let ?out = "\<lambda>q. packet_information b (cfg_packet_information config) q @ ser q"
  have "to_bytes ep q = Inr (drop (offset b config) (?out q))" for q
    using ser [of q] by (simp add: packet_information_length offset_def)
  moreover have "network_tuple_of q = mirror ?k" if "reverse_network_tuple q = ?k" for q
    using that by (metis reverse_network_tuple_mirror mirror_mirror)
  ultimately have wr: "list_all2 (\<lambda>d out. \<exists>q. to_bytes ep q = Inr (drop (offset b config) out) \<and>
      network_tuple_of q = mirror ?k \<and> np_payload q = take ?room d) (concat (map udp_written (ws @ cs))) (map ?out (us_sent s'))"
    using run(2) unfolding list_all2_map2 by (elim list_all2_mono) blast
  have out: "subseq (map ?out (us_sent s')) (drop (length (sk_written st)) (sk_written st2))"
    if "run b ep config es ?st1 = Some (Inr st2)" "concat (map (upstream ?k) es) = us_sent s'" for st2
    using run_writes_session [OF that sent] by simp
  show ?thesis
    by (rule exI [of _ ?st1], rule exI [of _ ?x], rule exI [of _ s'], intro conjI, rule open1, simp)
       (rule exI [of _ "np_payload p # concat (map udp_received cs)"], use run(1) rd out wr in blast)
qed

text \<open>Evaluation: a session opened by one datagram; a write, two reads; the task reads a second datagram and receives what was sent.\<close>

abbreviation sample_udp_calls :: "unit network_packet \<Rightarrow> unit udp_call list" where
  "sample_udp_calls q \<equiv> [UdpWrite sample_cx [7]] @ UdpRead sample_cx 16 Pending # [UdpRead sample_cx 16 (Ready (Some q))]"

lemma sample_udp_stack:
  assumes "parse sample_net [17, 1] = Inr p" "np_transport p = Udp h" "network_tuple_of p = sample_key" "np_payload p = [1]"
    "parse sample_net [17, 2, 3] = Inr q" "transport_protocol q = ProtoUdp" "network_tuple_of q = sample_key" "np_payload q = [2, 3]"
  obtains st1 x s' z st2 where
    "run_step sample_build sample_net config_default (DeviceRead (sample_env 1) [17, 1]) stack_init = Some (Inr st1)"
    "sk_accepted st1 = [UdpStream x]" "udp_run sample_build sample_net (sample_udp_calls q) x = Some (s', [[1], [2, 3]], [1])"
    "us_sent s' = [z]" "ttl z \<noteq> 0" "reverse_network_tuple z = sample_key"
    "run sample_build sample_net config_default [DeviceRead (sample_env 2) [17, 2, 3], PacketRecv (\<lambda>_. Inr ()) z] st1 = Some (Inr st2)"
    "delivered_to 1 st2 = [q]"
proof -
  let ?x = "udp_stream_new sample_cx 1 (src_addr p) (dst_addr p) (np_payload p) (cfg_mtu config_default) (cfg_udp_timeout config_default) :: unit udp_stream"
  let ?st1 = "stack_init\<lparr>sk_sessions := [sample_key \<mapsto> 1], sk_accepted := [UdpStream ?x]\<rparr>"
  have st1: "run_step sample_build sample_net config_default (DeviceRead (sample_env 1) [17, 1]) stack_init = Some (Inr ?st1)"
    using stack_accepts_datagram [of sample_build config_default "[17, 1]" sample_net p h "sample_env 1" stack_init] assms(1-3)
    by (simp add: sample_offset no_session_def stack_init_def sample_env_def)
  have fam: "same_family (sa_ip (dst_addr p)) (sa_ip (src_addr p))"
    using same_family_packet [of p] same_family_sym by blast
  have k: "sample_key = \<lparr>nt_src = src_addr p, nt_dst = dst_addr p, nt_tcp = False\<rparr>"
    using assms(2,3) by (simp add: network_tuple_of_def is_tcp_def)
  have room: "unat (cfg_mtu config_default) - udp_headers_len ?x \<ge> Suc 0"
    by (simp add: config_default_def udp_headers_len_def udp_stream_new_def split: ip_addr.splits)
  have good: "\<forall>c \<in> set (sample_udp_calls q). udp_good_call c" "\<forall>c \<in> set [UdpWrite sample_cx [7]]. \<exists>cx buf. c = UdpWrite cx buf"
    "length (np_payload p) \<le> 16"
    using assms(4,8) by (auto simp: sample_cx_def)
  obtain s' z where s': "udp_run sample_build sample_net (sample_udp_calls q) ?x = Some (s', [[1], [2, 3]], [1])"
    "us_sent s' = [z]" "ttl z = TTL sample_build" "reverse_network_tuple z = sample_key"
    using udp_session [OF sample_etherparse_ok fam good refl, of sample_build sample_slicer sample_cx 1 "cfg_mtu config_default" "cfg_udp_timeout config_default"]
      assms(4,8) k min_absorb1 [OF room] by (auto simp: list_all2_Cons1)
  let ?st = "?st1\<lparr>sk_delivered := [(1, q)]\<rparr>"
  have st: "run_step sample_build sample_net config_default (DeviceRead (sample_env 2) [17, 2, 3]) ?st1 = Some (Inr ?st)"
    using assms(5-8) by (simp add: sample_offset process_device_read_def sample_env_def stack_init_def)
  obtain st2 where st2: "run sample_build sample_net config_default (map (PacketRecv (\<lambda>_. Inr ())) [z]) ?st = Some (Inr st2)"
    using run_upstream(2) [of "[z]" sample_key "\<lambda>_. Inr ()"] s'(4) by (simp del: run.simps list.map) blast
  have run: "run sample_build sample_net config_default [DeviceRead (sample_env 2) [17, 2, 3], PacketRecv (\<lambda>_. Inr ()) z] ?st1 = Some (Inr st2)"
    using st st2 by (simp del: run_step.simps)
  have "serves sample_key 1 ?st1" "\<forall>e \<in> set [DeviceRead (sample_env 2) [17, 2, 3], PacketRecv (\<lambda>_. Inr ()) z]. keeps_session sample_key 1 e"
    using s'(3) TTL_pos [of sample_build] by (auto simp: serves_def sample_env_def stack_init_def)
  from run_serves [OF run this] assms(5-7) have "delivered_to 1 st2 = [q]"
    by (simp add: sample_offset delivered_to_def stack_init_def)
  with that [OF st1 _ s'(1,2) _ s'(4) run] s'(3) TTL_pos [of sample_build] show thesis by simp
qed

theorem udp_end_to_end_witness:
  "\<exists>st1 x s' z st2 q out y. run_step sample_build sample_net config_default (DeviceRead (sample_env 1) [17, 1]) stack_init = Some (Inr st1) \<and>
     sk_accepted st1 = [UdpStream x] \<and> udp_run sample_build sample_net (sample_udp_calls q) x = Some (s', [[1], [2, 3]], [1]) \<and>
     run sample_build sample_net config_default [DeviceRead (sample_env 2) [17, 2, 3], PacketRecv (\<lambda>_. Inr ()) z] st1 = Some (Inr st2) \<and>
     out \<in> set (sk_written st2) \<and> to_bytes sample_net y = Inr out \<and> network_tuple_of y = mirror sample_key \<and> np_payload y = [7]"
proof -
  obtain p where p: "parse sample_net [17, 1] = Inr p" "transport_protocol p = ProtoUdp" "network_tuple_of p = sample_key" "np_payload p = [1]"
    using sample_parse(1) by blast
  obtain q where q: "parse sample_net [17, 2, 3] = Inr q" "transport_protocol q = ProtoUdp" "network_tuple_of q = sample_key" "np_payload q = [2, 3]"
    using sample_parse(1) by blast
  obtain h where h: "np_transport p = Udp h" using p(2) by (auto simp: transport_protocol_def split: transport_header.splits)
  obtain st1 x s' z st2 where r: "run_step sample_build sample_net config_default (DeviceRead (sample_env 1) [17, 1]) stack_init = Some (Inr st1)"
    "sk_accepted st1 = [UdpStream x]" "udp_run sample_build sample_net (sample_udp_calls q) x = Some (s', [[1], [2, 3]], [1])"
    "us_sent s' = [z]" "ttl z \<noteq> 0" "reverse_network_tuple z = sample_key"
    "run sample_build sample_net config_default [DeviceRead (sample_env 2) [17, 2, 3], PacketRecv (\<lambda>_. Inr ()) z] st1 = Some (Inr st2)"
    "delivered_to 1 st2 = [q]"
    using sample_udp_stack [OF p(1) h p(3,4) q] .
  let ?es = "[DeviceRead (sample_env 2) [17, 2, 3], PacketRecv (\<lambda>_. Inr ()) z]"
  have a: "reachable (\<lambda>st. st = stack_init) (stack_step sample_build sample_net config_default) stack_init"
    "offset sample_build config_default \<le> length [17, 1 :: u8]" "parse sample_net (drop (offset sample_build config_default) [17, 1]) = Inr p"
    by (auto simp: sample_offset p(1) intro: reachable.intros)
  have e: "no_session (sample_env 1) p (stack_init :: unit stack)" "env_accept_ok (sample_env 1)"
    "fresh_channel (DeviceRead (sample_env 1) [17, 1]) (stack_init :: unit stack)"
    "\<forall>e \<in> set ?es. keeps_session (network_tuple_of p) (env_channel (sample_env 1)) e"
    "\<forall>c \<in> set (sample_udp_calls q). udp_good_call c" "\<forall>c \<in> set [UdpWrite sample_cx [7]]. \<exists>cx buf. c = UdpWrite cx buf"
    "length (np_payload p) \<le> 16"
    using r(5) p(4) q(4) by (auto simp: no_session_def stack_init_def owns_def sample_env_def sample_cx_def)
  obtain st1' x' t' rds where T: "run_step sample_build sample_net config_default (DeviceRead (sample_env 1) [17, 1]) stack_init = Some (Inr st1')"
    "sk_accepted st1' = sk_accepted stack_init @ [UdpStream x']"
    "udp_run sample_build sample_net (sample_udp_calls q) x' = Some (t', rds, map (\<lambda>d. min (length d) (unat (cfg_mtu config_default) - udp_headers_len x'))
        (concat (map udp_written ([UdpWrite sample_cx [7]] @ [UdpRead sample_cx 16 (Ready (Some q))]))))"
    "\<forall>st2. run sample_build sample_net config_default ?es st1' = Some (Inr st2) \<longrightarrow>
       (concat (map udp_received [UdpRead sample_cx 16 (Ready (Some q))]) = map np_payload (delivered_to (env_channel (sample_env 1)) st2) \<longrightarrow>
          rds = map np_payload (p # concat (map (arriving sample_build sample_net config_default (network_tuple_of p)) ?es))) \<and>
       (concat (map (upstream (network_tuple_of p)) ?es) = us_sent t' \<longrightarrow>
          (\<exists>outs. subseq outs (drop (length (sk_written (stack_init :: unit stack))) (sk_written st2)) \<and>
             list_all2 (\<lambda>d out. \<exists>q. to_bytes sample_net q = Inr (drop (offset sample_build config_default) out) \<and>
                 network_tuple_of q = mirror (network_tuple_of p) \<and> np_payload q = take (unat (cfg_mtu config_default) - udp_headers_len x') d)
               (concat (map udp_written ([UdpWrite sample_cx [7]] @ [UdpRead sample_cx 16 (Ready (Some q))]))) outs))"
    using udp_end_to_end [OF sample_etherparse_ok a h e] by (elim exE conjE) (rule that)
  have "st1' = st1" using T(1) r(1) by (simp del: run_step.simps)
  moreover from this T(2) r(2) have x: "x' = x" by (simp add: stack_init_def)
  moreover from this T(3) r(3) have "t' = s'" "min 1 (unat (cfg_mtu config_default) - udp_headers_len x) = 1" by simp_all
  ultimately obtain out y where "out \<in> set (sk_written st2)" "to_bytes sample_net y = Inr out"
    "network_tuple_of y = mirror sample_key" "np_payload y = [7]"
    using T(4) [THEN spec, THEN mp, of st2] r(4,6,7) p(3)
    by (auto simp: sample_offset list_all2_Cons1 min_def stack_init_def subseq_singleton_left simp del: run.simps split: if_splits)
  with r(1-3,7) show ?thesis by blast
qed

section \<open>A race of two sessions\<close>

lemma tcp_drop_goodbye:
  assumes "etherparse_ok ep" "family_ok s" "cx_send_ok cx (length (ts_sent s))"
  obtains z where "tcp_drop b ep cx s = Some (s\<lparr>ts_sent := ts_sent s @ [z]\<rparr>)" "ttl z = 0"
    "reverse_network_tuple z = \<lparr>nt_src = ts_src_addr s, nt_dst = ts_dst_addr s, nt_tcp = True\<rparr>"
proof -
  obtain z where z: "tcp_create_rev_packet b ep s NON DROP_TTL None [] = Some (Inr z)" "is_reply ep s NON DROP_TTL None [] z"
    using tcp_create_rev_packet_ok [OF assms(1,2)] .
  have "tcp_drop b ep cx s = Some (s\<lparr>ts_sent := ts_sent s @ [z]\<rparr>)"
    using z(1) assms(3) by (simp add: tcp_drop_def mpsc_send_def)
  moreover have "ttl z = 0" "reverse_network_tuple z = \<lparr>nt_src = ts_src_addr s, nt_dst = ts_dst_addr s, nt_tcp = True\<rparr>"
    using z(2) by (auto simp: is_reply_def DROP_TTL_def reverse_network_tuple_def is_tcp_def)
  ultimately show thesis by (rule that)
qed

text \<open>
  C34: the last packet of a stream can end the session of its successor. A TCP stream is
  dropped, which sends the packet with TTL 0 that ends its session, and its channel is closed. When the
  device delivers a new SYN of the same addresses and ports before the stack's task has
  received that packet, a new stream is opened and given to the application; the packet then
  removes the session of the new stream. The peer's next packet, such as the
  acknowledgement that would complete the handshake, does not reach the new stream:
  it is answered with a reset, and no session is left.
\<close>

theorem late_goodbye_ends_successor:
  assumes "etherparse_ok ep" "family_ok s" "cx_send_ok cx (length (ts_sent s))"
    "network_tuple_of p1 = \<lparr>nt_src = ts_src_addr s, nt_dst = ts_dst_addr s, nt_tcp = True\<rparr>"
    "offset b config \<le> length buf1" "parse ep (drop (offset b config) buf1) = Inr p1" "np_transport p1 = Tcp h1"
    "no_session env1 p1 st" "tcp_sequence_number h1 \<noteq> - 1" "env_accept_ok env1" "tcp_syn h1"
    "offset b config \<le> length buf2" "parse ep (drop (offset b config) buf2) = Inr p2" "np_transport p2 = Tcp h2"
    "network_tuple_of p2 = network_tuple_of p1" "\<not> tcp_syn h2" "\<not> tcp_rst h2" "tcp_sequence_number h2 \<noteq> - 1"
    "\<forall>n. cx_send_ok (env_cx env2) n"
  shows "\<exists>z st' x r hr z'. tcp_drop b ep cx s = Some (s\<lparr>ts_sent := ts_sent s @ [z]\<rparr>) \<and>
     run b ep config [DeviceRead env1 buf1, PacketRecv dev z, DeviceRead env2 buf2] st = Some (Inr st') \<and>
     sk_accepted st' = sk_accepted st @ [TcpStream x] \<and> session_of (TcpStream x) = network_tuple_of p1 \<and>
     sk_sessions st' (network_tuple_of p1) = None \<and> sk_delivered st' = sk_delivered st \<and>
     sk_sent st' = sk_sent st @ [r, z'] \<and> np_transport r = Tcp hr \<and> flags (wrapper_from hr) = (RST OR ACK) \<and>
     reverse_network_tuple r = network_tuple_of p1"
proof -
  obtain z where z: "tcp_drop b ep cx s = Some (s\<lparr>ts_sent := ts_sent s @ [z]\<rparr>)" "ttl z = 0"
    "reverse_network_tuple z = \<lparr>nt_src = ts_src_addr s, nt_dst = ts_dst_addr s, nt_tcp = True\<rparr>"
    using tcp_drop_goodbye [OF assms(1-3)] .
  obtain x t where x: "run_step b ep config (DeviceRead env1 buf1) st =
       Some (Inr (st\<lparr>sk_sessions := (sk_sessions st)(network_tuple_of p1 \<mapsto> env_channel env1),
                     sk_accepted := sk_accepted st @ [TcpStream x]\<rparr>))"
    "tcp_stream_new b ep (env_cx env1) (env_rnd env1) (src_addr p1) (dst_addr p1) (wrapper_from h1)
       (cfg_mtu config) (cfg_tcp_timeout config) = Some ([], Inr t)"
    "th_inner x = Some t" "st_of t = SynReceived False" "get_ack (ts_tcb t) = tcp_sequence_number h1 + 1"
    "session_of (TcpStream x) = network_tuple_of p1" "ts_src_addr t = src_addr p1" "ts_dst_addr t = dst_addr p1"
    using stack_accepts_syn [OF assms(5-11)] .
  let ?st2 = "st\<lparr>sk_sessions := (sk_sessions st)(network_tuple_of p1 := None), sk_accepted := sk_accepted st @ [TcpStream x]\<rparr>"
  have st2: "run_step b ep config (PacketRecv dev z)
      (st\<lparr>sk_sessions := (sk_sessions st)(network_tuple_of p1 \<mapsto> env_channel env1), sk_accepted := sk_accepted st @ [TcpStream x]\<rparr>) =
      Some (Inr ?st2)"
    using z(2,3) assms(4) by (simp add: process_upstream_recv_def)
  have none: "no_session env2 p2 ?st2" using assms(15) by (simp add: no_session_def)
  obtain r hr z' where r: "run_step b ep config (DeviceRead env2 buf2) ?st2 =
       Some (Inr (?st2\<lparr>sk_sent := sk_sent ?st2 @ (if tcp_rst h2 then [] else [r]) @ [z']\<rparr>))"
    "np_transport r = Tcp hr" "flags (wrapper_from hr) = (RST OR ACK)"
    "tcp_acknowledgment_number hr = tcp_sequence_number h2 + 1" "reverse_network_tuple r = network_tuple_of p2"
    "ttl z' = 0" "reverse_network_tuple z' = network_tuple_of p2"
    using stack_refuses [OF assms(1,12-14) none assms(18,19,16)] .
  have "run b ep config [DeviceRead env1 buf1, PacketRecv dev z, DeviceRead env2 buf2] st =
      Some (Inr (?st2\<lparr>sk_sent := sk_sent st @ [r, z']\<rparr>))"
    using x(1) st2 r(1) assms(17) by (simp del: run_step.simps)
  with z(1) x(6) r(2,3,5) assms(15) show ?thesis
    by (intro exI [of _ z] exI [of _ "?st2\<lparr>sk_sent := sk_sent st @ [r, z']\<rparr>"] exI [of _ x] exI [of _ r] exI [of _ hr] exI [of _ z']) simp
qed

theorem late_goodbye_ends_successor_witness:
  "\<exists>z st' x r z'. tcp_drop sample_build sample_net sample_cx (sample_stream Closed) = Some ((sample_stream Closed)\<lparr>ts_sent := [z]\<rparr>) \<and>
     run sample_build sample_net config_default
       [DeviceRead (sample_env 2) [6, SYN], PacketRecv (\<lambda>_. Inr ()) z, DeviceRead (sample_env 3) [6, ACK]] stack_init = Some (Inr st') \<and>
     sk_accepted st' = [TcpStream x] \<and> sk_delivered st' = [] \<and> sk_sent st' = [r, z']"
proof -
  obtain p where p: "offset sample_build config_default \<le> length [6, SYN]"
    "parse sample_net (drop (offset sample_build config_default) [6, SYN]) = Inr p" "np_transport p = Tcp (sample_tcp 7 0 SYN 64)"
    "no_session (sample_env 2) p stack_init" "tcp_sequence_number (sample_tcp 7 0 SYN 64) \<noteq> - 1" "env_accept_ok (sample_env 2)"
    "tcp_syn (sample_tcp 7 0 SYN 64)" "network_tuple_of p = \<lparr>nt_src = sample_src, nt_dst = sample_dst, nt_tcp = True\<rparr>"
    by (rule sample_syn)
  obtain q where q: "offset sample_build config_default \<le> length [6, ACK]"
    "parse sample_net (drop (offset sample_build config_default) [6, ACK]) = Inr q" "np_transport q = Tcp (sample_tcp 8 101 ACK 64)"
    "network_tuple_of q = \<lparr>nt_src = sample_src, nt_dst = sample_dst, nt_tcp = True\<rparr>" "np_payload q = []"
    by (rule sample_ack_segment)
  have s: "cx_send_ok sample_cx (length (ts_sent (sample_stream Closed)))" "ts_sent (sample_stream Closed) = []"
    "network_tuple_of p = \<lparr>nt_src = ts_src_addr (sample_stream Closed), nt_dst = ts_dst_addr (sample_stream Closed), nt_tcp = True\<rparr>"
    using p(8) by (simp_all add: sample_cx_def sample_stream_def)
  have e: "network_tuple_of q = network_tuple_of p" "\<not> tcp_syn (sample_tcp 8 101 ACK 64)" "\<not> tcp_rst (sample_tcp 8 101 ACK 64)"
    "tcp_sequence_number (sample_tcp 8 101 ACK 64) \<noteq> - 1" "\<forall>n. cx_send_ok (env_cx (sample_env 3)) n"
    using p(8) q(4) by (simp_all add: sample_tcp_def sample_env_def tcp_flags sample_cx_def)
  have i: "sk_accepted stack_init = ([] :: unit ip_stack_stream list)" "sk_delivered stack_init = ([] :: (sender \<times> unit network_packet) list)"
    "sk_sent stack_init = ([] :: unit network_packet list)" by (simp_all add: stack_init_def)
  from late_goodbye_ends_successor [OF sample_etherparse_ok sample_family_ok s(1,3) p(1-7) q(1-3) e, where dev = "\<lambda>_. Inr ()"]
  show ?thesis unfolding i s(2) append_Nil by metis
qed

end
